(* ===== verification/Prelude.thy ===== *)
theory Prelude
  imports Main "HOL-Library.State_Monad" "HOL-Library.Word"
begin

text \<open>
  What every component shares: the parts of Go's package strings the code uses, on byte
  strings; the state monad of the library with the early-return idiom of Go
  (\<open>if err != nil { return err }\<close>) and its range loops; and the judgement
  \<open>keeps\<close>, which says that a program moves the state along a given preorder, with the
  composition rules in the collection \<open>keeps_intro\<close>.
\<close>

named_theorems keeps_intro \<open>composition rules for the judgement keeps\<close>
named_theorems go_strings \<open>facts about the functions of package strings\<close>

section \<open>Strings\<close>

definition strings_HasPrefix :: "string \<Rightarrow> string \<Rightarrow> bool" where
  "strings_HasPrefix s p \<longleftrightarrow> take (length p) s = p"

definition strings_TrimPrefix :: "string \<Rightarrow> string \<Rightarrow> string" where
  "strings_TrimPrefix s p = (if strings_HasPrefix s p then drop (length p) s else s)"

fun strings_Contains :: "string \<Rightarrow> string \<Rightarrow> bool" where
  "strings_Contains [] sub \<longleftrightarrow> sub = []"
| "strings_Contains (c # cs) sub \<longleftrightarrow> strings_HasPrefix (c # cs) sub \<or> strings_Contains cs sub"

text \<open>\<open>strings.Split\<close> with a one-byte separator: never the empty list.\<close>

fun strings_Split :: "string \<Rightarrow> char \<Rightarrow> string list" where
  "strings_Split [] sep = [[]]"
| "strings_Split (c # cs) sep =
     (if c = sep then [] # strings_Split cs sep
      else (case strings_Split cs sep of
              [] \<Rightarrow> [[c]]
            | w # ws \<Rightarrow> (c # w) # ws))"

text \<open>
  \<open>strings.SplitN s sep 2\<close> for a separator that occurs in \<open>s\<close>: the part before its first
  occurrence and the rest.
\<close>

fun strings_SplitFirst :: "string \<Rightarrow> string \<Rightarrow> (string \<times> string) option" where
  "strings_SplitFirst [] sep = (if sep = [] then Some ([], []) else None)"
| "strings_SplitFirst (c # cs) sep =
     (if strings_HasPrefix (c # cs) sep then Some ([], drop (length sep) (c # cs))
      else map_option (\<lambda>(a, b). (c # a, b)) (strings_SplitFirst cs sep))"

fun strings_Join :: "string list \<Rightarrow> string \<Rightarrow> string" where
  "strings_Join [] sep = []"
| "strings_Join [w] sep = w"
| "strings_Join (w # ws) sep = w @ sep @ strings_Join ws sep"

text \<open>
  \<open>strings.TrimSpace\<close> removes leading and trailing code points for which
  \<open>unicode.IsSpace\<close> holds. Strings are byte strings, so the code points are listed by their
  UTF-8 encodings: the six ASCII ones, U+0085, U+00A0, U+1680, U+2000 to U+200A, U+2028,
  U+2029, U+202F, U+205F and U+3000.
\<close>

definition byte :: "nat \<Rightarrow> char" where
  "byte n = char_of n"

definition space_seqs :: "string list" where
  "space_seqs =
     map (\<lambda>b. [byte b]) [9, 10, 11, 12, 13, 32]
     @ [[byte 194, byte 133], [byte 194, byte 160], [byte 225, byte 154, byte 128]]
     @ map (\<lambda>b. [byte 226, byte 128, byte b])
         [128, 129, 130, 131, 132, 133, 134, 135, 136, 137, 138, 168, 169, 175]
     @ [[byte 226, byte 129, byte 159], [byte 227, byte 128, byte 128]]"

fun strip_seq :: "string list \<Rightarrow> string \<Rightarrow> string option" where
  "strip_seq [] s = None"
| "strip_seq (p # ps) s =
     (if p \<noteq> [] \<and> strings_HasPrefix s p then Some (drop (length p) s) else strip_seq ps s)"

lemma strings_HasPrefix_iff [go_strings]: "strings_HasPrefix s p \<longleftrightarrow> (\<exists>t. s = p @ t)"
  by (metis append_eq_conv_conj append_take_drop_id strings_HasPrefix_def)

lemma strip_seq_shorter: "strip_seq ps s = Some t \<Longrightarrow> length t < length s"
  by (induction ps s rule: strip_seq.induct)
     (auto simp: strings_HasPrefix_iff neq_Nil_conv split: if_splits)

function trim_left :: "string list \<Rightarrow> string \<Rightarrow> string" where
  "trim_left ps s = (case strip_seq ps s of None \<Rightarrow> s | Some t \<Rightarrow> trim_left ps t)"
  by pat_completeness auto
termination
  by (relation "measure (\<lambda>(ps, s). length s)") (auto dest: strip_seq_shorter)

declare trim_left.simps [simp del]

definition strings_TrimSpace :: "string \<Rightarrow> string" where
  "strings_TrimSpace s =
     rev (trim_left (map rev space_seqs) (rev (trim_left space_seqs s)))"

subsection \<open>Facts about strings\<close>

lemma strings_HasPrefix_append [simp]: "strings_HasPrefix (p @ t) p"
  by (simp add: strings_HasPrefix_def)

lemma strings_HasPrefix_Nil [simp]: "strings_HasPrefix s []"
  by (simp add: strings_HasPrefix_def)

lemma strings_TrimPrefix_append [simp]: "strings_TrimPrefix (p @ t) p = t"
  by (simp add: strings_TrimPrefix_def)

lemma strings_Contains_iff [go_strings]:
  "strings_Contains s sub \<longleftrightarrow> (\<exists>a b. s = a @ sub @ b)"
proof (induction s)
  case Nil
  then show ?case by auto
next
  case (Cons c cs)
  have "(\<exists>a b. c # cs = a @ sub @ b) \<longleftrightarrow>
        strings_HasPrefix (c # cs) sub \<or> (\<exists>a b. cs = a @ sub @ b)"
    unfolding strings_HasPrefix_iff by (metis Cons_eq_append_conv append_Cons append_Nil)
  with Cons show ?case by simp
qed

lemma strings_Contains_char [go_strings]: "strings_Contains s [c] \<longleftrightarrow> c \<in> set s"
  by (auto simp: strings_Contains_iff in_set_conv_decomp)

lemma strings_Split_nonempty [simp]: "strings_Split s sep \<noteq> []"
  by (induction s) (auto split: list.splits)

text \<open>Splitting loses nothing: joining the parts again gives the string back.\<close>

lemma strings_Join_Split [go_strings]: "strings_Join (strings_Split s sep) [sep] = s"
proof (induction s)
  case Nil
  then show ?case by simp
next
  case (Cons c cs)
  obtain w ws where s: "strings_Split cs sep = w # ws"
    using strings_Split_nonempty [of cs sep] by (meson neq_Nil_conv)
  have "strings_Join ((d # w) # ws) [sep] = d # strings_Join (w # ws) [sep]" for d
    by (cases ws) auto
  with Cons s show ?case by auto
qed

lemma strings_Split_no_sep [go_strings]:
  "w \<in> set (strings_Split s sep) \<Longrightarrow> sep \<notin> set w"
  by (induction s arbitrary: w) (auto split: list.splits if_splits)

lemma strings_Split_Join [go_strings]:
  "ws \<noteq> [] \<Longrightarrow> (\<forall>w \<in> set ws. sep \<notin> set w) \<Longrightarrow> strings_Split (strings_Join ws [sep]) sep = ws"
proof (induction ws)
  case Nil
  then show ?case by simp
next
  case (Cons w ws)
  have single: "sep \<notin> set v \<Longrightarrow> strings_Split v sep = [v]" for v
    by (induction v) auto
  have app: "sep \<notin> set v \<Longrightarrow> strings_Split (v @ sep # t) sep = v # strings_Split t sep" for v t
    by (induction v) auto
  show ?case
  proof (cases ws)
    case Nil
    with Cons single show ?thesis by simp
  next
    case (Cons x xs)
    with Cons.IH Cons.prems app show ?thesis by simp
  qed
qed

lemma space_seqs_nonempty: "p \<in> set space_seqs \<Longrightarrow> p \<noteq> []"
  by (auto simp: space_seqs_def)

section \<open>State monad with early return\<close>

abbreviation (input) ret :: "'a \<Rightarrow> ('s, 'a) state" where
  "ret \<equiv> State_Monad.return"

text \<open>\<open>x, err := m(); if err != nil { return err }\<close>\<close>

definition bindE :: "('s, 'e + 'a) state \<Rightarrow> ('a \<Rightarrow> ('s, 'e + 'b) state) \<Rightarrow> ('s, 'e + 'b) state" where
  "bindE m f = do { r \<leftarrow> m; case r of Inl e \<Rightarrow> ret (Inl e) | Inr x \<Rightarrow> f x }"

text \<open>\<open>for _, x := range xs { body }\<close>, and the same with \<open>return err\<close> in the body.\<close>

fun for_each :: "'a list \<Rightarrow> ('a \<Rightarrow> ('s, unit) state) \<Rightarrow> ('s, unit) state" where
  "for_each [] body = ret ()"
| "for_each (x # xs) body = do { _ \<leftarrow> body x; for_each xs body }"

fun for_err :: "'a list \<Rightarrow> ('a \<Rightarrow> ('s, 'e + unit) state) \<Rightarrow> ('s, 'e + unit) state" where
  "for_err [] body = ret (Inr ())"
| "for_err (x # xs) body = bindE (body x) (\<lambda>_. for_err xs body)"

definition update_state :: "('s \<Rightarrow> 's) \<Rightarrow> ('s, unit) state" where
  "update_state f = State (\<lambda>s. ((), f s))"

definition gets :: "('s \<Rightarrow> 'a) \<Rightarrow> ('s, 'a) state" where
  "gets f = State (\<lambda>s. (f s, s))"

lemma run_bindE [simp]:
  "run_state (bindE m f) s =
     (case run_state m s of (Inl e, s') \<Rightarrow> (Inl e, s') | (Inr x, s') \<Rightarrow> run_state (f x) s')"
  by (simp add: bindE_def split: prod.splits sum.splits)

lemma run_update_state [simp]: "run_state (update_state f) s = ((), f s)"
  by (simp add: update_state_def)

lemma run_gets [simp]: "run_state (gets f) s = (f s, s)"
  by (simp add: gets_def)

section \<open>The results a program can have\<close>

text \<open>
  \<open>results m\<close> are the values \<open>m\<close> can return from some state. As a congruence rule for
  recursive definitions, \<open>bind_results_cong\<close> lets the termination proof of a loop use what is
  known of the results of the loop body.
\<close>

definition results :: "('s, 'a) state \<Rightarrow> 'a set" where
  "results m = range (\<lambda>s. fst (run_state m s))"

lemma results_run: "fst (run_state m s) \<in> results m"
  by (simp add: results_def)

lemma resultsI: "run_state m s = (x, s') \<Longrightarrow> x \<in> results m"
  by (metis fst_conv results_run)

lemma bind_results_cong [fundef_cong]:
  assumes "m = n" and "\<And>x. x \<in> results n \<Longrightarrow> f x = g x"
  shows "State_Monad.bind m f = State_Monad.bind n g"
proof (rule state.expand)
  show "run_state (State_Monad.bind m f) = run_state (State_Monad.bind n g)"
    using assms by (auto simp: fun_eq_iff resultsI split: prod.split)
qed

lemma results_ret [simp]: "results (ret x) = {x}"
  by (auto simp: results_def)

lemma results_bindD:
  assumes "y \<in> results (State_Monad.bind m f)"
  shows "\<exists>x \<in> results m. y \<in> results (f x)"
proof -
  from assms obtain s where y: "y = fst (run_state (State_Monad.bind m f) s)"
    by (auto simp: results_def)
  obtain x t where m: "run_state m s = (x, t)"
    by fastforce
  with y have "y = fst (run_state (f x) t)"
    by simp
  then show ?thesis
    using resultsI [OF m] results_run by metis
qed

lemma results_bindED:
  assumes "y \<in> results (bindE m f)"
  shows "(\<exists>e. Inl e \<in> results m \<and> y = Inl e) \<or> (\<exists>x. Inr x \<in> results m \<and> y \<in> results (f x))"
  using assms unfolding bindE_def by (auto dest!: results_bindD split: sum.splits)

section \<open>Programs that move the state along a preorder\<close>

text \<open>
  \<open>keeps R m\<close>: from every state, running \<open>m\<close> leads to a state related to it by \<open>R\<close>. For a
  reflexive and transitive \<open>R\<close> the judgement is closed under sequencing, branching and loops.
\<close>

definition keeps :: "('s \<Rightarrow> 's \<Rightarrow> bool) \<Rightarrow> ('s, 'a) state \<Rightarrow> bool" where
  "keeps R m \<longleftrightarrow> (\<forall>s. R s (snd (run_state m s)))"

lemma keepsD: "keeps R m \<Longrightarrow> run_state m s = (a, s') \<Longrightarrow> R s s'"
  by (metis keeps_def snd_conv)

lemma keeps_snd: "keeps R m \<Longrightarrow> R s (snd (run_state m s))"
  by (simp add: keeps_def)

lemma keeps_mono: "keeps R m \<Longrightarrow> (\<And>s t. R s t \<Longrightarrow> R' s t) \<Longrightarrow> keeps R' m"
  by (simp add: keeps_def)

locale step_preorder =
  fixes R :: "'s \<Rightarrow> 's \<Rightarrow> bool"
  assumes refl: "R s s"
    and trans: "R s t \<Longrightarrow> R t u \<Longrightarrow> R s u"
begin

lemma keeps_ret [keeps_intro]: "keeps R (ret x)"
  by (simp add: keeps_def refl)

lemma keeps_bind [keeps_intro]:
  "keeps R m \<Longrightarrow> (\<And>x. x \<in> results m \<Longrightarrow> keeps R (f x)) \<Longrightarrow> keeps R (State_Monad.bind m f)"
  unfolding keeps_def by (auto split: prod.splits) (metis resultsI snd_conv trans)

lemma keeps_gets [keeps_intro]: "keeps R (gets f)"
  by (simp add: keeps_def refl)

lemma keeps_bindE [keeps_intro]:
  "keeps R m \<Longrightarrow> (\<And>x. Inr x \<in> results m \<Longrightarrow> keeps R (f x)) \<Longrightarrow> keeps R (bindE m f)"
  unfolding bindE_def by (intro keeps_bind) (auto simp: keeps_ret split: sum.splits)

lemma keeps_for_each [keeps_intro]: "(\<And>x. x \<in> set xs \<Longrightarrow> keeps R (body x)) \<Longrightarrow> keeps R (for_each xs body)"
  by (induction xs) (auto intro!: keeps_ret keeps_bind)

lemma keeps_for_err [keeps_intro]: "(\<And>x. x \<in> set xs \<Longrightarrow> keeps R (body x)) \<Longrightarrow> keeps R (for_err xs body)"
  by (induction xs) (auto intro!: keeps_ret keeps_bindE)

end

text \<open>Branching needs no property of the relation.\<close>

lemma keeps_if [keeps_intro]:
  "(b \<Longrightarrow> keeps R m) \<Longrightarrow> (\<not> b \<Longrightarrow> keeps R n) \<Longrightarrow> keeps R (if b then m else n)"
  by simp

lemma keeps_case_sum [keeps_intro]:
  "(\<And>e. r = Inl e \<Longrightarrow> keeps R (f e)) \<Longrightarrow> (\<And>x. r = Inr x \<Longrightarrow> keeps R (g x))
     \<Longrightarrow> keeps R (case r of Inl e \<Rightarrow> f e | Inr x \<Rightarrow> g x)"
  by (simp split: sum.split)

lemma keeps_case_option [keeps_intro]:
  "(r = None \<Longrightarrow> keeps R n) \<Longrightarrow> (\<And>x. r = Some x \<Longrightarrow> keeps R (g x))
     \<Longrightarrow> keeps R (case r of None \<Rightarrow> n | Some x \<Rightarrow> g x)"
  by (simp split: option.split)

lemma keeps_case_prod [keeps_intro]:
  "(\<And>a b. p = (a, b) \<Longrightarrow> keeps R (f a b)) \<Longrightarrow> keeps R (case p of (a, b) \<Rightarrow> f a b)"
  by (simp split: prod.split)

lemma keeps_Let [keeps_intro]: "(\<And>x. x = t \<Longrightarrow> keeps R (f x)) \<Longrightarrow> keeps R (Let t f)"
  by simp

section \<open>Judgements on results\<close>

text \<open>\<open>yields Q m\<close>: every result of \<open>m\<close> satisfies \<open>Q\<close>, as a judgement with rules.\<close>

definition yields :: "('a \<Rightarrow> bool) \<Rightarrow> ('s, 'a) state \<Rightarrow> bool" where
  "yields Q m \<longleftrightarrow> (\<forall>x \<in> results m. Q x)"

named_theorems yields_intro \<open>composition rules for the judgement yields\<close>

lemma yieldsD: "yields Q m \<Longrightarrow> run_state m s = (x, s') \<Longrightarrow> Q x"
  by (auto simp: yields_def dest: resultsI)

lemma yields_fst: "yields Q m \<Longrightarrow> Q (fst (run_state m s))"
  by (simp add: yields_def results_run)

lemma yields_True [yields_intro]: "yields (\<lambda>_. True) m"
  by (simp add: yields_def)

lemma yields_mono: "yields P m \<Longrightarrow> (\<And>x. P x \<Longrightarrow> Q x) \<Longrightarrow> yields Q m"
  by (simp add: yields_def)

lemma yields_ret [yields_intro]: "Q x \<Longrightarrow> yields Q (ret x)"
  by (simp add: yields_def)

lemma yields_bind:
  "yields P m \<Longrightarrow> (\<And>x. P x \<Longrightarrow> yields Q (f x)) \<Longrightarrow> yields Q (State_Monad.bind m f)"
  unfolding yields_def by (blast dest: results_bindD)

lemma yields_bind' [yields_intro]:
  "(\<And>x. x \<in> results m \<Longrightarrow> yields Q (f x)) \<Longrightarrow> yields Q (State_Monad.bind m f)"
  unfolding yields_def by (blast dest: results_bindD)

lemma yields_bindE [yields_intro]:
  "yields (\<lambda>r. \<forall>e. r = Inl e \<longrightarrow> Q (Inl e)) m \<Longrightarrow> (\<And>x. Inr x \<in> results m \<Longrightarrow> yields Q (f x))
     \<Longrightarrow> yields Q (bindE m f)"
  unfolding yields_def by (blast dest: results_bindED)

lemma yields_if [yields_intro]:
  "(b \<Longrightarrow> yields Q m) \<Longrightarrow> (\<not> b \<Longrightarrow> yields Q n) \<Longrightarrow> yields Q (if b then m else n)"
  by simp

lemma yields_case_sum [yields_intro]:
  "(\<And>e. r = Inl e \<Longrightarrow> yields Q (f e)) \<Longrightarrow> (\<And>x. r = Inr x \<Longrightarrow> yields Q (g x))
     \<Longrightarrow> yields Q (case r of Inl e \<Rightarrow> f e | Inr x \<Rightarrow> g x)"
  by (simp split: sum.split)

lemma yields_case_option [yields_intro]:
  "(r = None \<Longrightarrow> yields Q n) \<Longrightarrow> (\<And>x. r = Some x \<Longrightarrow> yields Q (g x))
     \<Longrightarrow> yields Q (case r of None \<Rightarrow> n | Some x \<Rightarrow> g x)"
  by (simp split: option.split)

lemma yields_case_prod [yields_intro]:
  "(\<And>a b. p = (a, b) \<Longrightarrow> yields Q (f a b)) \<Longrightarrow> yields Q (case p of (a, b) \<Rightarrow> f a b)"
  by (simp split: prod.split)

lemma yields_Let [yields_intro]: "(\<And>x. x = t \<Longrightarrow> yields Q (f x)) \<Longrightarrow> yields Q (Let t f)"
  by simp

end
