(* ===== verification/Api_Types.thy ===== *)
theory Api_Types
  imports Prelude
begin

text \<open>
  The data of the program. First the API types of api/v1alpha1 (\<open>VolumeSpecBase\<close> and its
  parts, the status, the two volume kinds), then the fields of the Kubernetes objects the code
  reads or writes. A pointer field is an \<open>option\<close>. A Go map is an association list: the
  order of the list is the order in which \<open>range\<close> meets the entries, which Go leaves open,
  so a theorem over all lists covers every order; a nil map and an empty map read the same.
  \<open>SharedVolume\<close> and \<open>ClusterSharedVolume\<close> have the same fields and differ in their Go
  type only, which the code tests with type assertions: the field \<open>vo_type\<close>.
\<close>

section \<open>Volume specification\<close>

record NfsServerSpec =
  nfs_Name :: string
  nfs_Namespace :: string
  nfs_URL :: string
  nfs_Image :: string
  nfs_Path :: string

record StorageSpec =
  st_Capacity :: string
  st_AccessMode :: string

record SecretKeySelector =
  sel_Name :: string
  sel_Namespace :: string
  sel_Key :: string

record SSHSourceSpec =
  ssh_Host :: string
  ssh_Port :: int
  ssh_User :: string
  ssh_Password :: string
  ssh_PrivateKey :: string
  ssh_Path :: string
  ssh_PrivateKeyFromSecret :: "SecretKeySelector option"
  ssh_PasswordFromSecret :: "SecretKeySelector option"

record HTTPSourceSpec =
  http_URL :: string

record GitSourceSpec =
  git_URL :: string
  git_User :: string
  git_Password :: string
  git_PrivateKey :: string
  git_Branch :: string
  git_PrivateKeyFromSecret :: "SecretKeySelector option"
  git_PasswordFromSecret :: "SecretKeySelector option"

record S3SourceSpec =
  s3_EndpointURL :: string
  s3_BucketName :: string
  s3_Path :: string
  s3_AccessKey :: string
  s3_SecretKey :: string
  s3_Region :: string
  s3_AccessKeyFromSecret :: "SecretKeySelector option"
  s3_SecretKeyFromSecret :: "SecretKeySelector option"

record VolumeSourceSpec =
  src_SSH :: "SSHSourceSpec option"
  src_HTTP :: "HTTPSourceSpec option"
  src_Git :: "GitSourceSpec option"
  src_S3 :: "S3SourceSpec option"

record VolumeSpecBase =
  NfsServer :: "NfsServerSpec option"
  MountPath :: string
  SyncInterval :: string
  SyncTimeout :: string
  Storage :: "StorageSpec option"
  Source :: "VolumeSourceSpec option"
  StorageClassName :: string
  ResourceNamespace :: string
  ReferenceValue :: string

record VolumeStatus =
  Phase :: string
  Message :: string
  NfsServerAddress :: string
  PersistentVolumeClaimName :: string
  PersistentVolumeName :: string
  ServiceName :: string

section \<open>Object metadata\<close>

type_synonym labels = "(string \<times> string) list"

record OwnerReference =
  or_APIVersion :: string
  or_Kind :: string
  or_Name :: string
  or_UID :: string
  or_Controller :: "bool option"

record ObjectMeta =
  om_Name :: string
  om_Namespace :: string
  om_UID :: string
  om_ResourceVersion :: string
  om_Labels :: labels
  om_Annotations :: labels
  om_Finalizers :: "string list"
  om_DeletionTimestamp :: "int option"
  om_OwnerReferences :: "OwnerReference list"

definition empty_meta :: ObjectMeta where
  "empty_meta = \<lparr>om_Name = [], om_Namespace = [], om_UID = [], om_ResourceVersion = [],
     om_Labels = [], om_Annotations = [], om_Finalizers = [], om_DeletionTimestamp = None,
     om_OwnerReferences = []\<rparr>"

section \<open>Volumes\<close>

datatype volume_type = SharedVolume | ClusterSharedVolume

record VolumeObject =
  vo_type :: volume_type
  vo_APIVersion :: string
  vo_Kind :: string
  vo_Meta :: ObjectMeta
  vo_Spec :: VolumeSpecBase
  vo_Status :: VolumeStatus

text \<open>The methods of the interface \<open>VolumeObject\<close> of the controllers.\<close>

definition GetVolumeSpec :: "VolumeObject \<Rightarrow> VolumeSpecBase" where
  "GetVolumeSpec v = vo_Spec v"

definition GetPhase :: "VolumeObject \<Rightarrow> string" where
  "GetPhase v = Phase (vo_Status v)"

definition SetPhase :: "string \<Rightarrow> VolumeObject \<Rightarrow> VolumeObject" where
  "SetPhase p v = v\<lparr>vo_Status := (vo_Status v)\<lparr>Phase := p\<rparr>\<rparr>"

definition GetMessage :: "VolumeObject \<Rightarrow> string" where
  "GetMessage v = Message (vo_Status v)"

definition SetMessage :: "string \<Rightarrow> VolumeObject \<Rightarrow> VolumeObject" where
  "SetMessage m v = v\<lparr>vo_Status := (vo_Status v)\<lparr>Message := m\<rparr>\<rparr>"

definition GetNfsServerAddress :: "VolumeObject \<Rightarrow> string" where
  "GetNfsServerAddress v = NfsServerAddress (vo_Status v)"

definition SetNfsServerAddress :: "string \<Rightarrow> VolumeObject \<Rightarrow> VolumeObject" where
  "SetNfsServerAddress a v = v\<lparr>vo_Status := (vo_Status v)\<lparr>NfsServerAddress := a\<rparr>\<rparr>"

definition GetPersistentVolumeClaimName :: "VolumeObject \<Rightarrow> string" where
  "GetPersistentVolumeClaimName v = PersistentVolumeClaimName (vo_Status v)"

definition SetPersistentVolumeClaimName :: "string \<Rightarrow> VolumeObject \<Rightarrow> VolumeObject" where
  "SetPersistentVolumeClaimName n v = v\<lparr>vo_Status := (vo_Status v)\<lparr>PersistentVolumeClaimName := n\<rparr>\<rparr>"

definition GetPersistentVolumeName :: "VolumeObject \<Rightarrow> string" where
  "GetPersistentVolumeName v = PersistentVolumeName (vo_Status v)"

definition SetPersistentVolumeName :: "string \<Rightarrow> VolumeObject \<Rightarrow> VolumeObject" where
  "SetPersistentVolumeName n v = v\<lparr>vo_Status := (vo_Status v)\<lparr>PersistentVolumeName := n\<rparr>\<rparr>"

definition GetServiceName :: "VolumeObject \<Rightarrow> string" where
  "GetServiceName v = ServiceName (vo_Status v)"

definition SetServiceName :: "string \<Rightarrow> VolumeObject \<Rightarrow> VolumeObject" where
  "SetServiceName n v = v\<lparr>vo_Status := (vo_Status v)\<lparr>ServiceName := n\<rparr>\<rparr>"

abbreviation GetName :: "VolumeObject \<Rightarrow> string" where
  "GetName v \<equiv> om_Name (vo_Meta v)"

abbreviation GetNamespace :: "VolumeObject \<Rightarrow> string" where
  "GetNamespace v \<equiv> om_Namespace (vo_Meta v)"

abbreviation set_spec :: "VolumeSpecBase \<Rightarrow> VolumeObject \<Rightarrow> VolumeObject" where
  "set_spec s v \<equiv> v\<lparr>vo_Spec := s\<rparr>"

lemmas volume_accessors =
  GetVolumeSpec_def GetPhase_def SetPhase_def GetMessage_def SetMessage_def
  GetNfsServerAddress_def SetNfsServerAddress_def GetPersistentVolumeClaimName_def
  SetPersistentVolumeClaimName_def GetPersistentVolumeName_def SetPersistentVolumeName_def
  GetServiceName_def SetServiceName_def

section \<open>Kubernetes objects\<close>

text \<open>
  \<open>resource.Quantity\<close> is a type of apimachinery; the code only passes values of it on, so it
  stays opaque: a value is named by a string.
\<close>

datatype quantity = Quantity string

record CSISource =
  csi_Driver :: string
  csi_VolumeHandle :: string
  csi_VolumeAttributes :: labels

record PersistentVolume =
  pv_Meta :: ObjectMeta
  pv_Capacity :: quantity
  pv_AccessModes :: "string list"
  pv_ReclaimPolicy :: string
  pv_MountOptions :: "string list"
  pv_StorageClassName :: string
  pv_CSI :: "CSISource option"

record PersistentVolumeClaim =
  pvc_Meta :: ObjectMeta
  pvc_AccessModes :: "string list"
  pvc_Request :: quantity
  pvc_VolumeName :: string
  pvc_StorageClassName :: "string option"
  pvc_Phase :: string

record VolumeMount =
  vm_MountPath :: string
  vm_Name :: string
  vm_ReadOnly :: bool

record ContainerPort =
  cp_ContainerPort :: int
  cp_Protocol :: string

record Container =
  ct_Name :: string
  ct_Image :: string
  ct_Command :: "string list"
  ct_Ports :: "ContainerPort list"
  ct_VolumeMounts :: "VolumeMount list"

record PodVolume =
  pvol_Name :: string
  pvol_ClaimName :: "string option"

record PodSpec =
  ps_InitContainers :: "Container list"
  ps_Containers :: "Container list"
  ps_Volumes :: "PodVolume list"

record Pod =
  pod_Meta :: ObjectMeta
  pod_Spec :: PodSpec

record ReplicaSet =
  rs_Meta :: ObjectMeta
  rs_Replicas :: "int option"
  rs_Selector :: labels
  rs_TemplateLabels :: labels
  rs_TemplateSpec :: PodSpec
  rs_ReadyReplicas :: int

record ServicePort =
  sp_Port :: int
  sp_TargetPort :: int
  sp_Protocol :: string

record Service =
  svc_Meta :: ObjectMeta
  svc_Selector :: labels
  svc_Ports :: "ServicePort list"
  svc_Type :: string

record NfsServerObj =
  ns_Meta :: ObjectMeta
  ns_Capacity :: string
  ns_StorageClassName :: string
  ns_Image :: string
  ns_Ready :: bool

record Secret =
  sec_Meta :: ObjectMeta
  sec_Data :: labels

datatype kind =
  KVolume volume_type | KPod | KPersistentVolume | KPersistentVolumeClaim | KReplicaSet
| KService | KNfsServer | KNamespace | KSecret

datatype kobj =
  OVolume VolumeObject
| OPod Pod
| OPersistentVolume PersistentVolume
| OPersistentVolumeClaim PersistentVolumeClaim
| OReplicaSet ReplicaSet
| OService Service
| ONfsServer NfsServerObj
| ONamespace ObjectMeta
| OSecret Secret

text \<open>What \<open>client.Object\<close> gives of every object: its kind and its metadata.\<close>

fun kind_of :: "kobj \<Rightarrow> kind" where
  "kind_of (OVolume v) = KVolume (vo_type v)"
| "kind_of (OPod p) = KPod"
| "kind_of (OPersistentVolume p) = KPersistentVolume"
| "kind_of (OPersistentVolumeClaim p) = KPersistentVolumeClaim"
| "kind_of (OReplicaSet r) = KReplicaSet"
| "kind_of (OService s) = KService"
| "kind_of (ONfsServer n) = KNfsServer"
| "kind_of (ONamespace n) = KNamespace"
| "kind_of (OSecret s) = KSecret"

fun meta_of :: "kobj \<Rightarrow> ObjectMeta" where
  "meta_of (OVolume v) = vo_Meta v"
| "meta_of (OPod p) = pod_Meta p"
| "meta_of (OPersistentVolume p) = pv_Meta p"
| "meta_of (OPersistentVolumeClaim p) = pvc_Meta p"
| "meta_of (OReplicaSet r) = rs_Meta r"
| "meta_of (OService s) = svc_Meta s"
| "meta_of (ONfsServer n) = ns_Meta n"
| "meta_of (ONamespace n) = n"
| "meta_of (OSecret s) = sec_Meta s"

fun map_meta :: "(ObjectMeta \<Rightarrow> ObjectMeta) \<Rightarrow> kobj \<Rightarrow> kobj" where
  "map_meta f (OVolume v) = OVolume (v\<lparr>vo_Meta := f (vo_Meta v)\<rparr>)"
| "map_meta f (OPod p) = OPod (p\<lparr>pod_Meta := f (pod_Meta p)\<rparr>)"
| "map_meta f (OPersistentVolume p) = OPersistentVolume (p\<lparr>pv_Meta := f (pv_Meta p)\<rparr>)"
| "map_meta f (OPersistentVolumeClaim p) = OPersistentVolumeClaim (p\<lparr>pvc_Meta := f (pvc_Meta p)\<rparr>)"
| "map_meta f (OReplicaSet r) = OReplicaSet (r\<lparr>rs_Meta := f (rs_Meta r)\<rparr>)"
| "map_meta f (OService s) = OService (s\<lparr>svc_Meta := f (svc_Meta s)\<rparr>)"
| "map_meta f (ONfsServer n) = ONfsServer (n\<lparr>ns_Meta := f (ns_Meta n)\<rparr>)"
| "map_meta f (ONamespace n) = ONamespace (f n)"
| "map_meta f (OSecret s) = OSecret (s\<lparr>sec_Meta := f (sec_Meta s)\<rparr>)"

lemma meta_of_map_meta [simp]: "meta_of (map_meta f obj) = f (meta_of obj)"
  by (cases obj) simp_all

lemma kind_of_map_meta [simp]: "kind_of (map_meta f obj) = kind_of obj"
  by (cases obj) simp_all

text \<open>Decoding into a variable of a Go type.\<close>

fun the_volume :: "volume_type \<Rightarrow> kobj \<Rightarrow> VolumeObject option" where
  "the_volume t (OVolume v) = (if vo_type v = t then Some v else None)"
| "the_volume t _ = None"

fun the_pod :: "kobj \<Rightarrow> Pod option" where
  "the_pod (OPod p) = Some p"
| "the_pod _ = None"

fun the_pv :: "kobj \<Rightarrow> PersistentVolume option" where
  "the_pv (OPersistentVolume p) = Some p"
| "the_pv _ = None"

fun the_pvc :: "kobj \<Rightarrow> PersistentVolumeClaim option" where
  "the_pvc (OPersistentVolumeClaim p) = Some p"
| "the_pvc _ = None"

fun the_rs :: "kobj \<Rightarrow> ReplicaSet option" where
  "the_rs (OReplicaSet r) = Some r"
| "the_rs _ = None"

fun the_svc :: "kobj \<Rightarrow> Service option" where
  "the_svc (OService s) = Some s"
| "the_svc _ = None"

fun the_nfs :: "kobj \<Rightarrow> NfsServerObj option" where
  "the_nfs (ONfsServer n) = Some n"
| "the_nfs _ = None"

fun the_ns :: "kobj \<Rightarrow> ObjectMeta option" where
  "the_ns (ONamespace n) = Some n"
| "the_ns _ = None"

fun the_secret :: "kobj \<Rightarrow> Secret option" where
  "the_secret (OSecret s) = Some s"
| "the_secret _ = None"

definition the_kind :: "kind \<Rightarrow> kobj \<Rightarrow> kobj option" where
  "the_kind k obj = (if kind_of obj = k then Some obj else None)"

lemma the_volume_Some: "the_volume t obj = Some v \<longleftrightarrow> obj = OVolume v \<and> vo_type v = t"
  by (cases obj) auto

lemma decoded:
  "the_pod obj = Some p \<longleftrightarrow> obj = OPod p" "the_pv obj = Some pv \<longleftrightarrow> obj = OPersistentVolume pv"
  "the_pvc obj = Some pvc \<longleftrightarrow> obj = OPersistentVolumeClaim pvc" "the_rs obj = Some rs \<longleftrightarrow> obj = OReplicaSet rs"
  "the_svc obj = Some svc \<longleftrightarrow> obj = OService svc" "the_nfs obj = Some nfs \<longleftrightarrow> obj = ONfsServer nfs"
  "the_ns obj = Some ns \<longleftrightarrow> obj = ONamespace ns" "the_secret obj = Some sec \<longleftrightarrow> obj = OSecret sec"
  by (cases obj; auto)+

section \<open>Errors\<close>

text \<open>
  The errors of the API client, told apart by \<open>apierrors.IsNotFound\<close> and
  \<open>apierrors.IsConflict\<close>; errors made by \<open>errors.New\<close> and \<open>fmt.Errorf\<close>, which may wrap
  another one (\<open>%w\<close>). Two more values stand for runs that do not return: a panic (a nil
  dereference, \<open>resource.MustParse\<close>) and a loop that is still running when the fuel of the
  model is used up. They travel through the callers as an error return does, and no caller
  wraps, logs or ignores them.
\<close>

datatype error =
  NotFound string
| Conflict string
| OtherApiError string
| Errorf string
| Wrapf string error
| Panic string
| Diverges

fun IsNotFound :: "error \<Rightarrow> bool" where
  "IsNotFound (NotFound _) = True"
| "IsNotFound (Wrapf _ e) = IsNotFound e"
| "IsNotFound _ = False"

fun IsConflict :: "error \<Rightarrow> bool" where
  "IsConflict (Conflict _) = True"
| "IsConflict (Wrapf _ e) = IsConflict e"
| "IsConflict _ = False"

fun is_Panic :: "error \<Rightarrow> bool" where
  "is_Panic (Panic _) = True"
| "is_Panic _ = False"

definition is_abort :: "error \<Rightarrow> bool" where
  "is_abort e \<longleftrightarrow> is_Panic e \<or> e = Diverges"

text \<open>\<open>fmt.Errorf("m: %w", err)\<close>.\<close>

definition Errorf_w :: "string \<Rightarrow> error \<Rightarrow> error" where
  "Errorf_w m e = (if is_abort e then e else Wrapf m e)"

fun error_text :: "error \<Rightarrow> string" where
  "error_text (NotFound m) = m"
| "error_text (Conflict m) = m"
| "error_text (OtherApiError m) = m"
| "error_text (Errorf m) = m"
| "error_text (Wrapf m e) = m @ '': '' @ error_text e"
| "error_text (Panic m) = m"
| "error_text Diverges = []"

text \<open>\<open>client.IgnoreNotFound\<close> on an error: none if it is a not-found error.\<close>

definition IgnoreNotFound :: "error \<Rightarrow> error option" where
  "IgnoreNotFound e = (if IsNotFound e then None else Some e)"

lemma IsNotFound_not_Conflict [simp]: "IsNotFound e \<Longrightarrow> \<not> IsConflict e"
  by (induction e) auto

lemma is_Panic_Errorf_w [simp]: "is_Panic (Errorf_w m e) = is_Panic e"
  by (simp add: Errorf_w_def is_abort_def)

lemma is_abort_simps [simp]:
  "is_abort (Panic m)" "is_abort Diverges" "\<not> is_abort (NotFound m)" "\<not> is_abort (Conflict m)"
  "\<not> is_abort (OtherApiError m)" "\<not> is_abort (Errorf m)" "\<not> is_abort (Wrapf m e)"
  "is_abort (Errorf_w m e) = is_abort e"
  by (simp_all add: is_abort_def Errorf_w_def)

end
