(* ===== verification/Go_Time.thy ===== *)
theory Go_Time
  imports Api_Types
begin

text \<open>
  \<open>time.ParseDuration\<close> of the Go standard library, which the validation webhook and the sync
  controller apply to \<open>syncInterval\<close> and \<open>syncTimeout\<close>. The accumulators are \<open>uint64\<close>
  (\<open>64 word\<close>) with the overflow tests of the library written out. The fraction of a number
  is scaled in \<open>float64\<close> there; here each of the four floating-point roundings is done
  exactly, on fractions of integers rounded half-to-even to 53 bits.
\<close>

type_synonym u64 = "64 word"

definition two63 :: u64 where
  "two63 = 9223372036854775808"

definition is_digit :: "char \<Rightarrow> bool" where
  "is_digit c \<longleftrightarrow> 48 \<le> (of_char c :: nat) \<and> (of_char c :: nat) \<le> 57"

definition digit_value :: "char \<Rightarrow> nat" where
  "digit_value c = of_char c - 48"

fun leadingInt :: "u64 \<Rightarrow> string \<Rightarrow> (u64 \<times> string) option" where
  "leadingInt x [] = Some (x, [])"
| "leadingInt x (c # cs) =
     (if is_digit c then
        if x > two63 div 10 then None
        else (let x' = x * 10 + of_nat (digit_value c)
              in if x' > two63 then None else leadingInt x' cs)
      else Some (x, c # cs))"

text \<open>\<open>leadingFraction\<close>: the digits read, the number of digits that count, the rest.\<close>

fun leadingFraction :: "u64 \<Rightarrow> nat \<Rightarrow> bool \<Rightarrow> string \<Rightarrow> u64 \<times> nat \<times> string" where
  "leadingFraction x k overflow [] = (x, k, [])"
| "leadingFraction x k overflow (c # cs) =
     (if is_digit c then
        if overflow then leadingFraction x k True cs
        else if x > (two63 - 1) div 10 then leadingFraction x k True cs
        else (let y = x * 10 + of_nat (digit_value c)
              in if y > two63 then leadingFraction x k True cs
                 else leadingFraction y (Suc k) False cs)
      else (x, k, c # cs))"

fun floor_log2 :: "int \<Rightarrow> nat" where
  "floor_log2 n = (if n < 2 then 0 else Suc (floor_log2 (n div 2)))"

declare floor_log2.simps [simp del]

definition div_half_even :: "int \<Rightarrow> int \<Rightarrow> int" where
  "div_half_even p q =
     (let d = p div q; r = p mod q
      in if 2 * r < q \<or> (2 * r = q \<and> even d) then d else d + 1)"

text \<open>The double next to the positive \<open>p / q\<close>, as a fraction over \<open>2 ^ 200\<close>.\<close>

definition float64 :: "int \<times> int \<Rightarrow> int \<times> int" where
  "float64 pq =
     (let (p, q) = pq;
          p' = p * 2 ^ 200;
          e = floor_log2 (p' div q) - 52
      in (div_half_even p' (q * 2 ^ e) * 2 ^ e, 2 ^ 200))"

definition frac_mult :: "int \<times> int \<Rightarrow> int \<times> int \<Rightarrow> int \<times> int" where
  "frac_mult a b = (fst a * fst b, snd a * snd b)"

text \<open>\<open>uint64(float64(f) * (float64(unit) / scale))\<close>\<close>

definition fraction_ns :: "u64 \<Rightarrow> u64 \<Rightarrow> nat \<Rightarrow> u64" where
  "fraction_ns f unit k =
     (let v = float64 (frac_mult (float64 (uint f, 1)) (float64 (uint unit, 10 ^ k)))
      in of_int (fst v div snd v))"

definition unitMap :: "string \<Rightarrow> u64 option" where
  "unitMap u =
     (if u = ''ns'' then Some 1
      else if u = ''us'' \<or> u = [byte 194, byte 181, CHR ''s''] \<or> u = [byte 206, byte 188, CHR ''s'']
        then Some 1000
      else if u = ''ms'' then Some 1000000
      else if u = ''s'' then Some 1000000000
      else if u = ''m'' then Some 60000000000
      else if u = ''h'' then Some 3600000000000
      else None)"

definition is_unit_char :: "char \<Rightarrow> bool" where
  "is_unit_char c \<longleftrightarrow> c \<noteq> CHR ''.'' \<and> \<not> is_digit c"

definition invalid_duration :: error where
  "invalid_duration = Errorf ''time: invalid duration''"

text \<open>The fraction after a period: value, digits that count, rest, and whether it had digits.\<close>

definition scan_fraction :: "string \<Rightarrow> u64 \<times> nat \<times> string \<times> bool" where
  "scan_fraction s =
     (if s \<noteq> [] \<and> hd s = CHR ''.'' then
        (let (f, k, t) = leadingFraction 0 0 False (tl s) in (f, k, t, length t \<noteq> length (tl s)))
      else (0, 0, s, False))"

definition parse_unit :: "u64 \<Rightarrow> u64 \<Rightarrow> nat \<Rightarrow> string \<Rightarrow> error + u64 \<times> string" where
  "parse_unit v f k s =
     (let u = takeWhile is_unit_char s; t = dropWhile is_unit_char s
      in if u = [] then Inl (Errorf ''time: missing unit in duration'')
         else case unitMap u of
           None \<Rightarrow> Inl (Errorf ''time: unknown unit in duration'')
         | Some unit \<Rightarrow>
             if v > two63 div unit then Inl invalid_duration
             else if f > 0 then
               (let v' = v * unit + fraction_ns f unit k
                in if v' > two63 then Inl invalid_duration else Inr (v', t))
             else Inr (v * unit, t))"

text \<open>One round of the loop over a nonempty rest: the value of one number with its unit.\<close>

definition parse_component :: "string \<Rightarrow> error + u64 \<times> string" where
  "parse_component s =
     (if s = [] \<or> \<not> (hd s = CHR ''.'' \<or> is_digit (hd s)) then Inl invalid_duration
      else case leadingInt 0 s of
        None \<Rightarrow> Inl invalid_duration
      | Some (v, s1) \<Rightarrow>
         (case scan_fraction s1 of (f, k, s2, post) \<Rightarrow>
            if length s1 = length s \<and> \<not> post then Inl invalid_duration
            else parse_unit v f k s2))"

lemma leadingInt_le: "leadingInt x s = Some (v, t) \<Longrightarrow> length t \<le> length s"
  by (induction x s rule: leadingInt.induct) (auto simp: Let_def split: if_splits)

lemma leadingFraction_le: "leadingFraction x k b s = (v, j, t) \<Longrightarrow> length t \<le> length s"
  by (induction x k b s rule: leadingFraction.induct) (auto simp: Let_def split: if_splits)

lemma scan_fraction_le: "scan_fraction s = (f, k, t, post) \<Longrightarrow> length t \<le> length s"
  by (cases s) (auto simp: scan_fraction_def split: if_splits prod.splits dest!: leadingFraction_le)

lemma dropWhile_shorter: "takeWhile P s \<noteq> [] \<Longrightarrow> length (dropWhile P s) < length s"
  by (metis length_append length_greater_0_conv less_add_same_cancel2 takeWhile_dropWhile_id)

lemma parse_unit_shorter: "parse_unit v f k s = Inr (w, t) \<Longrightarrow> length t < length s"
  unfolding parse_unit_def Let_def by (auto intro!: dropWhile_shorter split: if_splits option.splits)

lemma parse_component_shorter: "parse_component s = Inr (v, t) \<Longrightarrow> length t < length s"
  unfolding parse_component_def
  by (auto split: if_splits option.splits prod.splits
      dest!: leadingInt_le scan_fraction_le parse_unit_shorter)

function parse_loop :: "u64 \<Rightarrow> string \<Rightarrow> error + u64" where
  "parse_loop d s =
     (if s = [] then Inr d
      else case parse_component s of
        Inl e \<Rightarrow> Inl e
      | Inr (v, t) \<Rightarrow>
          (let d' = d + v in if d' > two63 then Inl invalid_duration else parse_loop d' t))"
  by pat_completeness auto
termination
  by (relation "measure (\<lambda>(d, s). length s)") (auto dest: parse_component_shorter)

declare parse_loop.simps [simp del]

text \<open>The result in nanoseconds, the value of an \<open>int64\<close>.\<close>

definition ParseDuration :: "string \<Rightarrow> error + int" where
  "ParseDuration orig =
     (let signed = (orig \<noteq> [] \<and> (hd orig = CHR ''-'' \<or> hd orig = CHR ''+''));
          neg = (orig \<noteq> [] \<and> hd orig = CHR ''-'');
          s = (if signed then tl orig else orig)
      in if s = ''0'' then Inr 0
         else if s = [] then Inl invalid_duration
         else case parse_loop 0 s of
           Inl e \<Rightarrow> Inl e
         | Inr d \<Rightarrow>
             if neg then Inr (sint (- d))
             else if d > two63 - 1 then Inl invalid_duration
             else Inr (sint d))"

lemma ParseDuration_60s: "ParseDuration ''60s'' = Inr 60000000000"
  by code_simp

lemma ParseDuration_120s: "ParseDuration ''120s'' = Inr 120000000000"
  by code_simp

lemma parse_component_not_abort: "parse_component s = Inl e \<Longrightarrow> \<not> is_abort e"
  by (auto simp: parse_component_def parse_unit_def invalid_duration_def Let_def
      split: if_splits option.splits prod.splits)

lemma parse_loop_not_abort: "parse_loop d s = Inl e \<Longrightarrow> \<not> is_abort e"
proof (induction d s rule: parse_loop.induct)
  case (1 d s)
  show ?case
    using "1.prems" parse_component_not_abort [of s e] "1.IH"
    by (subst (asm) parse_loop.simps)
       (fastforce simp: Let_def invalid_duration_def split: if_splits sum.splits prod.splits)
qed

lemma ParseDuration_not_abort: "ParseDuration s = Inl e \<Longrightarrow> \<not> is_abort e"
  by (auto simp: ParseDuration_def Let_def invalid_duration_def dest: parse_loop_not_abort
      split: if_splits sum.splits)

lemma ParseDuration_not_panic: "ParseDuration s = Inl e \<Longrightarrow> \<not> is_Panic e"
  using ParseDuration_not_abort by (auto simp: is_abort_def)

end
