(* ===== verification/Validation.thy ===== *)
theory Validation
  imports Go_Time
begin

text \<open>
  The admission rules for the two volume kinds: internal/webhook/validation/common.go and the
  validators of internal/webhook/v1alpha1. A \<open>field.Error\<close> keeps its type, its path and its
  detail; the rejected value it also quotes is left out. A nil error is \<open>None\<close>.
\<close>

section \<open>Field errors\<close>

datatype field_error =
  Required string string
| Invalid string string
| Forbidden string string

definition Child :: "string \<Rightarrow> string \<Rightarrow> string" where
  "Child p name = p @ ''.'' @ name"

definition ErrFieldImmutable :: string where
  "ErrFieldImmutable = ''field is immutable''"

section \<open>Secrets and credentials\<close>

definition validateSecretKeySelector :: "SecretKeySelector \<Rightarrow> string \<Rightarrow> bool \<Rightarrow> field_error list" where
  "validateSecretKeySelector selector fldPath isClusterScoped =
     (if sel_Name selector = [] then [Required (Child fldPath ''name'') ''name is required''] else [])
     @ (if sel_Key selector = [] then [Required (Child fldPath ''key'') ''key is required''] else [])
     @ (if isClusterScoped \<and> sel_Namespace selector = []
        then [Required (Child fldPath ''namespace'')
                ''namespace is required for cluster-scoped resources''] else [])
     @ (if \<not> isClusterScoped \<and> sel_Namespace selector \<noteq> []
        then [Forbidden (Child fldPath ''namespace'')
                (''namespace should not be specified for namespace-scoped resources, ''
                 @ ''the resource's namespace will be used'')] else [])"

text \<open>Errors of an optional selector, and the number of origins given for one credential.\<close>

definition selectorErrors :: "SecretKeySelector option \<Rightarrow> string \<Rightarrow> bool \<Rightarrow> field_error list" where
  "selectorErrors from fldPath isClusterScoped =
     (case from of None \<Rightarrow> [] | Some s \<Rightarrow> validateSecretKeySelector s fldPath isClusterScoped)"

definition originCount :: "string \<Rightarrow> SecretKeySelector option \<Rightarrow> nat" where
  "originCount direct from = (if direct \<noteq> [] then 1 else 0) + (if from \<noteq> None then 1 else 0)"

section \<open>SSH\<close>

definition validatePrivateKeyReferences :: "SSHSourceSpec \<Rightarrow> string \<Rightarrow> bool \<Rightarrow> field_error list" where
  "validatePrivateKeyReferences ssh fldPath isClusterScoped =
     selectorErrors (ssh_PrivateKeyFromSecret ssh) (Child fldPath ''privateKeyFromSecret'') isClusterScoped
     @ (if originCount (ssh_PrivateKey ssh) (ssh_PrivateKeyFromSecret ssh) > 1
        then [Invalid fldPath ''only one of privateKey or privateKeyFromSecret should be specified'']
        else [])"

definition validatePasswordReferences :: "SSHSourceSpec \<Rightarrow> string \<Rightarrow> bool \<Rightarrow> field_error list" where
  "validatePasswordReferences ssh fldPath isClusterScoped =
     selectorErrors (ssh_PasswordFromSecret ssh) (Child fldPath ''passwordFromSecret'') isClusterScoped
     @ (if originCount (ssh_Password ssh) (ssh_PasswordFromSecret ssh) > 1
        then [Invalid fldPath ''only one of password or passwordFromSecret should be specified'']
        else [])"

definition validateSSHAuthenticationMethod :: "SSHSourceSpec \<Rightarrow> string \<Rightarrow> field_error list" where
  "validateSSHAuthenticationMethod ssh fldPath =
     (let hasPrivateKeyAuth = (ssh_PrivateKey ssh \<noteq> [] \<or> ssh_PrivateKeyFromSecret ssh \<noteq> None);
          hasPasswordAuth = (ssh_Password ssh \<noteq> [] \<or> ssh_PasswordFromSecret ssh \<noteq> None)
      in (if hasPrivateKeyAuth \<and> hasPasswordAuth
          then [Invalid fldPath
                  (''cannot specify both privateKey/privateKeyFromSecret and ''
                   @ ''password/passwordFromSecret authentication methods, choose one'')] else [])
         @ (if \<not> hasPrivateKeyAuth \<and> \<not> hasPasswordAuth
            then [Invalid fldPath
                    (''either privateKey/privateKeyFromSecret or password/passwordFromSecret ''
                     @ ''must be specified for SSH authentication'')] else []))"

definition validateSecretReferences :: "SSHSourceSpec \<Rightarrow> string \<Rightarrow> bool \<Rightarrow> field_error list" where
  "validateSecretReferences ssh fldPath isClusterScoped =
     validatePrivateKeyReferences ssh fldPath isClusterScoped
     @ validatePasswordReferences ssh fldPath isClusterScoped
     @ validateSSHAuthenticationMethod ssh fldPath"

definition validateSSHSource :: "SSHSourceSpec \<Rightarrow> string \<Rightarrow> bool \<Rightarrow> field_error list" where
  "validateSSHSource ssh fldPath isClusterScoped =
     (if ssh_Host ssh = [] then [Required (Child fldPath ''host'') ''host is required for SSH source''] else [])
     @ (if ssh_Path ssh = [] then [Required (Child fldPath ''path'') ''path is required for SSH source''] else [])
     @ validateSecretReferences ssh fldPath isClusterScoped"

section \<open>HTTP and Git\<close>

definition validateHTTPSource :: "HTTPSourceSpec \<Rightarrow> string \<Rightarrow> field_error list" where
  "validateHTTPSource http fldPath =
     (if http_URL http = [] then [Required (Child fldPath ''url'') ''url is required for HTTP source''] else [])"

definition validateGitAuthenticationMethod :: "GitSourceSpec \<Rightarrow> string \<Rightarrow> field_error list" where
  "validateGitAuthenticationMethod git fldPath =
     (let hasPrivateKeyAuth = (git_PrivateKey git \<noteq> [] \<or> git_PrivateKeyFromSecret git \<noteq> None);
          hasPasswordAuth = (git_Password git \<noteq> [] \<or> git_PasswordFromSecret git \<noteq> None)
      in if hasPrivateKeyAuth \<and> hasPasswordAuth
         then [Invalid fldPath
                 (''cannot specify both privateKey/privateKeyFromSecret and ''
                  @ ''password/passwordFromSecret authentication methods, choose one'')] else [])"

definition validateGitPrivateKeyReferences :: "GitSourceSpec \<Rightarrow> string \<Rightarrow> bool \<Rightarrow> field_error list" where
  "validateGitPrivateKeyReferences git fldPath isClusterScoped =
     selectorErrors (git_PrivateKeyFromSecret git) (Child fldPath ''privateKeyFromSecret'') isClusterScoped
     @ (if originCount (git_PrivateKey git) (git_PrivateKeyFromSecret git) > 1
        then [Invalid fldPath ''only one of privateKey or privateKeyFromSecret should be specified'']
        else [])"

definition validateGitPasswordReferences :: "GitSourceSpec \<Rightarrow> string \<Rightarrow> bool \<Rightarrow> field_error list" where
  "validateGitPasswordReferences git fldPath isClusterScoped =
     (let hasPassword = (git_Password git \<noteq> [] \<or> git_PasswordFromSecret git \<noteq> None)
      in selectorErrors (git_PasswordFromSecret git) (Child fldPath ''passwordFromSecret'') isClusterScoped
         @ (if originCount (git_Password git) (git_PasswordFromSecret git) > 1
            then [Invalid fldPath ''only one of password or passwordFromSecret should be specified'']
            else [])
         @ (if hasPassword \<and> git_User git = []
            then [Required (Child fldPath ''user'') ''user is required when password is specified'']
            else []))"

definition validateGitSecretReferences :: "GitSourceSpec \<Rightarrow> string \<Rightarrow> bool \<Rightarrow> field_error list" where
  "validateGitSecretReferences git fldPath isClusterScoped =
     validateGitPrivateKeyReferences git fldPath isClusterScoped
     @ validateGitPasswordReferences git fldPath isClusterScoped
     @ validateGitAuthenticationMethod git fldPath"

definition validateGitSource :: "GitSourceSpec \<Rightarrow> string \<Rightarrow> bool \<Rightarrow> field_error list" where
  "validateGitSource git fldPath isClusterScoped =
     (if git_URL git = [] then [Required (Child fldPath ''url'') ''url is required for Git source''] else [])
     @ validateGitSecretReferences git fldPath isClusterScoped"

section \<open>S3\<close>

definition validateS3AccessKey :: "S3SourceSpec \<Rightarrow> string \<Rightarrow> bool \<Rightarrow> field_error list" where
  "validateS3AccessKey s3 fldPath isClusterScoped =
     (let accessKeyCount = originCount (s3_AccessKey s3) (s3_AccessKeyFromSecret s3)
      in selectorErrors (s3_AccessKeyFromSecret s3) (Child fldPath ''accessKeyFromSecret'') isClusterScoped
         @ (if accessKeyCount = 0
            then [Required fldPath ''one of accessKey or accessKeyFromSecret is required'']
            else if accessKeyCount > 1
            then [Invalid fldPath ''only one of accessKey or accessKeyFromSecret should be specified'']
            else []))"

definition validateS3SecretKey :: "S3SourceSpec \<Rightarrow> string \<Rightarrow> bool \<Rightarrow> field_error list" where
  "validateS3SecretKey s3 fldPath isClusterScoped =
     (let secretKeyCount = originCount (s3_SecretKey s3) (s3_SecretKeyFromSecret s3)
      in selectorErrors (s3_SecretKeyFromSecret s3) (Child fldPath ''secretKeyFromSecret'') isClusterScoped
         @ (if secretKeyCount = 0
            then [Required fldPath ''one of secretKey or secretKeyFromSecret is required'']
            else if secretKeyCount > 1
            then [Invalid fldPath ''only one of secretKey or secretKeyFromSecret should be specified'']
            else []))"

definition validateS3Source :: "S3SourceSpec \<Rightarrow> string \<Rightarrow> bool \<Rightarrow> field_error list" where
  "validateS3Source s3 fldPath isClusterScoped =
     (if s3_EndpointURL s3 = []
      then [Required (Child fldPath ''endpointUrl'') ''endpointUrl is required for S3 source''] else [])
     @ (if s3_BucketName s3 = []
        then [Required (Child fldPath ''bucketName'') ''bucketName is required for S3 source''] else [])
     @ (if s3_Region s3 = []
        then [Required (Child fldPath ''region'') ''region is required for S3 source''] else [])
     @ validateS3AccessKey s3 fldPath isClusterScoped
     @ validateS3SecretKey s3 fldPath isClusterScoped"

section \<open>Sources\<close>

definition sourceCount :: "VolumeSourceSpec \<Rightarrow> nat" where
  "sourceCount source =
     (if src_SSH source \<noteq> None then 1 else 0) + (if src_HTTP source \<noteq> None then 1 else 0)
     + (if src_Git source \<noteq> None then 1 else 0) + (if src_S3 source \<noteq> None then 1 else 0)"

definition validateSourceCount :: "VolumeSourceSpec \<Rightarrow> string \<Rightarrow> field_error option" where
  "validateSourceCount source fldPath =
     (if sourceCount source > 1
      then Some (Invalid fldPath ''source must have at most one source type (ssh, http, git, or s3)'')
      else None)"

definition validateIndividualSources :: "VolumeSourceSpec \<Rightarrow> string \<Rightarrow> bool \<Rightarrow> field_error list" where
  "validateIndividualSources source fldPath isClusterScoped =
     (case src_SSH source of None \<Rightarrow> []
      | Some ssh \<Rightarrow> validateSSHSource ssh (Child fldPath ''ssh'') isClusterScoped)
     @ (case src_HTTP source of None \<Rightarrow> []
        | Some http \<Rightarrow> validateHTTPSource http (Child fldPath ''http''))
     @ (case src_Git source of None \<Rightarrow> []
        | Some git \<Rightarrow> validateGitSource git (Child fldPath ''git'') isClusterScoped)
     @ (case src_S3 source of None \<Rightarrow> []
        | Some s3 \<Rightarrow> validateS3Source s3 (Child fldPath ''s3'') isClusterScoped)"

definition validateSourceSpec :: "VolumeSourceSpec option \<Rightarrow> string \<Rightarrow> bool \<Rightarrow> field_error list" where
  "validateSourceSpec source fldPath isClusterScoped =
     (case source of
        None \<Rightarrow> []
      | Some src \<Rightarrow>
          (case validateSourceCount src fldPath of
             Some err \<Rightarrow> [err]
           | None \<Rightarrow> validateIndividualSources src fldPath isClusterScoped))"

section \<open>The specification\<close>

definition validateMandatoryFields :: "VolumeSpecBase \<Rightarrow> string \<Rightarrow> field_error list" where
  "validateMandatoryFields spec fldPath =
     (if MountPath spec = [] then [Required (Child fldPath ''mountPath'') ''mountPath is required''] else [])"

definition validateNfsServerConfig :: "NfsServerSpec option \<Rightarrow> string \<Rightarrow> field_error list" where
  "validateNfsServerConfig nfsServer fldPath = []"

definition validateNfsServerConfigForCreate :: "NfsServerSpec option \<Rightarrow> string \<Rightarrow> field_error list" where
  "validateNfsServerConfigForCreate nfsServer fldPath = []"

definition validateExternalNfsServerConfig :: "NfsServerSpec option \<Rightarrow> string \<Rightarrow> field_error list" where
  "validateExternalNfsServerConfig nfsServer fldPath = []"

definition validateNfsServerConfigForUpdate ::
  "NfsServerSpec option \<Rightarrow> NfsServerSpec option \<Rightarrow> string \<Rightarrow> field_error list" where
  "validateNfsServerConfigForUpdate oldNfsServer newNfsServer fldPath = []"

definition validateSyncConfig :: "VolumeSpecBase \<Rightarrow> string \<Rightarrow> field_error list" where
  "validateSyncConfig spec fldPath =
     (if Source spec = None \<and> (SyncInterval spec \<noteq> [] \<or> SyncTimeout spec \<noteq> []) then
        (if SyncInterval spec \<noteq> []
         then [Invalid (Child fldPath ''syncInterval'')
                 ''syncInterval should not be set when no source is configured''] else [])
        @ (if SyncTimeout spec \<noteq> []
           then [Invalid (Child fldPath ''syncTimeout'')
                   ''syncTimeout should not be set when no source is configured''] else [])
      else if SyncInterval spec = [] \<or> SyncTimeout spec = [] then []
      else case ParseDuration (SyncInterval spec) of
        Inl _ \<Rightarrow> [Invalid (Child fldPath ''syncInterval'') ''invalid duration format'']
      | Inr syncInterval \<Rightarrow>
          (case ParseDuration (SyncTimeout spec) of
             Inl _ \<Rightarrow> [Invalid (Child fldPath ''syncTimeout'') ''invalid duration format'']
           | Inr syncTimeout \<Rightarrow>
               if syncTimeout \<ge> syncInterval
               then [Invalid (Child fldPath ''syncTimeout'') ''syncTimeout must be smaller than syncInterval'']
               else []))"

text \<open>The guard both entry points put around \<open>validateSyncConfig\<close>.\<close>

definition guardedSyncConfig :: "VolumeSpecBase \<Rightarrow> string \<Rightarrow> field_error list" where
  "guardedSyncConfig spec fldPath =
     (if Source spec \<noteq> None \<or> SyncInterval spec \<noteq> [] \<or> SyncTimeout spec \<noteq> []
      then validateSyncConfig spec fldPath else [])"

definition ValidateVolumeSpec :: "VolumeSpecBase \<Rightarrow> string \<Rightarrow> bool \<Rightarrow> field_error list" where
  "ValidateVolumeSpec spec fldPath isClusterScoped =
     validateMandatoryFields spec fldPath
     @ validateNfsServerConfigForCreate (NfsServer spec) (Child fldPath ''nfsServer'')
     @ validateSourceSpec (Source spec) (Child fldPath ''source'') isClusterScoped
     @ guardedSyncConfig spec fldPath"

definition ValidateVolumeObject :: "VolumeSpecBase \<Rightarrow> string \<Rightarrow> (string \<times> field_error list) option" where
  "ValidateVolumeObject spec kind =
     (let isClusterScoped = (kind = ''ClusterSharedVolume'');
          allErrs = ValidateVolumeSpec spec ''spec'' isClusterScoped
      in if allErrs = [] then None else Some (kind @ '' validation failed'', allErrs))"

section \<open>Updates\<close>

definition compareStorageSpecs :: "StorageSpec option \<Rightarrow> StorageSpec option \<Rightarrow> bool" where
  "compareStorageSpecs old new =
     (case (old, new) of
        (None, None) \<Rightarrow> True
      | (Some o', Some n) \<Rightarrow> st_Capacity o' = st_Capacity n \<and> st_AccessMode o' = st_AccessMode n
      | _ \<Rightarrow> False)"

definition compareStorageSpecsWithDefaults :: "StorageSpec option \<Rightarrow> StorageSpec option \<Rightarrow> bool" where
  "compareStorageSpecsWithDefaults old new =
     (case (old, new) of
        (None, None) \<Rightarrow> True
      | (Some o', Some n) \<Rightarrow>
          (let accessModeEqual =
                 (st_AccessMode o' = st_AccessMode n
                  \<or> (st_AccessMode o' = [] \<and> st_AccessMode n = ''ReadOnly''));
               capacityEqual = (st_Capacity o' = st_Capacity n)
           in capacityEqual \<and> accessModeEqual)
      | _ \<Rightarrow> False)"

definition compareNfsServerSpecs :: "NfsServerSpec option \<Rightarrow> NfsServerSpec option \<Rightarrow> bool" where
  "compareNfsServerSpecs old new =
     (case (old, new) of
        (None, None) \<Rightarrow> True
      | (Some o', Some n) \<Rightarrow>
          nfs_Name o' = nfs_Name n \<and> nfs_Namespace o' = nfs_Namespace n \<and> nfs_URL o' = nfs_URL n
          \<and> nfs_Image o' = nfs_Image n \<and> nfs_Path o' = nfs_Path n
      | _ \<Rightarrow> False)"

definition compareNfsServerSpecsWithDefaults :: "NfsServerSpec option \<Rightarrow> NfsServerSpec option \<Rightarrow> bool" where
  "compareNfsServerSpecsWithDefaults old new =
     (case (old, new) of
        (None, _) \<Rightarrow> True
      | (Some _, None) \<Rightarrow> False
      | (Some o', Some n) \<Rightarrow>
          (let nameEqual = (nfs_Name o' = nfs_Name n);
               namespaceEqual = (nfs_Namespace o' = nfs_Namespace n);
               urlEqual = (nfs_URL o' = nfs_URL n \<or> (nfs_URL o' = [] \<and> nfs_URL n \<noteq> []));
               imageEqual = (nfs_Image o' = nfs_Image n);
               pathEqual = (nfs_Path o' = nfs_Path n \<or> (nfs_Path o' = [] \<and> nfs_Path n = ''/''))
           in nameEqual \<and> namespaceEqual \<and> urlEqual \<and> imageEqual \<and> pathEqual))"

definition immutableFieldError :: "string \<Rightarrow> string \<Rightarrow> string \<Rightarrow> field_error list" where
  "immutableFieldError fldPath old new =
     (if old \<noteq> new \<and> old \<noteq> [] then [Invalid fldPath ErrFieldImmutable] else [])"

definition updateErrors :: "VolumeSpecBase \<Rightarrow> VolumeSpecBase \<Rightarrow> bool \<Rightarrow> field_error list" where
  "updateErrors oldSpec newSpec isClusterScoped =
     (let fldPath = ''spec''
      in validateMandatoryFields newSpec fldPath
         @ validateNfsServerConfigForUpdate (NfsServer oldSpec) (NfsServer newSpec) (Child fldPath ''nfsServer'')
         @ validateSourceSpec (Source newSpec) (Child fldPath ''source'') isClusterScoped
         @ guardedSyncConfig newSpec fldPath
         @ immutableFieldError (Child fldPath ''mountPath'') (MountPath oldSpec) (MountPath newSpec)
         @ immutableFieldError (Child fldPath ''storageClassName'')
             (StorageClassName oldSpec) (StorageClassName newSpec)
         @ immutableFieldError (Child fldPath ''resourceNamespace'')
             (ResourceNamespace oldSpec) (ResourceNamespace newSpec)
         @ immutableFieldError (Child fldPath ''referenceValue'')
             (ReferenceValue oldSpec) (ReferenceValue newSpec)
         @ (if \<not> compareStorageSpecsWithDefaults (Storage oldSpec) (Storage newSpec)
            then [Invalid (Child fldPath ''storage'') ErrFieldImmutable] else [])
         @ (if \<not> compareNfsServerSpecsWithDefaults (NfsServer oldSpec) (NfsServer newSpec)
            then [Invalid (Child fldPath ''nfsServer'') ErrFieldImmutable] else []))"

definition ValidateVolumeObjectUpdate ::
  "VolumeSpecBase \<Rightarrow> VolumeSpecBase \<Rightarrow> string \<Rightarrow> (string \<times> field_error list) option" where
  "ValidateVolumeObjectUpdate oldSpec newSpec kind =
     (let allErrs = updateErrors oldSpec newSpec (kind = ''ClusterSharedVolume'')
      in if allErrs = [] then None else Some (kind @ '' update validation failed'', allErrs))"

section \<open>The validators of the two kinds\<close>

fun kind_name :: "volume_type \<Rightarrow> string" where
  "kind_name SharedVolume = ''SharedVolume''"
| "kind_name ClusterSharedVolume = ''ClusterSharedVolume''"

text \<open>
  The argument is any runtime object; one of another type is refused by the type assertion.
  \<open>Inl\<close> is an error, \<open>Inr ()\<close> admission.
\<close>

datatype admission_error = UnexpectedType string | Rejected string "field_error list"

definition as_admission :: "(string \<times> field_error list) option \<Rightarrow> admission_error + unit" where
  "as_admission r = (case r of None \<Rightarrow> Inr () | Some (m, es) \<Rightarrow> Inl (Rejected m es))"

definition typed_volume :: "volume_type \<Rightarrow> kobj \<Rightarrow> VolumeObject option" where
  "typed_volume t obj =
     (case obj of OVolume v \<Rightarrow> if vo_type v = t then Some v else None | _ \<Rightarrow> None)"

definition ValidateCreate :: "volume_type \<Rightarrow> kobj \<Rightarrow> admission_error + unit" where
  "ValidateCreate t obj =
     (case typed_volume t obj of
        None \<Rightarrow> Inl (UnexpectedType (''expected a '' @ kind_name t @ '' object''))
      | Some v \<Rightarrow> as_admission (ValidateVolumeObject (vo_Spec v) (kind_name t)))"

definition ValidateUpdate :: "volume_type \<Rightarrow> kobj \<Rightarrow> kobj \<Rightarrow> admission_error + unit" where
  "ValidateUpdate t oldObj newObj =
     (case typed_volume t oldObj of
        None \<Rightarrow> Inl (UnexpectedType (''expected a '' @ kind_name t @ '' object for the oldObj''))
      | Some old \<Rightarrow>
          (case typed_volume t newObj of
             None \<Rightarrow> Inl (UnexpectedType (''expected a '' @ kind_name t @ '' object for the newObj''))
           | Some new \<Rightarrow>
               as_admission (ValidateVolumeObjectUpdate (vo_Spec old) (vo_Spec new) (kind_name t))))"

definition ValidateDelete :: "volume_type \<Rightarrow> kobj \<Rightarrow> admission_error + unit" where
  "ValidateDelete t obj =
     (case typed_volume t obj of
        None \<Rightarrow> Inl (UnexpectedType (''expected a '' @ kind_name t @ '' object''))
      | Some v \<Rightarrow> Inr ())"

section \<open>What admission promises\<close>

text \<open>The rules, stated on the fields.\<close>

definition selector_ok :: "bool \<Rightarrow> SecretKeySelector \<Rightarrow> bool" where
  "selector_ok cluster s \<longleftrightarrow>
     sel_Name s \<noteq> [] \<and> sel_Key s \<noteq> [] \<and> (cluster \<longleftrightarrow> sel_Namespace s \<noteq> [])"

text \<open>One credential: at most one origin, and a well-formed selector.\<close>

definition credential_ok :: "bool \<Rightarrow> string \<Rightarrow> SecretKeySelector option \<Rightarrow> bool" where
  "credential_ok cluster direct from \<longleftrightarrow>
     (case from of None \<Rightarrow> True | Some s \<Rightarrow> direct = [] \<and> selector_ok cluster s)"

definition given :: "string \<Rightarrow> SecretKeySelector option \<Rightarrow> bool" where
  "given direct from \<longleftrightarrow> direct \<noteq> [] \<or> from \<noteq> None"

definition ssh_ok :: "bool \<Rightarrow> SSHSourceSpec \<Rightarrow> bool" where
  "ssh_ok cluster ssh \<longleftrightarrow>
     ssh_Host ssh \<noteq> [] \<and> ssh_Path ssh \<noteq> []
     \<and> credential_ok cluster (ssh_PrivateKey ssh) (ssh_PrivateKeyFromSecret ssh)
     \<and> credential_ok cluster (ssh_Password ssh) (ssh_PasswordFromSecret ssh)
     \<and> (given (ssh_PrivateKey ssh) (ssh_PrivateKeyFromSecret ssh)
          \<longleftrightarrow> \<not> given (ssh_Password ssh) (ssh_PasswordFromSecret ssh))"

definition http_ok :: "HTTPSourceSpec \<Rightarrow> bool" where
  "http_ok http \<longleftrightarrow> http_URL http \<noteq> []"

definition git_ok :: "bool \<Rightarrow> GitSourceSpec \<Rightarrow> bool" where
  "git_ok cluster git \<longleftrightarrow>
     git_URL git \<noteq> []
     \<and> credential_ok cluster (git_PrivateKey git) (git_PrivateKeyFromSecret git)
     \<and> credential_ok cluster (git_Password git) (git_PasswordFromSecret git)
     \<and> (given (git_Password git) (git_PasswordFromSecret git)
          \<longrightarrow> git_User git \<noteq> [] \<and> \<not> given (git_PrivateKey git) (git_PrivateKeyFromSecret git))"

definition s3_ok :: "bool \<Rightarrow> S3SourceSpec \<Rightarrow> bool" where
  "s3_ok cluster s3 \<longleftrightarrow>
     s3_EndpointURL s3 \<noteq> [] \<and> s3_BucketName s3 \<noteq> [] \<and> s3_Region s3 \<noteq> []
     \<and> credential_ok cluster (s3_AccessKey s3) (s3_AccessKeyFromSecret s3)
     \<and> credential_ok cluster (s3_SecretKey s3) (s3_SecretKeyFromSecret s3)
     \<and> given (s3_AccessKey s3) (s3_AccessKeyFromSecret s3)
     \<and> given (s3_SecretKey s3) (s3_SecretKeyFromSecret s3)"

definition source_ok :: "bool \<Rightarrow> VolumeSourceSpec \<Rightarrow> bool" where
  "source_ok cluster src \<longleftrightarrow>
     (src_SSH src \<noteq> None \<longrightarrow> src_HTTP src = None \<and> src_Git src = None \<and> src_S3 src = None)
     \<and> (src_HTTP src \<noteq> None \<longrightarrow> src_Git src = None \<and> src_S3 src = None)
     \<and> (src_Git src \<noteq> None \<longrightarrow> src_S3 src = None)
     \<and> pred_option (ssh_ok cluster) (src_SSH src) \<and> pred_option http_ok (src_HTTP src)
     \<and> pred_option (git_ok cluster) (src_Git src) \<and> pred_option (s3_ok cluster) (src_S3 src)"

definition sync_ok :: "VolumeSpecBase \<Rightarrow> bool" where
  "sync_ok spec \<longleftrightarrow>
     (if Source spec = None then SyncInterval spec = [] \<and> SyncTimeout spec = []
      else SyncInterval spec = [] \<or> SyncTimeout spec = []
        \<or> (case (ParseDuration (SyncInterval spec), ParseDuration (SyncTimeout spec)) of
             (Inr i, Inr t) \<Rightarrow> t < i
           | _ \<Rightarrow> False))"

definition spec_ok :: "volume_type \<Rightarrow> VolumeSpecBase \<Rightarrow> bool" where
  "spec_ok t spec \<longleftrightarrow>
     MountPath spec \<noteq> [] \<and> pred_option (source_ok (t = ClusterSharedVolume)) (Source spec)
     \<and> sync_ok spec"

lemma kind_name_cluster [simp]: "kind_name t = ''ClusterSharedVolume'' \<longleftrightarrow> t = ClusterSharedVolume"
  by (cases t) simp_all

lemma validateSecretKeySelector_iff [simp]:
  "validateSecretKeySelector s p c = [] \<longleftrightarrow> selector_ok c s"
  by (auto simp: validateSecretKeySelector_def selector_ok_def)

lemma selectorErrors_iff [simp]: "selectorErrors from p c = [] \<longleftrightarrow> pred_option (selector_ok c) from"
  by (cases "from") (auto simp: selectorErrors_def)

text \<open>
  The interface the credential checks share: a check that accepts leaves at most one origin of
  the credential, and a selector whose namespace is there for cluster-scoped volumes only.
\<close>

locale credential_check =
  fixes errs :: "'a \<Rightarrow> string \<Rightarrow> bool \<Rightarrow> field_error list"
    and direct :: "'a \<Rightarrow> string"
    and from_secret :: "'a \<Rightarrow> SecretKeySelector option"
  assumes accepts: "errs x p c = [] \<Longrightarrow> credential_ok c (direct x) (from_secret x)"
begin

lemma one_origin: "errs x p c = [] \<Longrightarrow> originCount (direct x) (from_secret x) \<le> 1"
  by (drule accepts) (auto simp: credential_ok_def originCount_def split: option.splits)

lemma cluster_namespace: "errs x p True = [] \<Longrightarrow> from_secret x = Some s \<Longrightarrow> sel_Namespace s \<noteq> []"
  by (drule accepts) (auto simp: credential_ok_def selector_ok_def)

lemma local_namespace: "errs x p False = [] \<Longrightarrow> from_secret x = Some s \<Longrightarrow> sel_Namespace s = []"
  by (drule accepts) (auto simp: credential_ok_def selector_ok_def)

end

text \<open>A check that also insists on an origin.\<close>

locale required_credential_check = credential_check +
  assumes requires: "errs x p c = [] \<Longrightarrow> given (direct x) (from_secret x)"
begin

lemma exactly_one_origin: "errs x p c = [] \<Longrightarrow> originCount (direct x) (from_secret x) = 1"
  using one_origin [of x p c] requires [of x p c] by (auto simp: given_def originCount_def split: if_splits)

end

lemma credential_iff:
  "pred_option (selector_ok c) from \<and> originCount direct from \<le> Suc 0 \<longleftrightarrow> credential_ok c direct from"
  by (cases "from") (auto simp: credential_ok_def originCount_def)

lemma originCount_zero: "originCount direct from = 0 \<longleftrightarrow> \<not> given direct from"
  by (auto simp: originCount_def given_def)

lemma ssh_credential_iff:
  "validatePrivateKeyReferences ssh p c = [] \<longleftrightarrow>
     credential_ok c (ssh_PrivateKey ssh) (ssh_PrivateKeyFromSecret ssh)"
  "validatePasswordReferences ssh p c = [] \<longleftrightarrow>
     credential_ok c (ssh_Password ssh) (ssh_PasswordFromSecret ssh)"
  unfolding validatePrivateKeyReferences_def validatePasswordReferences_def
    credential_iff [symmetric]
  by auto

lemma git_credential_iff:
  "validateGitPrivateKeyReferences git p c = [] \<longleftrightarrow>
     credential_ok c (git_PrivateKey git) (git_PrivateKeyFromSecret git)"
  "validateGitPasswordReferences git p c = [] \<longleftrightarrow>
     credential_ok c (git_Password git) (git_PasswordFromSecret git)
     \<and> (given (git_Password git) (git_PasswordFromSecret git) \<longrightarrow> git_User git \<noteq> [])"
  unfolding validateGitPrivateKeyReferences_def validateGitPasswordReferences_def Let_def
    credential_iff [symmetric] given_def
  by auto

lemma s3_credential_iff:
  "validateS3AccessKey s3 p c = [] \<longleftrightarrow>
     credential_ok c (s3_AccessKey s3) (s3_AccessKeyFromSecret s3)
     \<and> given (s3_AccessKey s3) (s3_AccessKeyFromSecret s3)"
  "validateS3SecretKey s3 p c = [] \<longleftrightarrow>
     credential_ok c (s3_SecretKey s3) (s3_SecretKeyFromSecret s3)
     \<and> given (s3_SecretKey s3) (s3_SecretKeyFromSecret s3)"
  unfolding validateS3AccessKey_def validateS3SecretKey_def Let_def
    credential_iff [symmetric] originCount_zero
  by auto

lemmas credential_errs_iff = ssh_credential_iff git_credential_iff s3_credential_iff

interpretation ssh_key: credential_check validatePrivateKeyReferences ssh_PrivateKey ssh_PrivateKeyFromSecret
  by unfold_locales (simp add: credential_errs_iff)

interpretation ssh_password: credential_check validatePasswordReferences ssh_Password ssh_PasswordFromSecret
  by unfold_locales (simp add: credential_errs_iff)

interpretation git_key: credential_check validateGitPrivateKeyReferences git_PrivateKey git_PrivateKeyFromSecret
  by unfold_locales (simp add: credential_errs_iff)

interpretation git_password: credential_check validateGitPasswordReferences git_Password git_PasswordFromSecret
  by unfold_locales (simp add: credential_errs_iff)

interpretation s3_access: required_credential_check validateS3AccessKey s3_AccessKey s3_AccessKeyFromSecret
  by unfold_locales (simp_all add: credential_errs_iff)

interpretation s3_secret: required_credential_check validateS3SecretKey s3_SecretKey s3_SecretKeyFromSecret
  by unfold_locales (simp_all add: credential_errs_iff)

lemma source_errs_iff:
  "validateSSHSource ssh p c = [] \<longleftrightarrow> ssh_ok c ssh"
  "validateHTTPSource http p = [] \<longleftrightarrow> http_ok http"
  "validateGitSource git p c = [] \<longleftrightarrow> git_ok c git"
  "validateS3Source s3 p c = [] \<longleftrightarrow> s3_ok c s3"
  by (auto simp: validateSSHSource_def validateSecretReferences_def validateSSHAuthenticationMethod_def
      validateHTTPSource_def validateGitSource_def validateGitSecretReferences_def
      validateGitAuthenticationMethod_def validateS3Source_def credential_errs_iff
      ssh_ok_def http_ok_def git_ok_def s3_ok_def given_def Let_def)

lemma validateSourceSpec_iff: "validateSourceSpec src p c = [] \<longleftrightarrow> pred_option (source_ok c) src"
proof (cases src)
  case None
  then show ?thesis by (simp add: validateSourceSpec_def)
next
  case (Some s)
  have "sourceCount s > 1 \<longleftrightarrow>
      \<not> ((src_SSH s \<noteq> None \<longrightarrow> src_HTTP s = None \<and> src_Git s = None \<and> src_S3 s = None)
         \<and> (src_HTTP s \<noteq> None \<longrightarrow> src_Git s = None \<and> src_S3 s = None)
         \<and> (src_Git s \<noteq> None \<longrightarrow> src_S3 s = None))"
    by (simp add: sourceCount_def)
  moreover have "validateIndividualSources s p c = [] \<longleftrightarrow>
      pred_option (ssh_ok c) (src_SSH s) \<and> pred_option http_ok (src_HTTP s)
      \<and> pred_option (git_ok c) (src_Git s) \<and> pred_option (s3_ok c) (src_S3 s)"
    by (auto simp: validateIndividualSources_def source_errs_iff split: option.splits)
  ultimately show ?thesis
    using Some by (auto simp: validateSourceSpec_def validateSourceCount_def source_ok_def)
qed

lemma guardedSyncConfig_iff: "guardedSyncConfig spec p = [] \<longleftrightarrow> sync_ok spec"
  by (auto simp: guardedSyncConfig_def validateSyncConfig_def sync_ok_def split: sum.splits)

lemma validateMandatoryFields_iff [simp]: "validateMandatoryFields spec p = [] \<longleftrightarrow> MountPath spec \<noteq> []"
  by (simp add: validateMandatoryFields_def)

lemma immutableFieldError_iff [simp]: "immutableFieldError p old new = [] \<longleftrightarrow> old = [] \<or> old = new"
  by (auto simp: immutableFieldError_def)

lemma ValidateCreate_cases:
  "ValidateCreate t (OVolume v) =
     (if vo_type v \<noteq> t then Inl (UnexpectedType (''expected a '' @ kind_name t @ '' object''))
      else if spec_ok t (vo_Spec v) then Inr ()
      else Inl (Rejected (kind_name t @ '' validation failed'')
                  (ValidateVolumeSpec (vo_Spec v) ''spec'' (t = ClusterSharedVolume))))"
  by (simp add: ValidateCreate_def typed_volume_def ValidateVolumeObject_def ValidateVolumeSpec_def
      as_admission_def spec_ok_def validateSourceSpec_iff guardedSyncConfig_iff
      validateNfsServerConfigForCreate_def Let_def)

text \<open>
  C26. The admission webhook accepts the creation of a volume exactly when its specification
  satisfies the declarative rules \<open>spec_ok\<close>: a mount path, at most one source, every
  credential of the source with one origin and a namespace exactly for cluster-scoped volumes,
  and a sync timeout below the sync interval when both are set. A volume of the right kind that
  breaks a rule is rejected with at least one field error. The rules are those of the code, and
  stricter than some of the repository's samples and comments: the sample that sets a private key
  beside one from a secret, the samples whose sync timeout is not below the interval or that set
  sync settings without a source, and a \<open>SharedVolume\<close> whose secret names a namespace are rejected.
\<close>

theorem ValidateCreate_correct:
  "(ValidateCreate t (OVolume v) = Inr () \<longleftrightarrow> vo_type v = t \<and> spec_ok t (vo_Spec v))
   \<and> ((\<exists>es. es \<noteq> [] \<and> ValidateCreate t (OVolume v) = Inl (Rejected (kind_name t @ '' validation failed'') es))
      \<longleftrightarrow> vo_type v = t \<and> \<not> spec_ok t (vo_Spec v))"
  by (simp add: ValidateCreate_cases)
     (auto simp: ValidateVolumeSpec_def spec_ok_def validateSourceSpec_iff guardedSyncConfig_iff
       validateNfsServerConfigForCreate_def)

lemma updateErrors_iff:
  "updateErrors old new (t = ClusterSharedVolume) = [] \<longleftrightarrow>
     spec_ok t new
     \<and> (MountPath old = [] \<or> MountPath old = MountPath new)
     \<and> (StorageClassName old = [] \<or> StorageClassName old = StorageClassName new)
     \<and> (ResourceNamespace old = [] \<or> ResourceNamespace old = ResourceNamespace new)
     \<and> (ReferenceValue old = [] \<or> ReferenceValue old = ReferenceValue new)
     \<and> compareStorageSpecsWithDefaults (Storage old) (Storage new)
     \<and> compareNfsServerSpecsWithDefaults (NfsServer old) (NfsServer new)"
  by (simp add: updateErrors_def Let_def spec_ok_def validateSourceSpec_iff guardedSyncConfig_iff
      validateNfsServerConfigForUpdate_def)

lemma ValidateUpdate_iff:
  "ValidateUpdate t (OVolume old) (OVolume new) = Inr () \<longleftrightarrow>
     vo_type old = t \<and> vo_type new = t
     \<and> updateErrors (vo_Spec old) (vo_Spec new) (t = ClusterSharedVolume) = []"
  by (simp add: ValidateUpdate_def typed_volume_def ValidateVolumeObjectUpdate_def as_admission_def Let_def)

section \<open>Chains of updates\<close>

text \<open>The states a volume can pass through once it exists: every change was admitted.\<close>

inductive admitted_updates :: "volume_type \<Rightarrow> VolumeObject \<Rightarrow> VolumeObject \<Rightarrow> bool" for t where
  none: "admitted_updates t v v"
| step: "admitted_updates t v u \<Longrightarrow> ValidateUpdate t (OVolume u) (OVolume w) = Inr ()
           \<Longrightarrow> admitted_updates t v w"

inductive_cases ValidateUpdateE: "admitted_updates t v w"

text \<open>A string field that is fixed once it is set, and the identity of a specification.\<close>

definition fixed :: "string \<Rightarrow> string \<Rightarrow> bool" where
  "fixed old new \<longleftrightarrow> old = [] \<or> new = old"

definition nfs_kept :: "NfsServerSpec \<Rightarrow> NfsServerSpec \<Rightarrow> bool" where
  "nfs_kept s n \<longleftrightarrow>
     nfs_Name n = nfs_Name s \<and> nfs_Namespace n = nfs_Namespace s \<and> nfs_Image n = nfs_Image s
     \<and> fixed (nfs_URL s) (nfs_URL n) \<and> fixed (nfs_Path s) (nfs_Path n)"

definition identity_kept :: "VolumeSpecBase \<Rightarrow> VolumeSpecBase \<Rightarrow> bool" where
  "identity_kept old new \<longleftrightarrow>
     fixed (ReferenceValue old) (ReferenceValue new) \<and> fixed (MountPath old) (MountPath new)
     \<and> fixed (StorageClassName old) (StorageClassName new)
     \<and> fixed (ResourceNamespace old) (ResourceNamespace new)
     \<and> map_option st_Capacity (Storage new) = map_option st_Capacity (Storage old)
     \<and> (case NfsServer old of None \<Rightarrow> True | Some s \<Rightarrow> \<exists>n. NfsServer new = Some n \<and> nfs_kept s n)"

lemma fixed_refl [simp]: "fixed a a"
  by (simp add: fixed_def)

lemma fixed_trans: "fixed a b \<Longrightarrow> fixed b c \<Longrightarrow> fixed a c"
  by (auto simp: fixed_def)

lemma nfs_kept_refl [simp]: "nfs_kept s s"
  by (simp add: nfs_kept_def)

lemma nfs_kept_trans: "nfs_kept a b \<Longrightarrow> nfs_kept b c \<Longrightarrow> nfs_kept a c"
  by (auto simp: nfs_kept_def intro: fixed_trans)

interpretation identity: step_preorder identity_kept
proof
  show "identity_kept s s" for s
    by (simp add: identity_kept_def split: option.split)
next
  fix s t u
  assume st: "identity_kept s t" and tu: "identity_kept t u"
  have "\<exists>n. NfsServer u = Some n \<and> nfs_kept m n" if m: "NfsServer s = Some m" for m
  proof -
    from st m obtain n where n: "NfsServer t = Some n" "nfs_kept m n"
      by (auto simp: identity_kept_def)
    from tu n(1) obtain k where "NfsServer u = Some k" "nfs_kept n k"
      by (auto simp: identity_kept_def)
    with n(2) show ?thesis by (blast intro: nfs_kept_trans)
  qed
  with st tu show "identity_kept s u"
    unfolding identity_kept_def by (auto intro: fixed_trans split: option.split)
qed

lemma compareStorage_kept:
  "compareStorageSpecsWithDefaults old new \<Longrightarrow> map_option st_Capacity new = map_option st_Capacity old"
  by (auto simp: compareStorageSpecsWithDefaults_def Let_def split: option.splits)

lemma compareNfs_kept:
  "compareNfsServerSpecsWithDefaults (Some s) new \<Longrightarrow> \<exists>n. new = Some n \<and> nfs_kept s n"
  by (cases new) (auto simp: compareNfsServerSpecsWithDefaults_def nfs_kept_def fixed_def)

lemma ValidateUpdate_identity:
  assumes "ValidateUpdate t (OVolume u) (OVolume w) = Inr ()"
  shows "identity_kept (vo_Spec u) (vo_Spec w)"
proof -
  note fields = iffD1 [OF ValidateUpdate_iff assms, unfolded updateErrors_iff]
  have "map_option st_Capacity (Storage (vo_Spec w)) = map_option st_Capacity (Storage (vo_Spec u))"
    using fields compareStorage_kept by blast
  moreover have "\<exists>n. NfsServer (vo_Spec w) = Some n \<and> nfs_kept s n" if "NfsServer (vo_Spec u) = Some s" for s
    using fields compareNfs_kept that by metis
  ultimately show ?thesis
    using fields unfolding identity_kept_def fixed_def by (auto split: option.split)
qed

text \<open>
  C27. Along any sequence of admitted updates the identity of a volume is fixed: once set, its
  reference value, mount path, storage class and resource namespace never change again, the
  storage capacity never changes, and an NFS server once named keeps its name, namespace,
  image and (once set) URL and path.
\<close>

theorem admitted_updates_keep_identity:
  "admitted_updates t v w \<Longrightarrow> identity_kept (vo_Spec v) (vo_Spec w)"
proof (induction rule: admitted_updates.induct)
  case (none v)
  show ?case by (rule identity.refl)
next
  case (step v u w)
  then show ?case by (blast intro: identity.trans ValidateUpdate_identity)
qed

end
