(* ===== verification/Cluster.thy ===== *)
theory Cluster
  imports Api_Types
begin

text \<open>
  The world the controllers run in. The Kubernetes API server, the HTTP services of the
  syncer pods, the clock, the random source, \<open>resource.ParseQuantity\<close> and the process
  environment are not code of the repository: they are the fields of the record \<open>env\<close>, a
  parameter of every operation, over a state of any type. \<open>rand.Intn(n)\<close> is some number modulo
  \<open>n\<close>. Every operation on them is
  recorded, with its answer, in the history \<open>w_hist\<close>, so that a theorem can speak of the calls
  the code makes and of their order whatever the server does. \<open>e_GroupVersion\<close> is
  \<open>GroupVersionKind().GroupVersion().String()\<close> of apimachinery on the API version of an object,
  and \<open>e_fuel\<close> bounds the rounds of a polling loop, see \<open>Diverges\<close>. The state of the sync
  controller (its two maps and the timers of \<open>time.AfterFunc\<close>) is part of the world because
  the timer goroutines and the reconcilers share it.
\<close>

section \<open>Requests to the API server\<close>

datatype selector =
  AllNamespaces
| InNamespace string
| InNamespaceMatching string labels

datatype request =
  GetReq kind string string
| ListReq kind selector
| CreateReq kobj
| UpdateReq kobj
| StatusUpdateReq kobj
| DeleteReq kind string string "int option"
| PatchFinalizersNullReq kind string string

datatype response =
  RError error
| RDone
| RObject kobj
| RObjects "kobj list"

section \<open>The payload of a sync call\<close>

record SyncSourceSSH =
  yssh_Host :: string
  yssh_Port :: int
  yssh_User :: string
  yssh_Path :: string
  yssh_Password :: string
  yssh_PrivateKey :: string

record SyncSourceHTTP =
  yhttp_URL :: string

record SyncSourceGit =
  ygit_URL :: string
  ygit_User :: string
  ygit_Password :: string
  ygit_PrivateKey :: string
  ygit_Branch :: string

record SyncSourceS3 =
  ys3_EndpointURL :: string
  ys3_BucketName :: string
  ys3_Path :: string
  ys3_AccessKey :: string
  ys3_SecretKey :: string
  ys3_Region :: string

datatype SyncDetails =
  DetailsSSH SyncSourceSSH
| DetailsHTTP SyncSourceHTTP
| DetailsGit SyncSourceGit
| DetailsS3 SyncSourceS3

record SyncSource =
  ys_Type :: string
  ys_Details :: SyncDetails

record SyncRequest =
  yr_Source :: SyncSource
  yr_TargetPath :: string
  yr_Timeout :: string

section \<open>World\<close>

datatype event =
  EApi request response
| EPost string SyncRequest "error + int \<times> string"
| ESleep int

text \<open>
  The closures given to \<open>time.AfterFunc\<close> by the sync controller: one that calls
  \<open>scheduledSyncCommon\<close> and one that calls \<open>scheduledSync\<close>, with what they capture.
\<close>

datatype sync_closure =
  RunScheduledSyncCommon string string VolumeSpecBase int
| RunScheduledSync VolumeObject int

record 'w world =
  w_srv :: 'w
  w_hist :: "event list"
  w_syncTimers :: "string \<Rightarrow> nat option"
  w_initialSyncDone :: "string \<Rightarrow> bool option"
  w_pending :: "(nat \<times> sync_closure) list"
  w_nextTimer :: nat

record 'w env =
  e_api :: "request \<Rightarrow> 'w \<Rightarrow> response \<times> 'w"
  e_post :: "string \<Rightarrow> SyncRequest \<Rightarrow> 'w \<Rightarrow> (error + int \<times> string) \<times> 'w"
  e_now :: "'w \<Rightarrow> int"
  e_sleep :: "int \<Rightarrow> 'w \<Rightarrow> 'w"
  e_rand :: "nat \<Rightarrow> 'w \<Rightarrow> nat \<times> 'w"
  e_ParseQuantity :: "string \<Rightarrow> error + quantity"
  e_getenv :: "string \<Rightarrow> string"
  e_has_APIVersion_accessors :: bool
  e_has_Kind_accessors :: bool
  e_GroupVersion :: "string \<Rightarrow> string"
  e_fuel :: nat

type_synonym ('w, 'a) prog = "('w world, 'a) state"

definition api_call :: "'w env \<Rightarrow> request \<Rightarrow> ('w, response) prog" where
  "api_call env rq = State (\<lambda>w.
     let (rp, srv') = e_api env rq (w_srv w)
     in (rp, w\<lparr>w_srv := srv', w_hist := w_hist w @ [EApi rq rp]\<rparr>))"

definition http_post :: "'w env \<Rightarrow> string \<Rightarrow> SyncRequest \<Rightarrow> ('w, error + int \<times> string) prog" where
  "http_post env url rq = State (\<lambda>w.
     let (rp, srv') = e_post env url rq (w_srv w)
     in (rp, w\<lparr>w_srv := srv', w_hist := w_hist w @ [EPost url rq rp]\<rparr>))"

definition time_Sleep :: "'w env \<Rightarrow> int \<Rightarrow> ('w, unit) prog" where
  "time_Sleep env d = State (\<lambda>w.
     ((), w\<lparr>w_srv := e_sleep env d (w_srv w), w_hist := w_hist w @ [ESleep d]\<rparr>))"

definition time_Now :: "'w env \<Rightarrow> ('w, int) prog" where
  "time_Now env = gets (\<lambda>w. e_now env (w_srv w))"

definition rand_Intn :: "'w env \<Rightarrow> nat \<Rightarrow> ('w, nat) prog" where
  "rand_Intn env n = State (\<lambda>w.
     let (k, srv') = e_rand env n (w_srv w) in (k mod n, w\<lparr>w_srv := srv'\<rparr>))"

section \<open>The typed client\<close>

text \<open>
  \<open>Get\<close> decodes the answer into an object of the type asked for; an answer of another shape is
  a decoding error of the client.
\<close>

definition decode_error :: error where
  "decode_error = OtherApiError ''unexpected response''"

lemma decode_error_simps [simp]:
  "\<not> IsNotFound decode_error" "\<not> IsConflict decode_error" "\<not> is_abort decode_error"
  by (simp_all add: decode_error_def)

definition as_object :: "(kobj \<Rightarrow> 'a option) \<Rightarrow> response \<Rightarrow> error + 'a" where
  "as_object dec rp = (case rp of
      RError e \<Rightarrow> Inl e
    | RObject obj \<Rightarrow> (case dec obj of None \<Rightarrow> Inl decode_error | Some x \<Rightarrow> Inr x)
    | _ \<Rightarrow> Inl decode_error)"

definition as_list :: "(kobj \<Rightarrow> 'a option) \<Rightarrow> response \<Rightarrow> error + 'a list" where
  "as_list dec rp = (case rp of
      RError e \<Rightarrow> Inl e
    | RObjects objs \<Rightarrow> (case those (map dec objs) of None \<Rightarrow> Inl decode_error | Some xs \<Rightarrow> Inr xs)
    | _ \<Rightarrow> Inl decode_error)"

definition as_done :: "response \<Rightarrow> error + unit" where
  "as_done rp = (case rp of RError e \<Rightarrow> Inl e | _ \<Rightarrow> Inr ())"

definition Get_as ::
  "(kobj \<Rightarrow> 'a option) \<Rightarrow> 'w env \<Rightarrow> kind \<Rightarrow> string \<Rightarrow> string \<Rightarrow> ('w, error + 'a) prog" where
  "Get_as dec env k ns n = do { rp \<leftarrow> api_call env (GetReq k ns n); ret (as_object dec rp) }"

definition List_as ::
  "(kobj \<Rightarrow> 'a option) \<Rightarrow> 'w env \<Rightarrow> kind \<Rightarrow> selector \<Rightarrow> ('w, error + 'a list) prog" where
  "List_as dec env k sel = do { rp \<leftarrow> api_call env (ListReq k sel); ret (as_list dec rp) }"

definition GetVolume :: "'w env \<Rightarrow> volume_type \<Rightarrow> string \<Rightarrow> string \<Rightarrow> ('w, error + VolumeObject) prog" where
  "GetVolume env t ns n = Get_as (the_volume t) env (KVolume t) ns n"

abbreviation GetPod where "GetPod env ns n \<equiv> Get_as the_pod env KPod ns n"
abbreviation GetPV where "GetPV env n \<equiv> Get_as the_pv env KPersistentVolume [] n"
abbreviation GetPVC where "GetPVC env ns n \<equiv> Get_as the_pvc env KPersistentVolumeClaim ns n"
abbreviation GetReplicaSet where "GetReplicaSet env ns n \<equiv> Get_as the_rs env KReplicaSet ns n"
abbreviation GetService where "GetService env ns n \<equiv> Get_as the_svc env KService ns n"
abbreviation GetNfsServer where "GetNfsServer env ns n \<equiv> Get_as the_nfs env KNfsServer ns n"
abbreviation GetNamespaceObj where "GetNamespaceObj env n \<equiv> Get_as the_ns env KNamespace [] n"
abbreviation GetSecret where "GetSecret env ns n \<equiv> Get_as the_secret env KSecret ns n"
abbreviation GetObject where "GetObject env k ns n \<equiv> Get_as (the_kind k) env k ns n"
abbreviation ListPods where "ListPods env sel \<equiv> List_as the_pod env KPod sel"
abbreviation ListPVs where "ListPVs env \<equiv> List_as the_pv env KPersistentVolume AllNamespaces"
abbreviation ListPVCs where "ListPVCs env \<equiv> List_as the_pvc env KPersistentVolumeClaim AllNamespaces"
abbreviation ListVolumes where "ListVolumes env t \<equiv> List_as (the_volume t) env (KVolume t) AllNamespaces"

definition Create :: "'w env \<Rightarrow> kobj \<Rightarrow> ('w, error + unit) prog" where
  "Create env obj = do { rp \<leftarrow> api_call env (CreateReq obj); ret (as_done rp) }"

text \<open>
  \<open>Update\<close> stores the answer of the server in the object it was given; the object is
  unchanged when the call fails. Where the caller does not look at the object again only the
  error is kept (\<open>UpdateDone\<close>).
\<close>

definition Update :: "'w env \<Rightarrow> kobj \<Rightarrow> ('w, error + kobj) prog" where
  "Update env obj = do { rp \<leftarrow> api_call env (UpdateReq obj); ret (as_object (the_kind (kind_of obj)) rp) }"

definition UpdateDone :: "'w env \<Rightarrow> kobj \<Rightarrow> ('w, error + unit) prog" where
  "UpdateDone env obj = do { rp \<leftarrow> api_call env (UpdateReq obj); ret (as_done rp) }"

definition UpdateVolume :: "'w env \<Rightarrow> VolumeObject \<Rightarrow> ('w, error + VolumeObject) prog" where
  "UpdateVolume env v =
     do { rp \<leftarrow> api_call env (UpdateReq (OVolume v)); ret (as_object (the_volume (vo_type v)) rp) }"

definition StatusUpdate :: "'w env \<Rightarrow> kobj \<Rightarrow> ('w, error + kobj) prog" where
  "StatusUpdate env obj =
     do { rp \<leftarrow> api_call env (StatusUpdateReq obj); ret (as_object (the_kind (kind_of obj)) rp) }"

definition Delete :: "'w env \<Rightarrow> kobj \<Rightarrow> ('w, error + unit) prog" where
  "Delete env obj =
     do { rp \<leftarrow> api_call env
            (DeleteReq (kind_of obj) (om_Namespace (meta_of obj)) (om_Name (meta_of obj)) None);
          ret (as_done rp) }"

definition DeleteNow :: "'w env \<Rightarrow> kobj \<Rightarrow> ('w, error + unit) prog" where
  "DeleteNow env obj =
     do { rp \<leftarrow> api_call env
            (DeleteReq (kind_of obj) (om_Namespace (meta_of obj)) (om_Name (meta_of obj)) (Some 0));
          ret (as_done rp) }"

definition PatchFinalizersNull :: "'w env \<Rightarrow> kind \<Rightarrow> string \<Rightarrow> string \<Rightarrow> ('w, error + unit) prog" where
  "PatchFinalizersNull env k ns n =
     do { rp \<leftarrow> api_call env (PatchFinalizersNullReq k ns n); ret (as_done rp) }"

section \<open>Histories\<close>

text \<open>
  \<open>grows P w w'\<close>: the history of \<open>w'\<close> extends the one of \<open>w\<close> by events that all satisfy \<open>P\<close>.
  A program for which \<open>keeps (grows P)\<close> holds makes only calls in \<open>P\<close>, whatever the server
  answers.
\<close>

definition grows :: "(event \<Rightarrow> bool) \<Rightarrow> 'w world \<Rightarrow> 'w world \<Rightarrow> bool" where
  "grows P w w' \<longleftrightarrow> (\<exists>es. w_hist w' = w_hist w @ es \<and> list_all P es)"

abbreviation emits :: "(event \<Rightarrow> bool) \<Rightarrow> ('w, 'a) prog \<Rightarrow> bool" where
  "emits P m \<equiv> keeps (grows P) m"

interpretation grows: step_preorder "grows P :: 'w world \<Rightarrow> 'w world \<Rightarrow> bool" for P
  by unfold_locales (auto simp: grows_def list_all_iff)

lemma grows_mono: "grows P w w' \<Longrightarrow> (\<And>e. P e \<Longrightarrow> Q e) \<Longrightarrow> grows Q w w'"
  by (auto simp: grows_def list_all_iff)

lemma emits_weaken: "emits P m \<Longrightarrow> (\<And>e. P e \<Longrightarrow> Q e) \<Longrightarrow> emits Q m"
  by (rule keeps_mono [where R = "grows P"]) (auto intro: grows_mono)

text \<open>The events a run adds to the history.\<close>

definition emitted :: "('w, 'a) prog \<Rightarrow> 'w world \<Rightarrow> event list" where
  "emitted m w = drop (length (w_hist w)) (w_hist (snd (run_state m w)))"

lemma emits_emitted: "emits P m \<Longrightarrow> list_all P (emitted m w)"
  unfolding keeps_def grows_def emitted_def by (metis append_eq_conv_conj)

lemma emits_api_call [keeps_intro]: "(\<And>rp. P (EApi rq rp)) \<Longrightarrow> emits P (api_call env rq)"
  by (auto simp: keeps_def grows_def api_call_def split: prod.split)

lemma emits_http_post [keeps_intro]: "(\<And>rp. P (EPost u rq rp)) \<Longrightarrow> emits P (http_post env u rq)"
  by (auto simp: keeps_def grows_def http_post_def split: prod.split)

lemma emits_time_Sleep [keeps_intro]: "P (ESleep d) \<Longrightarrow> emits P (time_Sleep env d)"
  by (auto simp: keeps_def grows_def time_Sleep_def)

lemma emits_time_Now [keeps_intro]: "emits P (time_Now env)"
  by (auto simp: keeps_def grows_def time_Now_def)

lemma emits_rand_Intn [keeps_intro]: "emits P (rand_Intn env n)"
  by (auto simp: keeps_def grows_def rand_Intn_def split: prod.split)

lemma emits_update_state [keeps_intro]:
  "(\<And>w. w_hist (f w) = w_hist w) \<Longrightarrow> emits P (update_state f)"
  by (auto simp: keeps_def grows_def)

text \<open>The typed client, as rules of the same collection.\<close>

lemma emits_Get_as [keeps_intro]: "(\<And>rp. P (EApi (GetReq k ns n) rp)) \<Longrightarrow> emits P (Get_as dec env k ns n)"
  unfolding Get_as_def by (intro keeps_intro)

lemma emits_GetVolume [keeps_intro]:
  "(\<And>rp. P (EApi (GetReq (KVolume t) ns n) rp)) \<Longrightarrow> emits P (GetVolume env t ns n)"
  unfolding GetVolume_def by (intro keeps_intro)

lemma emits_List_as [keeps_intro]: "(\<And>rp. P (EApi (ListReq k sel) rp)) \<Longrightarrow> emits P (List_as dec env k sel)"
  unfolding List_as_def by (intro keeps_intro)

lemma emits_Create [keeps_intro]: "(\<And>rp. P (EApi (CreateReq obj) rp)) \<Longrightarrow> emits P (Create env obj)"
  unfolding Create_def by (intro keeps_intro)

lemma emits_Update [keeps_intro]: "(\<And>rp. P (EApi (UpdateReq obj) rp)) \<Longrightarrow> emits P (Update env obj)"
  unfolding Update_def by (intro keeps_intro)

lemma emits_UpdateDone [keeps_intro]: "(\<And>rp. P (EApi (UpdateReq obj) rp)) \<Longrightarrow> emits P (UpdateDone env obj)"
  unfolding UpdateDone_def by (intro keeps_intro)

lemma emits_UpdateVolume [keeps_intro]:
  "(\<And>rp. P (EApi (UpdateReq (OVolume v)) rp)) \<Longrightarrow> emits P (UpdateVolume env v)"
  unfolding UpdateVolume_def by (intro keeps_intro)

lemma emits_StatusUpdate [keeps_intro]:
  "(\<And>rp. P (EApi (StatusUpdateReq obj) rp)) \<Longrightarrow> emits P (StatusUpdate env obj)"
  unfolding StatusUpdate_def by (intro keeps_intro)

lemma emits_Delete [keeps_intro]:
  "(\<And>rp. P (EApi (DeleteReq (kind_of obj) (om_Namespace (meta_of obj)) (om_Name (meta_of obj)) None) rp))
     \<Longrightarrow> emits P (Delete env obj)"
  unfolding Delete_def by (intro keeps_intro)

lemma emits_DeleteNow [keeps_intro]:
  "(\<And>rp. P (EApi (DeleteReq (kind_of obj) (om_Namespace (meta_of obj)) (om_Name (meta_of obj)) (Some 0)) rp))
     \<Longrightarrow> emits P (DeleteNow env obj)"
  unfolding DeleteNow_def by (intro keeps_intro)

lemma emits_PatchFinalizersNull [keeps_intro]:
  "(\<And>rp. P (EApi (PatchFinalizersNullReq k ns n) rp)) \<Longrightarrow> emits P (PatchFinalizersNull env k ns n)"
  unfolding PatchFinalizersNull_def by (intro keeps_intro)

text \<open>What the typed calls return, for evaluation and for case analysis.\<close>

lemma run_api_call:
  "run_state (api_call env rq) w =
     (fst (e_api env rq (w_srv w)),
      w\<lparr>w_srv := snd (e_api env rq (w_srv w)),
        w_hist := w_hist w @ [EApi rq (fst (e_api env rq (w_srv w)))]\<rparr>)"
  by (simp add: api_call_def split: prod.split)

text \<open>Requests that change the cluster, and the histories that hold none.\<close>

fun is_write :: "request \<Rightarrow> bool" where
  "is_write (GetReq _ _ _) = False"
| "is_write (ListReq _ _) = False"
| "is_write _ = True"

fun reads_only :: "event \<Rightarrow> bool" where
  "reads_only (EApi rq _) = (\<not> is_write rq)"
| "reads_only (EPost _ _ _) = False"
| "reads_only (ESleep _) = True"

fun is_write_event :: "event \<Rightarrow> bool" where
  "is_write_event (EApi rq _) = is_write rq"
| "is_write_event _ = False"

text \<open>Durations are nanoseconds.\<close>

definition millisecond :: int where "millisecond = 1000000"
definition second :: int where "second = 1000 * millisecond"
definition minute :: int where "minute = 60 * second"

section \<open>Honest servers\<close>

text \<open>
  What the code relies on when it uses an answer of the API server: \<open>Get\<close> returns the object
  asked for, \<open>List\<close> objects of the kind and selection asked for, \<open>Update\<close> the updated object.
\<close>

definition has_key :: "kind \<Rightarrow> string \<Rightarrow> string \<Rightarrow> kobj \<Rightarrow> bool" where
  "has_key k ns n obj \<longleftrightarrow>
     kind_of obj = k \<and> om_Namespace (meta_of obj) = ns \<and> om_Name (meta_of obj) = n"

fun selects :: "selector \<Rightarrow> kobj \<Rightarrow> bool" where
  "selects AllNamespaces obj = True"
| "selects (InNamespace ns) obj = (om_Namespace (meta_of obj) = ns)"
| "selects (InNamespaceMatching ns ls) obj =
     (om_Namespace (meta_of obj) = ns \<and> list_all (\<lambda>(k, v). map_of (om_Labels (meta_of obj)) k = Some v) ls)"

definition honest :: "'w env \<Rightarrow> bool" where
  "honest env \<longleftrightarrow>
     (\<forall>k ns n s obj. fst (e_api env (GetReq k ns n) s) = RObject obj \<longrightarrow> has_key k ns n obj)
     \<and> (\<forall>k sel s objs obj. fst (e_api env (ListReq k sel) s) = RObjects objs \<longrightarrow> obj \<in> set objs
          \<longrightarrow> kind_of obj = k \<and> selects sel obj)
     \<and> (\<forall>o1 s obj. fst (e_api env (UpdateReq o1) s) = RObject obj
          \<longrightarrow> has_key (kind_of o1) (om_Namespace (meta_of o1)) (om_Name (meta_of o1)) obj)
     \<and> (\<forall>o1 s obj. fst (e_api env (StatusUpdateReq o1) s) = RObject obj
          \<longrightarrow> has_key (kind_of o1) (om_Namespace (meta_of o1)) (om_Name (meta_of o1)) obj)"

lemma results_api_call: "rp \<in> results (api_call env rq) \<longleftrightarrow> (\<exists>s. rp = fst (e_api env rq s))"
proof
  assume "rp \<in> results (api_call env rq)"
  then show "\<exists>s. rp = fst (e_api env rq s)"
    by (auto simp: results_def run_api_call)
next
  assume "\<exists>s. rp = fst (e_api env rq s)"
  then obtain s where s: "rp = fst (e_api env rq s)" by blast
  have "rp = fst (run_state (api_call env rq) \<lparr>w_srv = s, w_hist = [], w_syncTimers = Map.empty,
      w_initialSyncDone = Map.empty, w_pending = [], w_nextTimer = 0\<rparr>)"
    by (simp add: run_api_call s)
  then show "rp \<in> results (api_call env rq)"
    by (simp add: results_run)
qed

lemma as_object_Inr: "as_object dec rp = Inr x \<longleftrightarrow> (\<exists>obj. rp = RObject obj \<and> dec obj = Some x)"
  by (auto simp: as_object_def split: response.splits option.splits)

lemma results_Get_as:
  "Inr x \<in> results (Get_as dec env k ns n) \<Longrightarrow>
     \<exists>obj s. dec obj = Some x \<and> fst (e_api env (GetReq k ns n) s) = RObject obj"
  unfolding Get_as_def
  by (auto dest!: results_bindD simp: results_api_call as_object_Inr[symmetric])
     (metis as_object_Inr)

lemma honest_Get_as:
  assumes "honest env" and "Inr x \<in> results (Get_as dec env k ns n)"
  shows "\<exists>obj. dec obj = Some x \<and> has_key k ns n obj"
  using results_Get_as [OF assms(2)] assms(1) unfolding honest_def by blast

lemma results_List_as:
  assumes "Inr xs \<in> results (List_as dec env k sel)" and "x \<in> set xs"
  shows "\<exists>objs obj s. fst (e_api env (ListReq k sel) s) = RObjects objs \<and> obj \<in> set objs \<and> dec obj = Some x"
proof -
  have those: "those (map dec objs) = Some ys \<Longrightarrow> y \<in> set ys \<Longrightarrow> \<exists>obj \<in> set objs. dec obj = Some y" for objs ys y
    by (induction objs arbitrary: ys) (auto split: option.splits)
  from assms(1) obtain s where "as_list dec (fst (e_api env (ListReq k sel) s)) = Inr xs"
    unfolding List_as_def by (auto dest!: results_bindD simp: results_api_call)
  then obtain objs where "fst (e_api env (ListReq k sel) s) = RObjects objs" "those (map dec objs) = Some xs"
    by (auto simp: as_list_def split: response.splits option.splits)
  with those [OF _ assms(2)] show ?thesis by blast
qed

lemma honest_List_as:
  assumes "honest env" and "Inr xs \<in> results (List_as dec env k sel)" and "x \<in> set xs"
  shows "\<exists>obj. dec obj = Some x \<and> kind_of obj = k \<and> selects sel obj"
  using results_List_as [OF assms(2,3)] assms(1) unfolding honest_def by blast

lemma the_kind_Some [simp]: "the_kind k obj = Some x \<longleftrightarrow> x = obj \<and> kind_of obj = k"
  by (auto simp: the_kind_def)

section \<open>What calls leave alone\<close>

text \<open>
  A preorder on worlds that every call moves along; the typed client then moves along it too. The
  instance here: calls do not touch the timers.
\<close>

locale world_preorder = step_preorder R for R :: "'w world \<Rightarrow> 'w world \<Rightarrow> bool" +
  assumes keeps_api_call: "keeps R (api_call env rq)"
    and keeps_http_post: "keeps R (http_post env u sr)"
    and keeps_time_Sleep: "keeps R (time_Sleep env d)"
    and keeps_rand_Intn: "keeps R (rand_Intn env n)"
begin

lemma keeps_Get_as [keeps_intro]: "keeps R (Get_as dec env k ns n)"
  unfolding Get_as_def by (intro keeps_bind keeps_ret keeps_api_call)

lemma keeps_GetVolume [keeps_intro]: "keeps R (GetVolume env t ns n)"
  unfolding GetVolume_def by (rule keeps_Get_as)

lemma keeps_List_as [keeps_intro]: "keeps R (List_as dec env k sel)"
  unfolding List_as_def by (intro keeps_bind keeps_ret keeps_api_call)

lemma keeps_writes [keeps_intro]:
  "keeps R (Create env obj)" "keeps R (Update env obj)" "keeps R (UpdateDone env obj)"
  "keeps R (UpdateVolume env v)" "keeps R (StatusUpdate env obj)" "keeps R (Delete env obj)"
  "keeps R (DeleteNow env obj)" "keeps R (PatchFinalizersNull env k ns n)"
  unfolding Create_def Update_def UpdateDone_def UpdateVolume_def StatusUpdate_def Delete_def
    DeleteNow_def PatchFinalizersNull_def
  by (intro keeps_bind keeps_ret keeps_api_call)+

lemmas keeps_effects [keeps_intro] = keeps_http_post keeps_time_Sleep keeps_rand_Intn

lemma keeps_time_Now [keeps_intro]: "keeps R (time_Now env)"
  unfolding time_Now_def by (rule keeps_gets)

end

definition same_timers :: "'w world \<Rightarrow> 'w world \<Rightarrow> bool" where
  "same_timers w w' \<longleftrightarrow> w_pending w' = w_pending w \<and> w_syncTimers w' = w_syncTimers w
     \<and> w_nextTimer w' = w_nextTimer w"

interpretation same_timers: world_preorder same_timers
  by unfold_locales
     (auto simp: same_timers_def keeps_def api_call_def http_post_def time_Sleep_def rand_Intn_def
       split: prod.split)

section \<open>Counting calls\<close>

text \<open>\<open>at_most n P m\<close>: a run of \<open>m\<close> adds at most \<open>n\<close> events in \<open>P\<close> to the history.\<close>

definition at_most :: "nat \<Rightarrow> (event \<Rightarrow> bool) \<Rightarrow> ('w, 'a) prog \<Rightarrow> bool" where
  "at_most n P m \<longleftrightarrow> (\<forall>w. \<exists>es. w_hist (snd (run_state m w)) = w_hist w @ es \<and> length (filter P es) \<le> n)"

lemma at_most_weaken: "at_most n P m \<Longrightarrow> n \<le> n' \<Longrightarrow> at_most n' P m"
  unfolding at_most_def by (meson le_trans)

lemma at_most_emits: "emits (\<lambda>e. \<not> P e) m \<Longrightarrow> at_most n P m"
  unfolding keeps_def grows_def at_most_def list_all_iff
  by (metis filter_False le0 list.size(3))

lemma at_most_ret: "at_most n P (ret x)"
  by (simp add: at_most_def)

lemma at_most_bind:
  assumes "at_most a P m" and "\<And>x. at_most b P (f x)"
  shows "at_most (a + b) P (State_Monad.bind m f)"
  unfolding at_most_def
proof
  fix w
  obtain x w1 where m: "run_state m w = (x, w1)" by fastforce
  obtain es where es: "w_hist w1 = w_hist w @ es" "length (filter P es) \<le> a"
    using assms(1) m unfolding at_most_def by (metis snd_conv)
  obtain fs where fs: "w_hist (snd (run_state (f x) w1)) = w_hist w1 @ fs" "length (filter P fs) \<le> b"
    using assms(2) unfolding at_most_def by blast
  have "w_hist (snd (run_state (State_Monad.bind m f) w)) = w_hist w @ (es @ fs)"
    using m es(1) fs(1) by simp
  moreover have "length (filter P (es @ fs)) \<le> a + b"
    using es(2) fs(2) by simp
  ultimately show "\<exists>es. w_hist (snd (run_state (State_Monad.bind m f) w)) = w_hist w @ es \<and>
      length (filter P es) \<le> a + b"
    by blast
qed

lemma at_most_free_bind:
  "emits (\<lambda>e. \<not> P e) m \<Longrightarrow> (\<And>x. at_most n P (f x)) \<Longrightarrow> at_most n P (State_Monad.bind m f)"
  using at_most_bind [of 0 P m n f] at_most_emits by auto

lemma at_most_bind_free:
  "at_most n P m \<Longrightarrow> (\<And>x. emits (\<lambda>e. \<not> P e) (f x)) \<Longrightarrow> at_most n P (State_Monad.bind m f)"
  using at_most_bind [of n P m 0 f] at_most_emits by auto

lemma at_most_api: "at_most (Suc n) P (api_call env rq)"
  by (simp add: at_most_def run_api_call)

text \<open>Rules that decompose a program call by call: reads are free, a write costs one.\<close>

named_theorems at_most_intro \<open>rules for counting the writes of a program\<close>

lemma at_most_Update: "at_most 1 P (Update env obj)"
  unfolding Update_def One_nat_def by (intro at_most_bind_free at_most_api keeps_intro)

lemma at_most_StatusUpdate: "at_most 1 P (StatusUpdate env obj)"
  unfolding StatusUpdate_def One_nat_def by (intro at_most_bind_free at_most_api keeps_intro)

lemma at_most_PatchFinalizersNull: "at_most 1 P (PatchFinalizersNull env k ns nm)"
  unfolding PatchFinalizersNull_def One_nat_def by (intro at_most_bind_free at_most_api keeps_intro)

lemma at_most_Suc_bind:
  "at_most 1 P m \<Longrightarrow> (\<And>x. at_most n P (f x)) \<Longrightarrow> at_most (Suc n) P (State_Monad.bind m f)"
  using at_most_bind [of 1 P m n f] by simp

lemma at_most_read:
  "emits reads_only m \<Longrightarrow> (\<And>x. at_most n is_write_event (f x))
     \<Longrightarrow> at_most n is_write_event (State_Monad.bind m f)"
proof (rule at_most_free_bind)
  assume "emits reads_only m"
  then show "emits (\<lambda>e. \<not> is_write_event e) m"
    by (rule emits_weaken) (metis is_write_event.elims(1) reads_only.simps(1))
qed

lemma reads_Get_as: "emits reads_only (Get_as dec env k ns n)"
  by (intro keeps_intro) simp

lemma reads_List_as: "emits reads_only (List_as dec env k sel)"
  by (intro keeps_intro) simp

lemma reads_Sleep: "emits reads_only (time_Sleep env d)"
  by (intro keeps_intro) simp

lemmas at_most_bind_intro [at_most_intro] =
  at_most_Suc_bind [OF at_most_Update] at_most_Suc_bind [OF at_most_StatusUpdate]
  at_most_Suc_bind [OF at_most_PatchFinalizersNull]
  at_most_read [OF reads_Get_as] at_most_read [OF reads_List_as] at_most_read [OF reads_Sleep]

lemma at_most_if [at_most_intro]: "at_most n P m \<Longrightarrow> at_most n P m' \<Longrightarrow> at_most n P (if b then m else m')"
  by simp

lemma at_most_case_sum [at_most_intro]:
  "(\<And>e. at_most n P (f e)) \<Longrightarrow> (\<And>x. at_most n P (g x)) \<Longrightarrow> at_most n P (case r of Inl e \<Rightarrow> f e | Inr x \<Rightarrow> g x)"
  by (simp split: sum.split)

lemmas at_most_ret' [at_most_intro] = at_most_ret

section \<open>The objects a program writes, and the order of its writes\<close>

type_synonym key = "kind \<times> string \<times> string"

definition key_of :: "kobj \<Rightarrow> key" where
  "key_of obj = (kind_of obj, om_Namespace (meta_of obj), om_Name (meta_of obj))"

fun write_key :: "request \<Rightarrow> key option" where
  "write_key (GetReq _ _ _) = None"
| "write_key (ListReq _ _) = None"
| "write_key (CreateReq obj) = Some (key_of obj)"
| "write_key (UpdateReq obj) = Some (key_of obj)"
| "write_key (StatusUpdateReq obj) = Some (key_of obj)"
| "write_key (DeleteReq k ns n _) = Some (k, ns, n)"
| "write_key (PatchFinalizersNullReq k ns n) = Some (k, ns, n)"

text \<open>\<open>writes_in K\<close>: a call that writes an object writes one with its key in \<open>K\<close>.\<close>

fun writes_in :: "(key \<Rightarrow> bool) \<Rightarrow> event \<Rightarrow> bool" where
  "writes_in K (EApi rq _) = (case write_key rq of None \<Rightarrow> True | Some k \<Rightarrow> K k)"
| "writes_in K _ = True"

lemma writes_in_mono: "writes_in K e \<Longrightarrow> (\<And>k. K k \<Longrightarrow> L k) \<Longrightarrow> writes_in L e"
  by (cases "(K, e)" rule: writes_in.cases) (auto split: option.splits)

fun event_key :: "event \<Rightarrow> key option" where
  "event_key (EApi rq _) = write_key rq"
| "event_key _ = None"

text \<open>
  \<open>ranked r a b m\<close>: the writes of \<open>m\<close>, ranked by \<open>r\<close> on the keys they touch, come in
  increasing order, with ranks between \<open>a\<close> and \<open>b\<close>.
\<close>

definition write_ranks :: "(key \<Rightarrow> nat) \<Rightarrow> event list \<Rightarrow> nat list" where
  "write_ranks r es = map r (List.map_filter event_key es)"

definition ranked :: "(key \<Rightarrow> nat) \<Rightarrow> nat \<Rightarrow> nat \<Rightarrow> ('w, 'a) prog \<Rightarrow> bool" where
  "ranked r a b m \<longleftrightarrow> (\<forall>w. \<exists>es. w_hist (snd (run_state m w)) = w_hist w @ es
     \<and> sorted (write_ranks r es) \<and> (\<forall>x \<in> set (write_ranks r es). a \<le> x \<and> x \<le> b))"

lemma write_ranks_append [simp]: "write_ranks r (es @ fs) = write_ranks r es @ write_ranks r fs"
  by (simp add: write_ranks_def map_filter_def)

lemma ranked_emitted: "ranked r a b m \<Longrightarrow> sorted (write_ranks r (emitted m w))"
  unfolding ranked_def emitted_def by (metis append_eq_conv_conj)

lemma all_equal_sorted: "\<forall>x \<in> set xs. x = (a :: nat) \<Longrightarrow> sorted xs"
  by (induction xs) auto

lemma ranked_level:
  assumes "emits (writes_in (\<lambda>k. r k = a)) m"
  shows "ranked r a a m"
  unfolding ranked_def
proof
  fix w
  obtain es where es: "w_hist (snd (run_state m w)) = w_hist w @ es" "list_all (writes_in (\<lambda>k. r k = a)) es"
    using assms unfolding keeps_def grows_def by blast
  have "event_key e = Some k \<Longrightarrow> writes_in (\<lambda>k. r k = a) e \<Longrightarrow> r k = a" for e k
    by (cases e) auto
  then have all: "\<forall>x \<in> set (write_ranks r es). x = a"
    using es(2) by (force simp: write_ranks_def map_filter_def list_all_iff)
  then have "sorted (write_ranks r es)"
    by (rule all_equal_sorted)
  with es(1) all show "\<exists>es. w_hist (snd (run_state m w)) = w_hist w @ es
      \<and> sorted (write_ranks r es) \<and> (\<forall>x \<in> set (write_ranks r es). a \<le> x \<and> x \<le> a)"
    by (intro exI [of _ es]) auto
qed

lemma ranked_weaken: "ranked r a b m \<Longrightarrow> a' \<le> a \<Longrightarrow> b \<le> b' \<Longrightarrow> ranked r a' b' m"
  unfolding ranked_def by (meson le_trans)

lemma ranked_ret: "ranked r a b (ret x)"
  by (simp add: ranked_def write_ranks_def map_filter_def)

lemma ranked_bind:
  assumes "ranked r a b m" and "\<And>x. x \<in> results m \<Longrightarrow> ranked r b c (f x)" and "a \<le> b" and "b \<le> c"
  shows "ranked r a c (State_Monad.bind m f)"
  unfolding ranked_def
proof
  fix w
  obtain x w1 where m: "run_state m w = (x, w1)" by fastforce
  obtain es where es: "w_hist w1 = w_hist w @ es" "sorted (write_ranks r es)"
      "\<forall>x \<in> set (write_ranks r es). a \<le> x \<and> x \<le> b"
    using assms(1) m unfolding ranked_def by (metis snd_conv)
  obtain fs where fs: "w_hist (snd (run_state (f x) w1)) = w_hist w1 @ fs" "sorted (write_ranks r fs)"
      "\<forall>x \<in> set (write_ranks r fs). b \<le> x \<and> x \<le> c"
    using assms(2) [OF resultsI [OF m]] unfolding ranked_def by blast
  have "sorted (write_ranks r (es @ fs))"
    using es(2,3) fs(2,3) by (auto simp: sorted_append intro: le_trans)
  moreover have "\<forall>x \<in> set (write_ranks r (es @ fs)). a \<le> x \<and> x \<le> c"
    using es(3) fs(3) assms(3,4) by fastforce
  ultimately show "\<exists>es. w_hist (snd (run_state (State_Monad.bind m f) w)) = w_hist w @ es
      \<and> sorted (write_ranks r es) \<and> (\<forall>x \<in> set (write_ranks r es). a \<le> x \<and> x \<le> c)"
    using m es(1) fs(1) by (intro exI [of _ "es @ fs"]) simp
qed

lemma ranked_bindE:
  assumes "ranked r a b m" and "\<And>x. Inr x \<in> results m \<Longrightarrow> ranked r b c (f x)" and "a \<le> b" and "b \<le> c"
  shows "ranked r a c (bindE m f)"
  unfolding bindE_def
  by (rule ranked_bind [OF assms(1) _ assms(3,4)]) (auto simp: ranked_ret assms(2) split: sum.split)

text \<open>The key of what an honest server answers.\<close>

lemma honest_Get:
  assumes "honest env" and "Inr x \<in> results (Get_as dec env k ns n)"
  shows "\<exists>obj. dec obj = Some x \<and> key_of obj = (k, ns, n)"
  using honest_Get_as [OF assms] by (auto simp: has_key_def key_of_def)

lemma honest_decoded:
  assumes "honest env"
  shows "Inr p \<in> results (GetPod env ns n) \<Longrightarrow> key_of (OPod p) = (KPod, ns, n)"
    and "Inr pv \<in> results (GetPV env n) \<Longrightarrow> key_of (OPersistentVolume pv) = (KPersistentVolume, [], n)"
    and "Inr pvc \<in> results (GetPVC env ns n) \<Longrightarrow> key_of (OPersistentVolumeClaim pvc) = (KPersistentVolumeClaim, ns, n)"
    and "Inr rs \<in> results (GetReplicaSet env ns n) \<Longrightarrow> key_of (OReplicaSet rs) = (KReplicaSet, ns, n)"
    and "Inr svc \<in> results (GetService env ns n) \<Longrightarrow> key_of (OService svc) = (KService, ns, n)"
    and "Inr nfs \<in> results (GetNfsServer env ns n) \<Longrightarrow> key_of (ONfsServer nfs) = (KNfsServer, ns, n)"
    and "Inr obj \<in> results (GetObject env k ns n) \<Longrightarrow> key_of obj = (k, ns, n)"
  by (drule honest_Get [OF assms]; auto simp: decoded)+

section \<open>Servers that store objects\<close>

text \<open>
  The documented behaviour of \<open>Get\<close>, \<open>Create\<close> and \<open>Delete\<close> on a store of objects by key, for
  objects without finalizers and with no other client at work; \<open>objs\<close> reads the store off the
  state of the server.
\<close>

definition stores :: "'w env \<Rightarrow> ('w \<Rightarrow> key \<Rightarrow> kobj option) \<Rightarrow> bool" where
  "stores env objs \<longleftrightarrow>
     (\<forall>s k obj. objs s k = Some obj \<longrightarrow> key_of obj = k)
     \<and> (\<forall>s k ns n. e_api env (GetReq k ns n) s =
          (case objs s (k, ns, n) of None \<Rightarrow> RError (NotFound n) | Some obj \<Rightarrow> RObject obj, s))
     \<and> (\<forall>s obj. if objs s (key_of obj) = None
          then fst (e_api env (CreateReq obj) s) = RObject obj
            \<and> objs (snd (e_api env (CreateReq obj) s)) = (objs s)(key_of obj \<mapsto> obj)
          else (\<exists>e. fst (e_api env (CreateReq obj) s) = RError e) \<and> snd (e_api env (CreateReq obj) s) = s)
     \<and> (\<forall>s k ns n. objs s (k, ns, n) \<noteq> None
          \<longrightarrow> fst (e_api env (DeleteReq k ns n None) s) = RDone
            \<and> objs (snd (e_api env (DeleteReq k ns n None) s)) = (objs s)((k, ns, n) := None))"

end
