(* ===== verification/Samples.thy ===== *)
theory Samples
  imports Cluster
begin

text \<open>
  Concrete volumes and environments, used by the theorems that show a hypothesis can hold:
  a volume with a managed server, and an API server over a list of stored objects.
\<close>

definition sample_status :: VolumeStatus where
  "sample_status = \<lparr>Phase = ''Pending'', Message = [], NfsServerAddress = [],
     PersistentVolumeClaimName = [], PersistentVolumeName = [], ServiceName = []\<rparr>"

definition sample_nfs :: NfsServerSpec where
  "sample_nfs = \<lparr>nfs_Name = ''nfs-sv-a1'', nfs_Namespace = ''team'', nfs_URL = [],
     nfs_Image = [], nfs_Path = ''/''\<rparr>"

definition sample_storage :: StorageSpec where
  "sample_storage = \<lparr>st_Capacity = ''1Gi'', st_AccessMode = []\<rparr>"

definition sample_http_source :: VolumeSourceSpec where
  "sample_http_source = \<lparr>src_SSH = None, src_HTTP = Some \<lparr>http_URL = ''http://x/y''\<rparr>,
     src_Git = None, src_S3 = None\<rparr>"

definition sample_spec :: VolumeSpecBase where
  "sample_spec = \<lparr>NfsServer = Some sample_nfs, MountPath = ''/data'', SyncInterval = [],
     SyncTimeout = [], Storage = Some sample_storage, Source = Some sample_http_source,
     StorageClassName = ''std'', ResourceNamespace = ''team'', ReferenceValue = ''sv-a1''\<rparr>"

definition sample_meta :: ObjectMeta where
  "sample_meta = empty_meta\<lparr>om_Name := ''vol'', om_Namespace := ''team''\<rparr>"

definition sample_volume :: VolumeObject where
  "sample_volume = \<lparr>vo_type = SharedVolume, vo_APIVersion = ''sv.sharedvolume.io/v1alpha1'',
     vo_Kind = ''SharedVolume'', vo_Meta = sample_meta, vo_Spec = sample_spec, vo_Status = sample_status\<rparr>"

lemmas sample_volume_simps =
  sample_volume_def sample_spec_def sample_meta_def sample_nfs_def sample_storage_def
  sample_http_source_def sample_status_def empty_meta_def

section \<open>A server that stores objects\<close>

type_synonym store = "kobj list"

definition same_key :: "kobj \<Rightarrow> kobj \<Rightarrow> bool" where
  "same_key a b \<longleftrightarrow> has_key (kind_of a) (om_Namespace (meta_of a)) (om_Name (meta_of a)) b"

fun store_api :: "request \<Rightarrow> store \<Rightarrow> response \<times> store" where
  "store_api (GetReq k ns n) st =
     (case find (has_key k ns n) st of None \<Rightarrow> (RError (NotFound n), st) | Some obj \<Rightarrow> (RObject obj, st))"
| "store_api (ListReq k sel) st = (RObjects (filter (\<lambda>obj. kind_of obj = k \<and> selects sel obj) st), st)"
| "store_api (CreateReq obj) st =
     (if list_ex (same_key obj) st then (RError (OtherApiError ''already exists''), st)
      else (RObject obj, st @ [obj]))"
| "store_api (UpdateReq obj) st =
     (if list_ex (same_key obj) st then (RObject obj, map (\<lambda>x. if same_key obj x then obj else x) st)
      else (RError (NotFound (om_Name (meta_of obj))), st))"
| "store_api (StatusUpdateReq obj) st =
     (if list_ex (same_key obj) st then (RObject obj, map (\<lambda>x. if same_key obj x then obj else x) st)
      else (RError (NotFound (om_Name (meta_of obj))), st))"
| "store_api (DeleteReq k ns n g) st =
     (if list_ex (has_key k ns n) st then (RDone, filter (\<lambda>x. \<not> has_key k ns n x) st)
      else (RError (NotFound n), st))"
| "store_api (PatchFinalizersNullReq k ns n) st =
     (if list_ex (has_key k ns n) st
      then (RDone, map (\<lambda>x. if has_key k ns n x then map_meta (\<lambda>m. m\<lparr>om_Finalizers := []\<rparr>) x else x) st)
      else (RError (NotFound n), st))"

definition store_env :: "store env" where
  "store_env = \<lparr>e_api = store_api, e_post = (\<lambda>u r st. (Inr (200, []), st)), e_now = (\<lambda>st. 0),
     e_sleep = (\<lambda>d st. st), e_rand = (\<lambda>n st. (0, st)), e_ParseQuantity = (\<lambda>s. Inr (Quantity s)),
     e_getenv = (\<lambda>s. []), e_has_APIVersion_accessors = False, e_has_Kind_accessors = False,
     e_GroupVersion = (\<lambda>s. s), e_fuel = 100\<rparr>"

definition world_of :: "'w \<Rightarrow> 'w world" where
  "world_of st = \<lparr>w_srv = st, w_hist = [], w_syncTimers = (\<lambda>_. None), w_initialSyncDone = (\<lambda>_. None),
     w_pending = [], w_nextTimer = 0\<rparr>"

lemma honest_store_env: "honest store_env"
proof -
  have "find (has_key k ns n) st = Some obj \<Longrightarrow> has_key k ns n obj" for k ns n st obj
    by (auto simp: find_Some_iff)
  moreover have "has_key (kind_of obj) (om_Namespace (meta_of obj)) (om_Name (meta_of obj)) obj" for obj
    by (simp add: has_key_def)
  ultimately show ?thesis
    unfolding honest_def store_env_def
    by (auto split: option.splits if_splits)
qed

text \<open>The store by key.\<close>

definition store_objs :: "store \<Rightarrow> key \<Rightarrow> kobj option" where
  "store_objs st = (\<lambda>(k, ns, n). find (has_key k ns n) st)"

lemma has_key_key_of: "has_key k ns n obj \<longleftrightarrow> key_of obj = (k, ns, n)"
  by (auto simp: has_key_def key_of_def)

lemma store_objs_find: "store_objs st k = find (\<lambda>x. key_of x = k) st"
proof -
  have "has_key a b c = (\<lambda>x. key_of x = (a, b, c))" for a b c
    by (simp add: fun_eq_iff has_key_key_of)
  then show ?thesis
    by (cases k) (simp add: store_objs_def)
qed

lemma find_append: "find P (xs @ ys) = (case find P xs of None \<Rightarrow> find P ys | Some x \<Rightarrow> Some x)"
  by (induction xs) auto

lemma find_filter_key: "find (\<lambda>x. key_of x = k') (filter (\<lambda>x. key_of x \<noteq> k) st) =
    (if k' = k then None else find (\<lambda>x. key_of x = k') st)"
  by (induction st) auto

lemma store_objs_stores: "stores store_env store_objs"
proof -
  have found: "store_objs st k \<noteq> None \<longleftrightarrow> list_ex (\<lambda>x. key_of x = k) st" for st k
    by (auto simp: store_objs_find find_None_iff list_ex_iff)
  have key: "store_objs st k = Some obj \<Longrightarrow> key_of obj = k" for st k obj
    by (auto simp: store_objs_find find_Some_iff)
  have same: "same_key a b \<longleftrightarrow> key_of b = key_of a" for a b
    by (simp add: same_key_def has_key_key_of) (simp add: key_of_def)
  have create: "store_objs (st @ [obj]) = (store_objs st)(key_of obj \<mapsto> obj)" if "store_objs st (key_of obj) = None" for st obj
    using that by (auto simp: fun_eq_iff store_objs_find find_append split: option.split)
  have delete: "store_objs (filter (\<lambda>x. \<not> has_key k ns n x) st) = (store_objs st)((k, ns, n) := None)" for st k ns n
    by (auto simp: fun_eq_iff store_objs_find has_key_key_of find_filter_key)
  have get: "store_api (GetReq k ns n) st =
      (case store_objs st (k, ns, n) of None \<Rightarrow> RError (NotFound n) | Some obj \<Rightarrow> RObject obj, st)" for k ns n st
    by (simp add: store_objs_def split: option.split)
  have ex: "list_ex (same_key obj) st \<longleftrightarrow> store_objs st (key_of obj) \<noteq> None"
    "list_ex (has_key k ns n) st \<longleftrightarrow> store_objs st (k, ns, n) \<noteq> None" for obj st k ns n
    unfolding found by (simp_all add: same has_key_key_of list_ex_iff)
  show ?thesis
    unfolding stores_def store_env_def using key get by (auto simp: ex create delete)
qed

lemmas store_simps = has_key_def same_key_def store_env_def world_of_def

end
