(* ===== verification/Volume_Status.thy ===== *)
theory Volume_Status
  imports Validation Samples
begin

text \<open>
  The pure part of \<open>VolumeControllerBase\<close> (volume_controller_base.go): defaults and
  validation of the specification, the choice between an external and a managed NFS server,
  its address, and the status fields. A method that changes the volume it is given returns
  the changed volume.
\<close>

section \<open>Operations\<close>

text \<open>\<open>FillAndValidateSpec\<close>: the filled volume, with an error where the code returns one.\<close>

definition fill_namespace :: "string \<Rightarrow> VolumeSpecBase \<Rightarrow> VolumeSpecBase" where
  "fill_namespace namespace spec =
     (if ResourceNamespace spec = [] then spec\<lparr>ResourceNamespace := namespace\<rparr> else spec)"

definition fill_sync :: "VolumeSpecBase \<Rightarrow> VolumeSpecBase" where
  "fill_sync spec =
     (if Source spec \<noteq> None then
        (let spec = (if SyncInterval spec = [] then spec\<lparr>SyncInterval := ''60s''\<rparr> else spec)
         in if SyncTimeout spec = [] then spec\<lparr>SyncTimeout := ''120s''\<rparr> else spec)
      else spec)"

definition fill_nfs_path :: "bool \<Rightarrow> VolumeSpecBase \<Rightarrow> VolumeSpecBase" where
  "fill_nfs_path generateNfsServer spec =
     (case NfsServer spec of
        None \<Rightarrow> spec
      | Some nfs \<Rightarrow>
          if \<not> generateNfsServer \<and> nfs_Path nfs = []
          then spec\<lparr>NfsServer := Some (nfs\<lparr>nfs_Path := ''/''\<rparr>)\<rparr> else spec)"

definition FillAndValidateSpec :: "VolumeObject \<Rightarrow> bool \<Rightarrow> string \<Rightarrow> VolumeObject \<times> error option" where
  "FillAndValidateSpec v generateNfsServer namespace =
     (let spec = fill_namespace namespace (GetVolumeSpec v)
      in if MountPath spec = [] then (set_spec spec v, Some (Errorf ''mountPath is required in volume spec''))
         else
      let spec = fill_sync spec
      in case Storage spec of
        None \<Rightarrow> (set_spec spec v, Some (Errorf ''storage is required in volume spec''))
      | Some st \<Rightarrow>
          if st_Capacity st = []
          then (set_spec spec v, Some (Errorf ''storage.capacity is required in volume spec''))
          else if st_AccessMode st \<noteq> [] \<and> st_AccessMode st \<noteq> ''ReadWrite'' \<and> st_AccessMode st \<noteq> ''ReadOnly''
          then (set_spec spec v,
                Some (Errorf ''storage.accessMode must be either ReadWrite or ReadOnly in volume spec''))
          else
      let spec = (if st_AccessMode st = []
                  then spec\<lparr>Storage := Some (st\<lparr>st_AccessMode := ''ReadOnly''\<rparr>)\<rparr> else spec)
      in if generateNfsServer \<and> StorageClassName spec = []
         then (set_spec spec v, Some (Errorf ''storageClassName is required if nfsServer is not defined''))
         else (set_spec (fill_nfs_path generateNfsServer spec) v, None))"

definition IsExternalNfsServer :: "NfsServerSpec option \<Rightarrow> bool" where
  "IsExternalNfsServer nfsServerSpec =
     (case nfsServerSpec of
        None \<Rightarrow> False
      | Some nfs \<Rightarrow>
          if nfs_URL nfs \<noteq> [] \<and> nfs_Name nfs = [] then True
          else if nfs_URL nfs \<noteq> [] \<and> nfs_Name nfs \<noteq> []
            \<and> (strings_Contains (nfs_Name nfs) ''.'' \<or> nfs_Name nfs = nfs_URL nfs) then True
          else if nfs_URL nfs \<noteq> []
            \<and> (strings_Contains (nfs_URL nfs) ''.svc.cluster.local''
               \<or> strings_Contains (nfs_URL nfs) ''.''
               \<or> count_list (nfs_URL nfs) CHR ''.'' \<ge> 2)
            \<and> (nfs_Name nfs = [] \<or> \<not> strings_HasPrefix (nfs_Name nfs) ''nfs-'') then True
          else False)"

definition GetManagedNfsServerAddress :: "VolumeObject \<Rightarrow> NfsServerSpec \<Rightarrow> string" where
  "GetManagedNfsServerAddress v nfs =
     (let nfsNamespace = GetNamespace v;
          nfsNamespace = (if nfs_Namespace nfs \<noteq> [] then nfs_Namespace nfs else nfsNamespace);
          nfsNamespace = (if nfsNamespace = [] \<and> vo_type v = ClusterSharedVolume
                          then ''shared-volume-controller'' else nfsNamespace)
      in if nfs_Name nfs \<noteq> [] \<and> nfsNamespace \<noteq> []
         then nfs_Name nfs @ ''.'' @ nfsNamespace @ ''.svc.cluster.local'' else [])"

definition UpdateVolumeStatusSimple :: "VolumeObject \<Rightarrow> string \<Rightarrow> string \<Rightarrow> VolumeObject \<times> bool" where
  "UpdateVolumeStatusSimple v phase message =
     (let (v, changed) = (if GetPhase v \<noteq> phase then (SetPhase phase v, True) else (v, False))
      in if GetMessage v \<noteq> message then (SetMessage message v, True) else (v, changed))"

definition UpdateVolumeStatus :: "VolumeObject \<Rightarrow> bool \<Rightarrow> string \<Rightarrow> string \<Rightarrow> VolumeObject \<times> bool" where
  "UpdateVolumeStatus v nfsReady phase message =
     (let (v, changed) =
            (if phase \<noteq> [] \<and> GetPhase v \<noteq> phase then (SetPhase phase v, True) else (v, False));
          (v, changed) = (if GetMessage v \<noteq> message then (SetMessage message v, True) else (v, changed));
          spec = GetVolumeSpec v
      in case NfsServer spec of
        None \<Rightarrow> (v, changed)
      | Some nfs \<Rightarrow>
          if nfsReady \<and> GetNfsServerAddress v = [] then
            (if IsExternalNfsServer (Some nfs) then
               (if nfs_URL nfs \<noteq> [] then (SetNfsServerAddress (nfs_URL nfs) v, True) else (v, changed))
             else if nfs_Name nfs \<noteq> [] then
               (let address = GetManagedNfsServerAddress v nfs
                in if address \<noteq> []
                   then (set_spec (spec\<lparr>NfsServer := Some (nfs\<lparr>nfs_URL := address\<rparr>)\<rparr>)
                           (SetNfsServerAddress address v), True)
                   else (v, changed))
             else (v, changed))
          else (v, changed))"

definition DeterminePhase :: "bool \<Rightarrow> bool \<Rightarrow> string" where
  "DeterminePhase nfsReady replicaSetReady =
     (if nfsReady \<and> replicaSetReady then ''Ready''
      else if nfsReady \<and> \<not> replicaSetReady then ''Preparing''
      else ''Pending'')"

definition ShouldUpdateReadinessStatus :: "VolumeObject \<Rightarrow> bool \<Rightarrow> bool \<Rightarrow> bool" where
  "ShouldUpdateReadinessStatus v nfsReady replicaSetReady =
     (if GetPhase v \<noteq> DeterminePhase nfsReady replicaSetReady then True
      else case NfsServer (GetVolumeSpec v) of
        None \<Rightarrow> False
      | Some nfs \<Rightarrow>
          if nfsReady then
            (if GetNfsServerAddress v = [] then True
             else if \<not> IsExternalNfsServer (Some nfs)
               \<and> GetManagedNfsServerAddress v nfs \<noteq> []
               \<and> GetNfsServerAddress v \<noteq> GetManagedNfsServerAddress v nfs then True
             else False)
          else False)"

text \<open>
  The status update that \<open>UpdateReadinessStatus\<close> applies to the latest object: phase and
  message, then the address of a ready server that has none yet.
\<close>

definition readiness_message :: "bool \<Rightarrow> string \<Rightarrow> VolumeObject \<Rightarrow> VolumeObject" where
  "readiness_message nfsReady phase v =
     (if phase = ''Ready'' then SetMessage ''Volume is ready for use'' v
      else if phase = ''Preparing''
        then SetMessage ''NFS server is ready, waiting for ReplicaSet to be ready'' v
      else if phase = ''Pending'' then
        (if \<not> nfsReady then SetMessage ''Waiting for NFS server to be ready'' v
         else SetMessage ''Waiting for resources to be ready'' v)
      else v)"

definition record_address :: "VolumeSpecBase \<Rightarrow> bool \<Rightarrow> VolumeObject \<Rightarrow> VolumeObject" where
  "record_address spec nfsReady v =
     (case NfsServer spec of
        None \<Rightarrow> v
      | Some nfs \<Rightarrow>
          if nfsReady \<and> GetNfsServerAddress v = [] then
            (if IsExternalNfsServer (Some nfs) then
               (if nfs_URL nfs \<noteq> [] then SetNfsServerAddress (nfs_URL nfs) v else v)
             else if nfs_Name nfs \<noteq> [] then
               (let address = GetManagedNfsServerAddress v nfs
                in if address \<noteq> [] then SetNfsServerAddress address v else v)
             else v)
          else v)"

definition readiness_update :: "VolumeSpecBase \<Rightarrow> bool \<Rightarrow> string \<Rightarrow> VolumeObject \<Rightarrow> VolumeObject" where
  "readiness_update spec nfsReady phase v =
     record_address spec nfsReady (readiness_message nfsReady phase (SetPhase phase v))"

fun ContainsString :: "string list \<Rightarrow> string \<Rightarrow> bool" where
  "ContainsString [] s = False"
| "ContainsString (item # items) s = (if item = s then True else ContainsString items s)"

fun RemoveString :: "string list \<Rightarrow> string \<Rightarrow> string list" where
  "RemoveString [] s = []"
| "RemoveString (item # items) s =
     (if item \<noteq> s then item # RemoveString items s else RemoveString items s)"

text \<open>
  \<open>EnsureAPIVersionAndKind\<close> sets the fields only for a dynamic type that has the accessor
  methods it asks for; whether the volume types inherit such methods from the embedded
  \<open>metav1.TypeMeta\<close> is a fact about apimachinery, hence part of the environment.
\<close>

definition EnsureAPIVersionAndKind :: "'w env \<Rightarrow> VolumeObject \<Rightarrow> string \<Rightarrow> string \<Rightarrow> VolumeObject" where
  "EnsureAPIVersionAndKind env v apiVersion kind =
     (let v = (if e_has_APIVersion_accessors env \<and> vo_APIVersion v = [] then v\<lparr>vo_APIVersion := apiVersion\<rparr> else v)
      in if e_has_Kind_accessors env \<and> vo_Kind v = [] then v\<lparr>vo_Kind := kind\<rparr> else v)"

section \<open>Facts\<close>

lemma ContainsString_iff [simp]: "ContainsString xs s \<longleftrightarrow> s \<in> set xs"
  by (induction xs) auto

lemma RemoveString_filter [simp]: "RemoveString xs s = filter (\<lambda>x. x \<noteq> s) xs"
  by (induction xs) auto

lemma IsExternalNfsServer_None [simp]: "IsExternalNfsServer None = False"
  by (simp add: IsExternalNfsServer_def)

lemma IsExternalNfsServer_Some:
  "IsExternalNfsServer (Some nfs) \<longleftrightarrow>
     nfs_URL nfs \<noteq> []
     \<and> (nfs_Name nfs = [] \<or> CHR ''.'' \<in> set (nfs_Name nfs) \<or> nfs_Name nfs = nfs_URL nfs
        \<or> (CHR ''.'' \<in> set (nfs_URL nfs) \<and> \<not> strings_HasPrefix (nfs_Name nfs) ''nfs-''))"
proof -
  have dot: "strings_Contains u ''.svc.cluster.local'' \<Longrightarrow> CHR ''.'' \<in> set u" for u
    by (auto simp: strings_Contains_iff)
  have two: "2 \<le> count_list u CHR ''.'' \<Longrightarrow> CHR ''.'' \<in> set u" for u
    by (metis count_notin not_numeral_le_zero)
  show ?thesis
    by (auto simp: IsExternalNfsServer_def strings_Contains_char dest: dot two)
qed

lemma DeterminePhase_Ready [simp]: "DeterminePhase n r = ''Ready'' \<longleftrightarrow> n \<and> r"
  by (simp add: DeterminePhase_def)

lemma setters_frame [simp]:
  "vo_Spec (SetPhase p v) = vo_Spec v" "vo_Meta (SetPhase p v) = vo_Meta v" "vo_type (SetPhase p v) = vo_type v"
  "vo_Spec (SetMessage p v) = vo_Spec v" "vo_Meta (SetMessage p v) = vo_Meta v" "vo_type (SetMessage p v) = vo_type v"
  "vo_Spec (SetNfsServerAddress p v) = vo_Spec v" "vo_Meta (SetNfsServerAddress p v) = vo_Meta v"
  "vo_type (SetNfsServerAddress p v) = vo_type v"
  by (simp_all add: volume_accessors)

lemma setters_getters [simp]:
  "GetPhase (SetPhase p v) = p" "GetPhase (SetMessage m v) = GetPhase v"
  "GetPhase (SetNfsServerAddress a v) = GetPhase v"
  "GetMessage (SetMessage m v) = m" "GetMessage (SetPhase p v) = GetMessage v"
  "GetMessage (SetNfsServerAddress a v) = GetMessage v"
  "GetNfsServerAddress (SetNfsServerAddress a v) = a" "GetNfsServerAddress (SetPhase p v) = GetNfsServerAddress v"
  "GetNfsServerAddress (SetMessage m v) = GetNfsServerAddress v"
  by (simp_all add: volume_accessors)

lemma readiness_message_frame [simp]:
  "vo_Spec (readiness_message n p v) = vo_Spec v"
  "vo_Meta (readiness_message n p v) = vo_Meta v"
  "vo_type (readiness_message n p v) = vo_type v"
  "GetPhase (readiness_message n p v) = GetPhase v"
  "GetNfsServerAddress (readiness_message n p v) = GetNfsServerAddress v"
  unfolding readiness_message_def by simp_all

lemma record_address_frame [simp]:
  "vo_Spec (record_address spec n v) = vo_Spec v"
  "vo_Meta (record_address spec n v) = vo_Meta v"
  "vo_type (record_address spec n v) = vo_type v"
  "GetPhase (record_address spec n v) = GetPhase v"
  by (simp_all add: record_address_def Let_def split: option.split)

lemma readiness_update_phase [simp]: "GetPhase (readiness_update spec n p v) = p"
  by (simp add: readiness_update_def)

lemma readiness_update_frame [simp]:
  "vo_Spec (readiness_update spec n p v) = vo_Spec v"
  "vo_Meta (readiness_update spec n p v) = vo_Meta v"
  "vo_type (readiness_update spec n p v) = vo_type v"
  by (simp_all add: readiness_update_def)

text \<open>The address a ready server should get, and the convergence of the status update.\<close>

definition desired_address :: "VolumeObject \<Rightarrow> NfsServerSpec \<Rightarrow> string" where
  "desired_address v nfs =
     (if IsExternalNfsServer (Some nfs) then nfs_URL nfs else GetManagedNfsServerAddress v nfs)"

lemma GetManagedNfsServerAddress_cong:
  "vo_type v = vo_type u \<Longrightarrow> GetNamespace v = GetNamespace u
     \<Longrightarrow> GetManagedNfsServerAddress v nfs = GetManagedNfsServerAddress u nfs"
  by (simp add: GetManagedNfsServerAddress_def)

lemma GetManagedNfsServerAddress_name: "GetManagedNfsServerAddress v nfs \<noteq> [] \<Longrightarrow> nfs_Name nfs \<noteq> []"
  by (auto simp: GetManagedNfsServerAddress_def Let_def split: if_splits)

lemma desired_address_readiness [simp]:
  "desired_address (readiness_update spec n p v) nfs = desired_address v nfs"
  by (simp add: desired_address_def cong: GetManagedNfsServerAddress_cong)

lemma desired_address_message [simp]:
  "desired_address (readiness_message n p (SetPhase q v)) nfs = desired_address v nfs"
  by (simp add: desired_address_def cong: GetManagedNfsServerAddress_cong)

lemma record_address_address:
  "GetNfsServerAddress (record_address spec n v) =
     (case NfsServer spec of
        None \<Rightarrow> GetNfsServerAddress v
      | Some nfs \<Rightarrow>
          if n \<and> GetNfsServerAddress v = [] then desired_address v nfs else GetNfsServerAddress v)"
proof -
  have "IsExternalNfsServer (Some nfs) \<Longrightarrow> nfs_URL nfs \<noteq> []" for nfs
    by (simp add: IsExternalNfsServer_Some)
  moreover have "nfs_Name nfs = [] \<Longrightarrow> GetManagedNfsServerAddress v nfs = []" for nfs
    using GetManagedNfsServerAddress_name by blast
  ultimately show ?thesis
    by (simp add: record_address_def desired_address_def Let_def split: option.split)
qed

lemma readiness_update_address:
  "GetNfsServerAddress (readiness_update spec n p v) =
     (case NfsServer spec of
        None \<Rightarrow> GetNfsServerAddress v
      | Some nfs \<Rightarrow>
          if n \<and> GetNfsServerAddress v = [] then desired_address v nfs else GetNfsServerAddress v)"
  by (auto simp: readiness_update_def record_address_address split: option.split)

text \<open>
  The readiness update converges: once \<open>UpdateReadinessStatus\<close> has written phase and
  address for the observed readiness, \<open>ShouldUpdateReadinessStatus\<close> asks for no further update
  with the same readiness, provided a ready server has an address to record and the volume had
  none or the right one.
\<close>

theorem readiness_update_converges:
  assumes "\<And>nfs. nfsReady \<Longrightarrow> NfsServer (vo_Spec v) = Some nfs \<Longrightarrow>
    desired_address v nfs \<noteq> [] \<and> GetNfsServerAddress v \<in> {[], desired_address v nfs}"
  shows "\<not> ShouldUpdateReadinessStatus
    (readiness_update (vo_Spec v) nfsReady (DeterminePhase nfsReady rsReady) v) nfsReady rsReady"
proof (cases "NfsServer (vo_Spec v)")
  case None
  then show ?thesis by (simp add: ShouldUpdateReadinessStatus_def GetVolumeSpec_def)
next
  case (Some nfs)
  let ?v = "readiness_update (vo_Spec v) nfsReady (DeterminePhase nfsReady rsReady) v"
  have addr: "nfsReady \<Longrightarrow> GetNfsServerAddress ?v = desired_address ?v nfs \<and> desired_address ?v nfs \<noteq> []"
    using assms [OF _ Some] Some by (auto simp: readiness_update_address)
  show ?thesis
    using addr Some by (auto simp: ShouldUpdateReadinessStatus_def GetVolumeSpec_def desired_address_def)
qed

theorem readiness_update_converges_witness:
  "\<not> ShouldUpdateReadinessStatus
    (readiness_update (vo_Spec sample_volume) True (DeterminePhase True True) sample_volume) True True"
  by (rule readiness_update_converges)
     (simp add: sample_volume_simps desired_address_def IsExternalNfsServer_Some
       GetManagedNfsServerAddress_def GetNfsServerAddress_def)

text \<open>
  A recorded address that differs from the one of the managed server is reported as stale on
  every pass but never repaired: the update leaves it as it is, so the next pass asks again.
\<close>

theorem stale_address_never_repaired:
  assumes "NfsServer (vo_Spec v) = Some nfs" and "\<not> IsExternalNfsServer (Some nfs)"
    and "GetManagedNfsServerAddress v nfs \<noteq> []"
    and "GetNfsServerAddress v \<noteq> []" and "GetNfsServerAddress v \<noteq> GetManagedNfsServerAddress v nfs"
  shows "let v' = readiness_update (vo_Spec v) True (DeterminePhase True rsReady) v
    in GetNfsServerAddress v' = GetNfsServerAddress v \<and> ShouldUpdateReadinessStatus v' True rsReady"
proof -
  let ?v = "readiness_update (vo_Spec v) True (DeterminePhase True rsReady) v"
  have addr: "GetNfsServerAddress ?v = GetNfsServerAddress v"
    using assms by (simp add: readiness_update_address)
  have "GetManagedNfsServerAddress ?v nfs = GetManagedNfsServerAddress v nfs"
    by (simp cong: GetManagedNfsServerAddress_cong)
  with addr assms show ?thesis
    by (simp add: Let_def ShouldUpdateReadinessStatus_def GetVolumeSpec_def)
qed

text \<open>A volume whose recorded address is not the one of its server.\<close>

definition stale_volume :: VolumeObject where
  "stale_volume = SetNfsServerAddress ''old'' sample_volume"

theorem stale_address_never_repaired_witness:
  "let v' = readiness_update (vo_Spec stale_volume) True (DeterminePhase True True) stale_volume
   in GetNfsServerAddress v' = GetNfsServerAddress stale_volume \<and> ShouldUpdateReadinessStatus v' True True"
  by (rule stale_address_never_repaired [where nfs = sample_nfs])
     (simp_all add: stale_volume_def sample_volume_simps IsExternalNfsServer_Some
       GetManagedNfsServerAddress_def volume_accessors)

section \<open>Filling the specification\<close>

lemma FillAndValidateSpec_ok_iff:
  "snd (FillAndValidateSpec v g ns) = None \<longleftrightarrow>
     MountPath (vo_Spec v) \<noteq> [] \<and> (g \<longrightarrow> StorageClassName (vo_Spec v) \<noteq> [])
     \<and> (case Storage (vo_Spec v) of None \<Rightarrow> False
        | Some st \<Rightarrow> st_Capacity st \<noteq> [] \<and> st_AccessMode st \<in> {[], ''ReadWrite'', ''ReadOnly''})"
  by (auto simp: FillAndValidateSpec_def fill_namespace_def fill_sync_def GetVolumeSpec_def Let_def
      split: option.split)

text \<open>What a filled specification looks like.\<close>

definition filled :: "bool \<Rightarrow> VolumeSpecBase \<Rightarrow> bool" where
  "filled generateNfsServer spec \<longleftrightarrow>
     MountPath spec \<noteq> [] \<and> (generateNfsServer \<longrightarrow> StorageClassName spec \<noteq> [])
     \<and> (Source spec \<noteq> None \<longrightarrow> SyncInterval spec \<noteq> [] \<and> SyncTimeout spec \<noteq> [])
     \<and> (\<exists>st. Storage spec = Some st \<and> st_Capacity st \<noteq> [] \<and> st_AccessMode st \<in> {''ReadWrite'', ''ReadOnly''})
     \<and> (\<not> generateNfsServer \<longrightarrow> (\<forall>nfs. NfsServer spec = Some nfs \<longrightarrow> nfs_Path nfs \<noteq> []))"

definition fill_storage :: "StorageSpec \<Rightarrow> StorageSpec" where
  "fill_storage st = (if st_AccessMode st = [] then st\<lparr>st_AccessMode := ''ReadOnly''\<rparr> else st)"

lemma fill_fields [simp]:
  "MountPath (fill_namespace ns s) = MountPath s" "Storage (fill_namespace ns s) = Storage s"
  "Source (fill_namespace ns s) = Source s" "StorageClassName (fill_namespace ns s) = StorageClassName s"
  "NfsServer (fill_namespace ns s) = NfsServer s" "ReferenceValue (fill_namespace ns s) = ReferenceValue s"
  "MountPath (fill_sync s) = MountPath s" "Storage (fill_sync s) = Storage s"
  "Source (fill_sync s) = Source s" "StorageClassName (fill_sync s) = StorageClassName s"
  "NfsServer (fill_sync s) = NfsServer s" "ReferenceValue (fill_sync s) = ReferenceValue s"
  "ResourceNamespace (fill_sync s) = ResourceNamespace s"
  "MountPath (fill_nfs_path g s) = MountPath s" "Storage (fill_nfs_path g s) = Storage s"
  "Source (fill_nfs_path g s) = Source s" "StorageClassName (fill_nfs_path g s) = StorageClassName s"
  "ReferenceValue (fill_nfs_path g s) = ReferenceValue s"
  "ResourceNamespace (fill_nfs_path g s) = ResourceNamespace s"
  "SyncInterval (fill_nfs_path g s) = SyncInterval s" "SyncTimeout (fill_nfs_path g s) = SyncTimeout s"
  by (simp_all add: fill_namespace_def fill_sync_def fill_nfs_path_def Let_def split: option.split)

text \<open>The result of a successful run, in one expression.\<close>

definition filled_spec :: "bool \<Rightarrow> string \<Rightarrow> VolumeSpecBase \<Rightarrow> VolumeSpecBase" where
  "filled_spec g ns spec =
     fill_nfs_path g ((fill_sync (fill_namespace ns spec))\<lparr>Storage := map_option fill_storage (Storage spec)\<rparr>)"

lemma FillAndValidateSpec_ok:
  assumes "snd (FillAndValidateSpec v g ns) = None"
  shows "FillAndValidateSpec v g ns = (set_spec (filled_spec g ns (vo_Spec v)) v, None)"
proof -
  from assms obtain st where st: "Storage (vo_Spec v) = Some st" "st_Capacity st \<noteq> []"
    "\<not> (st_AccessMode st \<noteq> [] \<and> st_AccessMode st \<noteq> ''ReadWrite'' \<and> st_AccessMode st \<noteq> ''ReadOnly'')"
    and ok: "MountPath (vo_Spec v) \<noteq> []" "\<not> (g \<and> StorageClassName (vo_Spec v) = [])"
    by (auto simp: FillAndValidateSpec_ok_iff split: option.splits)
  let ?s = "fill_sync (fill_namespace ns (vo_Spec v))"
  have "?s = ?s\<lparr>Storage := Some st\<rparr>"
    using st(1) by (intro VolumeSpecBase.equality) simp_all
  then have "(if st_AccessMode st = [] then ?s\<lparr>Storage := Some (st\<lparr>st_AccessMode := ''ReadOnly''\<rparr>)\<rparr> else ?s) =
      ?s\<lparr>Storage := Some (fill_storage st)\<rparr>"
    by (simp add: fill_storage_def)
  with st ok show ?thesis
    unfolding FillAndValidateSpec_def filled_spec_def GetVolumeSpec_def Let_def by simp
qed

text \<open>What filling does to the key of a volume, whether it succeeds or not.\<close>

lemma FillAndValidateSpec_keeps:
  fixes v g ns
  defines "u \<equiv> fst (FillAndValidateSpec v g ns)"
  shows "vo_type u = vo_type v" "GetName u = GetName v" "GetNamespace u = GetNamespace v"
    "ResourceNamespace (vo_Spec u) = (if ResourceNamespace (vo_Spec v) = [] then ns else ResourceNamespace (vo_Spec v))"
  unfolding u_def FillAndValidateSpec_def GetVolumeSpec_def
  by (auto simp: Let_def fill_namespace_def fill_sync_def fill_nfs_path_def split: option.split)

lemma fill_namespace_idem: "fill_namespace ns (fill_namespace ns s) = fill_namespace ns s"
  by (simp add: fill_namespace_def)

lemma fill_storage_idem: "fill_storage (fill_storage st) = fill_storage st"
  by (simp add: fill_storage_def)

lemma filled_spec_sync:
  "SyncInterval (filled_spec g ns s) =
     (if Source s \<noteq> None \<and> SyncInterval s = [] then ''60s'' else SyncInterval s)"
  "SyncTimeout (filled_spec g ns s) =
     (if Source s \<noteq> None \<and> SyncTimeout s = [] then ''120s'' else SyncTimeout s)"
  by (simp_all add: filled_spec_def fill_sync_def fill_namespace_def Let_def)

lemma filled_spec_fields [simp]:
  "MountPath (filled_spec g ns s) = MountPath s" "Source (filled_spec g ns s) = Source s"
  "StorageClassName (filled_spec g ns s) = StorageClassName s"
  "ReferenceValue (filled_spec g ns s) = ReferenceValue s"
  "Storage (filled_spec g ns s) = map_option fill_storage (Storage s)"
  "ResourceNamespace (filled_spec g ns s) = (if ResourceNamespace s = [] then ns else ResourceNamespace s)"
  by (simp_all add: filled_spec_def) (simp add: fill_namespace_def)

definition fill_path :: "NfsServerSpec \<Rightarrow> NfsServerSpec" where
  "fill_path n = (if nfs_Path n = [] then n\<lparr>nfs_Path := ''/''\<rparr> else n)"

lemma fill_path_facts: "nfs_Path (fill_path n) \<noteq> []" "fill_path (fill_path n) = fill_path n"
  by (simp_all add: fill_path_def)

lemma filled_spec_nfs:
  "NfsServer (filled_spec g ns s) = (if g then NfsServer s else map_option fill_path (NfsServer s))"
  by (auto simp: filled_spec_def fill_nfs_path_def fill_path_def split: option.split)

lemma filled_spec_idem: "filled_spec g ns (filled_spec g ns s) = filled_spec g ns s"
  by (rule VolumeSpecBase.equality)
     (simp_all add: filled_spec_nfs filled_spec_sync option.map_comp comp_def fill_path_facts fill_storage_idem)

text \<open>
  C28. Filling succeeds exactly on a specification with a mount path, a storage capacity, a
  known or missing access mode, and a storage class when a server must be generated; the
  result is completely filled, and filling it again changes nothing. There is no default for a
  missing storage or capacity, and none for the storage class of a generated server, although a
  sample and the API reference of the repository promise them.
\<close>

theorem FillAndValidateSpec_correct:
  "(snd (FillAndValidateSpec v g ns) = None \<longleftrightarrow>
      MountPath (vo_Spec v) \<noteq> [] \<and> (g \<longrightarrow> StorageClassName (vo_Spec v) \<noteq> [])
      \<and> (case Storage (vo_Spec v) of None \<Rightarrow> False
         | Some st \<Rightarrow> st_Capacity st \<noteq> [] \<and> st_AccessMode st \<in> {[], ''ReadWrite'', ''ReadOnly''}))
   \<and> (snd (FillAndValidateSpec v g ns) = None \<longrightarrow>
        filled g (vo_Spec (fst (FillAndValidateSpec v g ns)))
        \<and> FillAndValidateSpec (fst (FillAndValidateSpec v g ns)) g ns = (fst (FillAndValidateSpec v g ns), None))"
proof (intro conjI impI)
  assume ok: "snd (FillAndValidateSpec v g ns) = None"
  let ?v = "set_spec (filled_spec g ns (vo_Spec v)) v"
  from ok obtain st where st: "Storage (vo_Spec v) = Some st" "st_Capacity st \<noteq> []"
    "st_AccessMode st \<in> {[], ''ReadWrite'', ''ReadOnly''}"
    by (auto simp: FillAndValidateSpec_ok_iff split: option.splits)
  have "filled g (vo_Spec ?v)"
    using ok st by (auto simp: filled_def FillAndValidateSpec_ok_iff filled_spec_sync filled_spec_nfs
        fill_storage_def fill_path_facts)
  then show "filled g (vo_Spec (fst (FillAndValidateSpec v g ns)))"
    by (simp add: FillAndValidateSpec_ok [OF ok])
  have "snd (FillAndValidateSpec ?v g ns) = None"
    using ok st by (auto simp: FillAndValidateSpec_ok_iff fill_storage_def)
  then show "FillAndValidateSpec (fst (FillAndValidateSpec v g ns)) g ns = (fst (FillAndValidateSpec v g ns), None)"
    using FillAndValidateSpec_ok [of ?v g ns] by (simp add: FillAndValidateSpec_ok [OF ok] filled_spec_idem)
qed (rule FillAndValidateSpec_ok_iff)

theorem FillAndValidateSpec_correct_witness:
  "filled True (vo_Spec (fst (FillAndValidateSpec sample_volume True ''team'')))"
proof -
  have "snd (FillAndValidateSpec sample_volume True ''team'') = None"
    by (simp add: FillAndValidateSpec_ok_iff sample_volume_simps)
  then show ?thesis
    using FillAndValidateSpec_correct [of sample_volume True "''team''"] by blast
qed

section \<open>The controller's defaults against the update webhook\<close>

lemma fill_storage_admitted:
  "compareStorageSpecsWithDefaults s (map_option fill_storage s)"
  by (cases s) (simp_all add: compareStorageSpecsWithDefaults_def fill_storage_def)

lemma fill_nfs_admitted:
  "compareNfsServerSpecsWithDefaults s s" "compareNfsServerSpecsWithDefaults s (map_option fill_path s)"
  by (cases s; simp add: compareNfsServerSpecsWithDefaults_def fill_path_def)+

text \<open>
  C29. Of an admitted volume, the specification the controller fills in is an admissible update
  exactly when the filled sync settings pass the rule on interval and timeout; every other
  default is allowed for by the update webhook.
\<close>

theorem filled_spec_update_iff:
  assumes "ValidateCreate t (OVolume v) = Inr ()" and "FillAndValidateSpec v g ns = (v', None)"
  shows "ValidateUpdate t (OVolume v) (OVolume v') = Inr () \<longleftrightarrow> sync_ok (vo_Spec v')"
proof -
  have v': "v' = set_spec (filled_spec g ns (vo_Spec v)) v"
    using FillAndValidateSpec_ok [of v g ns] assms(2) by simp
  from assms(1) have "vo_type v = t" "spec_ok t (vo_Spec v)"
    by (simp_all add: ValidateCreate_cases split: if_splits)
  then show ?thesis
    by (simp add: v' ValidateUpdate_iff updateErrors_iff spec_ok_def filled_spec_nfs
        fill_storage_admitted fill_nfs_admitted)
qed

text \<open>The sample volume filled in, and its admission.\<close>

definition filled_sample :: VolumeObject where
  "filled_sample = set_spec (filled_spec True ''team'' (vo_Spec sample_volume)) sample_volume"

lemma sample_volume_filled:
  "FillAndValidateSpec sample_volume True ''team'' = (filled_sample, None)"
  unfolding filled_sample_def
  by (rule FillAndValidateSpec_ok) (simp add: FillAndValidateSpec_ok_iff sample_volume_simps)

lemma sample_volume_admitted: "ValidateCreate SharedVolume (OVolume sample_volume) = Inr ()"
  by (simp add: ValidateCreate_cases sample_volume_simps spec_ok_def source_ok_def http_ok_def sync_ok_def)

theorem filled_spec_update_iff_witness:
  "ValidateUpdate SharedVolume (OVolume sample_volume) (OVolume filled_sample) = Inr ()
     \<longleftrightarrow> sync_ok (vo_Spec filled_sample)"
  by (rule filled_spec_update_iff [OF sample_volume_admitted sample_volume_filled])

text \<open>
  The two sync defaults contradict the webhook: for an admitted volume with a source and
  neither sync field set, the controller fills in 60s and 120s, and the update webhook refuses
  that specification because the timeout is not below the interval.
\<close>

theorem sync_defaults_rejected:
  assumes "Source (vo_Spec v) \<noteq> None" and "SyncInterval (vo_Spec v) = []" and "SyncTimeout (vo_Spec v) = []"
    and "FillAndValidateSpec v g ns = (v', None)"
  shows "ValidateUpdate t (OVolume v) (OVolume v') \<noteq> Inr ()"
proof -
  have v': "v' = set_spec (filled_spec g ns (vo_Spec v)) v"
    using FillAndValidateSpec_ok [of v g ns] assms(4) by simp
  have "\<not> sync_ok (vo_Spec v')"
    using assms(1-3) by (simp add: v' sync_ok_def filled_spec_sync ParseDuration_60s ParseDuration_120s)
  then show ?thesis
    by (simp add: ValidateUpdate_iff updateErrors_iff spec_ok_def)
qed

theorem sync_defaults_rejected_witness:
  "ValidateUpdate SharedVolume (OVolume sample_volume) (OVolume filled_sample) \<noteq> Inr ()"
  by (rule sync_defaults_rejected [OF _ _ _ sample_volume_filled]) (simp_all add: sample_volume_simps)

text \<open>An admitted update: the access mode of the sample volume is made explicit.\<close>

definition updated_sample :: VolumeObject where
  "updated_sample = set_spec (sample_spec\<lparr>Storage := Some (fill_storage sample_storage)\<rparr>) sample_volume"

theorem admitted_updates_keep_identity_witness:
  "identity_kept (vo_Spec sample_volume) (vo_Spec updated_sample)"
proof (rule admitted_updates_keep_identity [where t = SharedVolume])
  have "ValidateUpdate SharedVolume (OVolume sample_volume) (OVolume updated_sample) = Inr ()"
    unfolding ValidateUpdate_iff updateErrors_iff
    by (simp add: updated_sample_def fill_storage_def sample_volume_simps
        spec_ok_def source_ok_def http_ok_def sync_ok_def compareStorageSpecsWithDefaults_def
        compareNfsServerSpecsWithDefaults_def)
  then show "admitted_updates SharedVolume sample_volume updated_sample"
    by (blast intro: admitted_updates.intros)
qed

end
