(* ===== verification/Retry.thy ===== *)
theory Retry
  imports Volume_Status
begin

text \<open>
  The loops of the form \<open>for { ... continue ... }\<close> with a counter of retries: finalizer
  removal and status updates of volume_controller_base.go. The body of a loop is a definition
  of its own, with \<open>None\<close> for \<open>continue\<close> and \<open>Some r\<close> for \<open>return r\<close>; the loop is the recursion
  over it, and its termination proof uses that the body goes round again only below the maximum.
  The locale \<open>retry_loop\<close> holds what follows for every loop of this form.
\<close>

section \<open>Retry loops\<close>

locale retry_loop =
  fixes max_retries :: nat
    and once :: "nat \<Rightarrow> ('w, 'r option) prog"
    and loop :: "nat \<Rightarrow> ('w, 'r) prog"
  assumes loop_unfold:
      "loop rc = do { r \<leftarrow> once rc; case r of None \<Rightarrow> loop (Suc rc) | Some x \<Rightarrow> ret x }"
    and again: "None \<in> results (once rc) \<Longrightarrow> rc < max_retries"
begin

lemma retry_induct: "(\<And>rc. (rc < max_retries \<Longrightarrow> P (Suc rc)) \<Longrightarrow> P rc) \<Longrightarrow> P rc"
  by (induction "max_retries - rc" arbitrary: rc rule: less_induct) (metis diff_less_mono2 lessI)

lemma loop_cases: "run_state (loop rc) s = (x, s') \<Longrightarrow>
    \<exists>rc' s0. run_state (once rc') s0 = (Some x, s')"
proof (induction rc arbitrary: s rule: retry_induct)
  case (1 rc)
  obtain r t where o1: "run_state (once rc) s = (r, t)" by fastforce
  show ?case
  proof (cases r)
    case None
    then have "rc < max_retries" using o1 again resultsI by metis
    moreover have "run_state (loop (Suc rc)) t = (x, s')"
      using "1.prems" o1 None by (subst (asm) loop_unfold) simp
    ultimately show ?thesis using "1.IH" by blast
  next
    case (Some y)
    then show ?thesis using "1.prems" o1 by (subst (asm) loop_unfold) auto
  qed
qed

lemma results_loop: "x \<in> results (loop rc) \<Longrightarrow> \<exists>rc'. Some x \<in> results (once rc')"
proof -
  assume "x \<in> results (loop rc)"
  then obtain s where "x = fst (run_state (loop rc) s)"
    unfolding results_def by blast
  then have "run_state (loop rc) s = (x, snd (run_state (loop rc) s))"
    by simp
  from loop_cases [OF this] show ?thesis by (blast dest: resultsI)
qed

lemma keeps_loop:
  assumes "step_preorder R" and "\<And>rc. keeps R (once rc)"
  shows "keeps R (loop rc)"
proof (induction rc rule: retry_induct)
  case (1 rc)
  note rules = step_preorder.keeps_bind [OF assms(1)] step_preorder.keeps_ret [OF assms(1)]
  have "keeps R (do { r \<leftarrow> once rc; if r = None \<and> rc < max_retries then loop (Suc rc) else ret (the r) })"
    using assms(2) 1 by (intro rules keeps_if) auto
  moreover have "loop rc =
      do { r \<leftarrow> once rc; if r = None \<and> rc < max_retries then loop (Suc rc) else ret (the r) }"
    by (subst loop_unfold, rule bind_results_cong) (auto dest: again split: option.split)
  ultimately show ?case by simp
qed

lemma emits_loop: "(\<And>rc. emits P (once rc)) \<Longrightarrow> emits P (loop rc)"
  by (rule keeps_loop [OF grows.step_preorder_axioms])

text \<open>A loop whose body makes at most \<open>k\<close> calls of a kind makes at most \<open>k\<close> per round.\<close>

lemma at_most_loop:
  assumes "\<And>rc. at_most k P (once rc)"
  shows "at_most (k * Suc (max_retries - rc)) P (loop rc)"
proof (induction rc rule: retry_induct)
  case (1 rc)
  let ?rest = "\<lambda>r. if r = None \<and> rc < max_retries then loop (Suc rc) else ret (the r)"
  have rest: "at_most (k * (max_retries - rc)) P (?rest r)" for r
    using 1 by (auto simp: Suc_diff_Suc at_most_ret)
  have "loop rc = do { r \<leftarrow> once rc; ?rest r }"
    by (subst loop_unfold, rule bind_results_cong) (auto dest: again split: option.split)
  then show ?case
    using at_most_bind [OF assms rest] by simp
qed

end

section \<open>Finalizers and status\<close>

text \<open>The fields copied back into the caller's object after a successful round.\<close>

definition adopt_meta :: "kobj \<Rightarrow> kobj \<Rightarrow> kobj" where
  "adopt_meta latestObj obj = map_meta (\<lambda>m.
     m\<lparr>om_ResourceVersion := om_ResourceVersion (meta_of latestObj),
       om_Finalizers := om_Finalizers (meta_of latestObj)\<rparr>) obj"

definition adopt_version :: "kobj \<Rightarrow> kobj \<Rightarrow> kobj" where
  "adopt_version latestObj obj = map_meta (\<lambda>m.
     m\<lparr>om_ResourceVersion := om_ResourceVersion (meta_of latestObj)\<rparr>) obj"

definition set_finalizers :: "string list \<Rightarrow> kobj \<Rightarrow> kobj" where
  "set_finalizers fs obj = map_meta (\<lambda>m. m\<lparr>om_Finalizers := fs\<rparr>) obj"

definition get_latest :: "'w env \<Rightarrow> kobj \<Rightarrow> ('w, error + kobj) prog" where
  "get_latest env obj =
     GetObject env (kind_of obj) (om_Namespace (meta_of obj)) (om_Name (meta_of obj))"

definition remove_finalizer_once ::
  "'w env \<Rightarrow> kobj \<Rightarrow> string \<Rightarrow> nat \<Rightarrow> ('w, (error + kobj) option) prog" where
  "remove_finalizer_once env obj finalizerName retryCount = do {
     r \<leftarrow> get_latest env obj;
     case r of
       Inl err \<Rightarrow> if IsNotFound err then ret (Some (Inr obj)) else ret (Some (Inl err))
     | Inr latestObj \<Rightarrow>
         if \<not> ContainsString (om_Finalizers (meta_of latestObj)) finalizerName
         then ret (Some (Inr (adopt_meta latestObj obj)))
         else do {
           r \<leftarrow> Update env
                 (set_finalizers (RemoveString (om_Finalizers (meta_of latestObj)) finalizerName) latestObj);
           case r of
             Inl err \<Rightarrow>
               if IsConflict err \<and> retryCount < 3 then do {
                 _ \<leftarrow> time_Sleep env (millisecond * 100 * int (Suc retryCount));
                 ret None
               }
               else if IsNotFound err then ret (Some (Inr obj))
               else ret (Some (Inl err))
           | Inr latestObj \<Rightarrow> ret (Some (Inr (adopt_meta latestObj obj)))
         }
   }"

lemma remove_finalizer_again:
  "None \<in> results (remove_finalizer_once env obj f rc) \<Longrightarrow> rc < 3"
  unfolding remove_finalizer_once_def
  by (auto dest!: results_bindD split: sum.splits if_splits)

function remove_finalizer_loop :: "'w env \<Rightarrow> kobj \<Rightarrow> string \<Rightarrow> nat \<Rightarrow> ('w, error + kobj) prog" where
  "remove_finalizer_loop env obj f retryCount = do {
     r \<leftarrow> remove_finalizer_once env obj f retryCount;
     case r of None \<Rightarrow> remove_finalizer_loop env obj f (Suc retryCount) | Some x \<Rightarrow> ret x
   }"
  by pat_completeness auto
termination
  by (relation "measure (\<lambda>(env, obj, f, rc). 3 - rc)") (auto dest: remove_finalizer_again)

declare remove_finalizer_loop.simps [simp del]

definition RemoveFinalizerWithRetry :: "'w env \<Rightarrow> kobj \<Rightarrow> string \<Rightarrow> ('w, error + kobj) prog" where
  "RemoveFinalizerWithRetry env obj finalizerName = remove_finalizer_loop env obj finalizerName 0"

definition update_status_once ::
  "'w env \<Rightarrow> kobj \<Rightarrow> (kobj \<Rightarrow> kobj) \<Rightarrow> nat \<Rightarrow> ('w, (error + kobj) option) prog" where
  "update_status_once env obj updateFn retryCount = do {
     r \<leftarrow> get_latest env obj;
     case r of
       Inl err \<Rightarrow> ret (Some (Inl err))
     | Inr latestObj \<Rightarrow> do {
         r \<leftarrow> StatusUpdate env (updateFn latestObj);
         case r of
           Inl err \<Rightarrow>
             if IsConflict err \<and> retryCount < 3 then do {
               _ \<leftarrow> time_Sleep env (millisecond * 100 * int (Suc retryCount));
               ret None
             }
             else ret (Some (Inl err))
         | Inr latestObj \<Rightarrow> ret (Some (Inr (adopt_version latestObj obj)))
       }
   }"

lemma update_status_again: "None \<in> results (update_status_once env obj f rc) \<Longrightarrow> rc < 3"
  unfolding update_status_once_def by (auto dest!: results_bindD split: sum.splits if_splits)

function update_status_loop ::
  "'w env \<Rightarrow> kobj \<Rightarrow> (kobj \<Rightarrow> kobj) \<Rightarrow> nat \<Rightarrow> ('w, error + kobj) prog" where
  "update_status_loop env obj updateFn retryCount = do {
     r \<leftarrow> update_status_once env obj updateFn retryCount;
     case r of None \<Rightarrow> update_status_loop env obj updateFn (Suc retryCount) | Some x \<Rightarrow> ret x
   }"
  by pat_completeness auto
termination
  by (relation "measure (\<lambda>(env, obj, f, rc). 3 - rc)") (auto dest: update_status_again)

declare update_status_loop.simps [simp del]

definition UpdateStatusWithRetry :: "'w env \<Rightarrow> kobj \<Rightarrow> (kobj \<Rightarrow> kobj) \<Rightarrow> ('w, error + kobj) prog" where
  "UpdateStatusWithRetry env obj updateFn = update_status_loop env obj updateFn 0"

text \<open>
  The patch that sets the finalizers to null, and the loop around it. The loops for a PV in the
  base controller and for a PV and a PVC in the pod cleanup controller have the same text; they
  differ in the object they address.
\<close>

definition force_remove_finalizers_with_patch ::
  "'w env \<Rightarrow> kind \<Rightarrow> string \<Rightarrow> string \<Rightarrow> ('w, error + unit) prog" where
  "force_remove_finalizers_with_patch env k ns n = do {
     r \<leftarrow> PatchFinalizersNull env k ns n;
     case r of
       Inl err \<Rightarrow> if IsNotFound err then ret (Inr ()) else ret (Inl err)
     | Inr _ \<Rightarrow> ret (Inr ())
   }"

definition strip_once ::
  "'w env \<Rightarrow> kind \<Rightarrow> string \<Rightarrow> string \<Rightarrow> nat \<Rightarrow> ('w, (error + unit) option) prog" where
  "strip_once env k ns n retryCount = do {
     r \<leftarrow> GetObject env k ns n;
     case r of
       Inl err \<Rightarrow> if IsNotFound err then ret (Some (Inr ())) else ret (Some (Inl err))
     | Inr latest \<Rightarrow>
         if om_Finalizers (meta_of latest) = [] then ret (Some (Inr ()))
         else do {
           r \<leftarrow> Update env (set_finalizers [] latest);
           case r of
             Inl err \<Rightarrow>
               if IsConflict err \<and> retryCount < 5 then ret None
               else if retryCount < 5 then do {
                 p \<leftarrow> force_remove_finalizers_with_patch env k ns n;
                 case p of
                   Inl patchErr \<Rightarrow> if Suc retryCount \<ge> 5 then ret (Some (Inl patchErr)) else ret None
                 | Inr _ \<Rightarrow> ret (Some (Inr ()))
               }
               else ret (Some (Inl err))
           | Inr _ \<Rightarrow> ret (Some (Inr ()))
         }
   }"

lemma strip_again: "None \<in> results (strip_once env k ns n rc) \<Longrightarrow> rc < 5"
  unfolding strip_once_def by (auto dest!: results_bindD split: sum.splits if_splits)

function strip_loop :: "'w env \<Rightarrow> kind \<Rightarrow> string \<Rightarrow> string \<Rightarrow> nat \<Rightarrow> ('w, error + unit) prog" where
  "strip_loop env k ns n retryCount = do {
     r \<leftarrow> strip_once env k ns n retryCount;
     case r of None \<Rightarrow> strip_loop env k ns n (Suc retryCount) | Some x \<Rightarrow> ret x
   }"
  by pat_completeness auto
termination
  by (relation "measure (\<lambda>(env, k, ns, n, rc). 5 - rc)") (auto dest: strip_again)

declare strip_loop.simps [simp del]

definition forceRemovePVFinalizersWithPatch :: "'w env \<Rightarrow> string \<Rightarrow> ('w, error + unit) prog" where
  "forceRemovePVFinalizersWithPatch env pvName =
     force_remove_finalizers_with_patch env KPersistentVolume [] pvName"

definition RemovePVFinalizersWithRetry :: "'w env \<Rightarrow> PersistentVolume \<Rightarrow> ('w, error + unit) prog" where
  "RemovePVFinalizersWithRetry env pv = strip_loop env KPersistentVolume [] (om_Name (pv_Meta pv)) 0"

text \<open>The PVC loop of the base controller neither looks for finalizers nor patches.\<close>

definition strip_pvc_once :: "'w env \<Rightarrow> PersistentVolumeClaim \<Rightarrow> nat \<Rightarrow> ('w, (error + unit) option) prog" where
  "strip_pvc_once env pvc retryCount = do {
     r \<leftarrow> GetPVC env (om_Namespace (pvc_Meta pvc)) (om_Name (pvc_Meta pvc));
     case r of
       Inl err \<Rightarrow> if IsNotFound err then ret (Some (Inr ())) else ret (Some (Inl err))
     | Inr latestPVC \<Rightarrow> do {
         r \<leftarrow> Update env (set_finalizers [] (OPersistentVolumeClaim latestPVC));
         case r of
           Inl err \<Rightarrow> if IsConflict err \<and> retryCount < 3 then ret None else ret (Some (Inl err))
         | Inr _ \<Rightarrow> ret (Some (Inr ()))
       }
   }"

lemma strip_pvc_again: "None \<in> results (strip_pvc_once env pvc rc) \<Longrightarrow> rc < 3"
  unfolding strip_pvc_once_def by (auto dest!: results_bindD split: sum.splits if_splits)

function strip_pvc_loop :: "'w env \<Rightarrow> PersistentVolumeClaim \<Rightarrow> nat \<Rightarrow> ('w, error + unit) prog" where
  "strip_pvc_loop env pvc retryCount = do {
     r \<leftarrow> strip_pvc_once env pvc retryCount;
     case r of None \<Rightarrow> strip_pvc_loop env pvc (Suc retryCount) | Some x \<Rightarrow> ret x
   }"
  by pat_completeness auto
termination
  by (relation "measure (\<lambda>(env, pvc, rc). 3 - rc)") (auto dest: strip_pvc_again)

declare strip_pvc_loop.simps [simp del]

definition RemovePVCFinalizersWithRetry :: "'w env \<Rightarrow> PersistentVolumeClaim \<Rightarrow> ('w, error + unit) prog" where
  "RemovePVCFinalizersWithRetry env pvc = strip_pvc_loop env pvc 0"

section \<open>The loops as instances\<close>

interpretation remove_finalizer:
  retry_loop 3 "remove_finalizer_once env obj f" "remove_finalizer_loop env obj f" for env obj f
  by unfold_locales (rule remove_finalizer_loop.simps, rule remove_finalizer_again)

interpretation update_status:
  retry_loop 3 "update_status_once env obj f" "update_status_loop env obj f" for env obj f
  by unfold_locales (rule update_status_loop.simps, rule update_status_again)

interpretation strip:
  retry_loop 5 "strip_once env k ns n" "strip_loop env k ns n" for env k ns n
  by unfold_locales (rule strip_loop.simps, rule strip_again)

interpretation strip_pvc:
  retry_loop 3 "strip_pvc_once env pvc" "strip_pvc_loop env pvc" for env pvc
  by unfold_locales (rule strip_pvc_loop.simps, rule strip_pvc_again)

section \<open>What the loops do\<close>

text \<open>An API call that shows that an object carries a finalizer no longer.\<close>

fun finalizer_gone :: "string \<Rightarrow> event \<Rightarrow> bool" where
  "finalizer_gone f (EApi (GetReq k ns n) (RError e)) = IsNotFound e"
| "finalizer_gone f (EApi (GetReq k ns n) (RObject obj)) = (f \<notin> set (om_Finalizers (meta_of obj)))"
| "finalizer_gone f (EApi (UpdateReq obj) (RError e)) = IsNotFound e"
| "finalizer_gone f (EApi (UpdateReq obj) (RObject _)) = (f \<notin> set (om_Finalizers (meta_of obj)))"
| "finalizer_gone f (EApi (PatchFinalizersNullReq k ns n) (RError e)) = IsNotFound e"
| "finalizer_gone f (EApi (PatchFinalizersNullReq k ns n) _) = True"
| "finalizer_gone f _ = False"

text \<open>What a loop that takes a finalizer off may do: read, back off, and update objects of the
  kind to a version without the finalizer.\<close>

fun finalizer_write :: "kind \<Rightarrow> string \<Rightarrow> event \<Rightarrow> bool" where
  "finalizer_write k f (EApi (GetReq _ _ _) _) = True"
| "finalizer_write k f (EApi (UpdateReq obj) _) = (kind_of obj = k \<and> f \<notin> set (om_Finalizers (meta_of obj)))"
| "finalizer_write k f (ESleep d) = (d \<le> 300 * millisecond)"
| "finalizer_write k f _ = False"

lemma meta_set_finalizers [simp]:
  "om_Finalizers (meta_of (set_finalizers fs obj)) = fs" "kind_of (set_finalizers fs obj) = kind_of obj"
  "om_Name (meta_of (set_finalizers fs obj)) = om_Name (meta_of obj)"
  "om_Namespace (meta_of (set_finalizers fs obj)) = om_Namespace (meta_of obj)"
  by (simp_all add: set_finalizers_def)

lemma results_GetObject: "Inr x \<in> results (GetObject env k ns n) \<Longrightarrow> kind_of x = k"
  by (auto dest!: results_Get_as)

lemma remove_finalizer_once_emits: "emits (finalizer_write (kind_of obj) f) (remove_finalizer_once env obj f rc)"
  unfolding remove_finalizer_once_def get_latest_def
  by (intro keeps_intro) (auto dest: results_Get_as simp: millisecond_def)

lemma remove_finalizer_once_writes: "at_most 1 is_write_event (remove_finalizer_once env obj f rc)"
  unfolding remove_finalizer_once_def get_latest_def One_nat_def by (intro at_most_intro)

text \<open>How a call of the typed client ends up in the history.\<close>

lemma run_Get_as:
  "run_state (Get_as dec env k ns n) w = (as_object dec rp, w\<lparr>w_srv := s', w_hist := w_hist w @ [EApi (GetReq k ns n) rp]\<rparr>)"
  if "e_api env (GetReq k ns n) (w_srv w) = (rp, s')"
  using that by (simp add: Get_as_def run_api_call)

lemma remove_finalizer_once_success:
  assumes "run_state (remove_finalizer_once env obj f rc) w = (Some (Inr obj'), w')"
  shows "\<exists>h e. w_hist w' = h @ [e] \<and> finalizer_gone f e"
  using assms unfolding remove_finalizer_once_def get_latest_def Get_as_def Update_def
  by (auto simp: run_api_call as_object_def set_finalizers_def split: sum.splits if_splits prod.splits response.splits option.splits)


lemma update_status_once_writes: "at_most 1 is_write_event (update_status_once env obj fn rc)"
  unfolding update_status_once_def get_latest_def One_nat_def by (intro at_most_intro)

text \<open>The only writes are status updates with a value of the update function.\<close>

fun status_write :: "(kobj \<Rightarrow> kobj) \<Rightarrow> kind \<Rightarrow> event \<Rightarrow> bool" where
  "status_write fn k (EApi (StatusUpdateReq obj) _) = (\<exists>old. kind_of old = k \<and> obj = fn old)"
| "status_write fn k (EApi (GetReq _ _ _) _) = True"
| "status_write fn k (ESleep d) = (d \<le> 300 * millisecond)"
| "status_write fn k _ = False"

lemma update_status_once_emits: "emits (status_write fn (kind_of obj)) (update_status_once env obj fn rc)"
  unfolding update_status_once_def get_latest_def
  by (intro keeps_intro) (simp_all add: millisecond_def, blast dest: results_GetObject)

lemma update_status_once_success:
  assumes "run_state (update_status_once env obj fn rc) w = (Some (Inr obj'), w')"
  shows "\<exists>h old new. w_hist w' = h @ [EApi (GetReq (kind_of obj) (om_Namespace (meta_of obj)) (om_Name (meta_of obj)))
      (RObject old), EApi (StatusUpdateReq (fn old)) (RObject new)]"
  using assms unfolding update_status_once_def get_latest_def Get_as_def StatusUpdate_def
  by (auto simp: run_api_call as_object_def
      split: sum.splits if_splits prod.splits response.splits option.splits)

text \<open>
  C31. \<open>UpdateStatusWithRetry\<close> makes at most four writes, all of them status updates with a value
  of the update function on an object of the same kind, and on success the last two calls are
  the read of the object and the accepted update of exactly the value read: no write is based
  on an older version.
\<close>

theorem UpdateStatusWithRetry_correct:
  "at_most 4 is_write_event (UpdateStatusWithRetry env obj fn)
   \<and> emits (status_write fn (kind_of obj)) (UpdateStatusWithRetry env obj fn)
   \<and> (\<forall>w obj' w'. run_state (UpdateStatusWithRetry env obj fn) w = (Inr obj', w')
        \<longrightarrow> (\<exists>h old new. w_hist w' =
              h @ [EApi (GetReq (kind_of obj) (om_Namespace (meta_of obj)) (om_Name (meta_of obj))) (RObject old),
                   EApi (StatusUpdateReq (fn old)) (RObject new)]))"
proof (intro conjI allI impI)
  show "at_most 4 is_write_event (UpdateStatusWithRetry env obj fn)"
    unfolding UpdateStatusWithRetry_def
    using update_status.at_most_loop [where rc = 0, OF update_status_once_writes] by simp
  show "emits (status_write fn (kind_of obj)) (UpdateStatusWithRetry env obj fn)"
    unfolding UpdateStatusWithRetry_def by (rule update_status.emits_loop [OF update_status_once_emits])
next
  fix w obj' w'
  assume "run_state (UpdateStatusWithRetry env obj fn) w = (Inr obj', w')"
  then obtain rc s0 where "run_state (update_status_once env obj fn rc) s0 = (Some (Inr obj'), w')"
    unfolding UpdateStatusWithRetry_def using update_status.loop_cases by metis
  then show "\<exists>h old new. w_hist w' =
      h @ [EApi (GetReq (kind_of obj) (om_Namespace (meta_of obj)) (om_Name (meta_of obj))) (RObject old),
           EApi (StatusUpdateReq (fn old)) (RObject new)]"
    by (rule update_status_once_success)
qed

text \<open>Stripping all finalizers off one object.\<close>

fun strips :: "kind \<Rightarrow> event \<Rightarrow> bool" where
  "strips k (EApi (GetReq _ _ _) _) = True"
| "strips k (EApi (UpdateReq obj) _) = (kind_of obj = k \<and> om_Finalizers (meta_of obj) = [])"
| "strips k (EApi (PatchFinalizersNullReq k' _ _) _) = (k' = k)"
| "strips k _ = False"

lemma strip_once_emits: "emits (strips k) (strip_once env k ns n rc)"
  unfolding strip_once_def force_remove_finalizers_with_patch_def
  by (intro keeps_intro) (auto dest: results_Get_as)

lemma strip_pvc_once_emits: "emits (strips KPersistentVolumeClaim) (strip_pvc_once env pvc rc)"
  unfolding strip_pvc_once_def by (intro keeps_intro) auto

lemma strip_loop_emits: "emits (strips k) (strip_loop env k ns n rc)"
  by (rule strip.emits_loop [OF strip_once_emits])

lemma strip_pvc_loop_emits: "emits (strips KPersistentVolumeClaim) (strip_pvc_loop env pvc rc)"
  by (rule strip_pvc.emits_loop [OF strip_pvc_once_emits])

lemma force_patch_writes: "at_most 1 is_write_event (force_remove_finalizers_with_patch env k ns n)"
  unfolding force_remove_finalizers_with_patch_def One_nat_def by (intro at_most_intro)

lemma strip_once_writes: "at_most 2 is_write_event (strip_once env k ns n rc)"
  unfolding strip_once_def numeral_2_eq_2
  by (intro at_most_intro at_most_Suc_bind [OF force_patch_writes])

lemma strip_pvc_once_writes: "at_most 1 is_write_event (strip_pvc_once env pvc rc)"
  unfolding strip_pvc_once_def One_nat_def by (intro at_most_intro)

lemma strip_once_success:
  assumes "run_state (strip_once env k ns n rc) w = (Some (Inr ()), w')"
  shows "\<exists>h e. w_hist w' = h @ [e] \<and> finalizer_gone f e"
  using assms unfolding strip_once_def force_remove_finalizers_with_patch_def Get_as_def Update_def
    PatchFinalizersNull_def
  by (auto simp: run_api_call as_object_def as_done_def
      split: sum.splits if_splits prod.splits response.splits option.splits)

lemma strip_pvc_once_success:
  assumes "run_state (strip_pvc_once env pvc rc) w = (Some (Inr ()), w')"
  shows "\<exists>h e. w_hist w' = h @ [e] \<and> finalizer_gone f e"
  using assms unfolding strip_pvc_once_def Get_as_def Update_def
  by (auto simp: run_api_call as_object_def
      split: sum.splits if_splits prod.splits response.splits option.splits)

text \<open>
  Stripping the finalizers of a persistent volume or of a claim is bounded (twelve and four
  writes), only ever empties the finalizer list of objects of that kind, and reports success
  only when the last call shows that no finalizer is left or the object is gone.
\<close>

theorem RemoveFinalizers_correct:
  "at_most 12 is_write_event (RemovePVFinalizersWithRetry env pv)
   \<and> at_most 4 is_write_event (RemovePVCFinalizersWithRetry env pvc)
   \<and> emits (strips KPersistentVolume) (RemovePVFinalizersWithRetry env pv)
   \<and> emits (strips KPersistentVolumeClaim) (RemovePVCFinalizersWithRetry env pvc)
   \<and> (\<forall>w w'. run_state (RemovePVFinalizersWithRetry env pv) w = (Inr (), w')
              \<or> run_state (RemovePVCFinalizersWithRetry env pvc) w = (Inr (), w')
        \<longrightarrow> (\<exists>h e. w_hist w' = h @ [e] \<and> finalizer_gone f e))"
proof (intro conjI allI impI)
  note defs = RemovePVFinalizersWithRetry_def RemovePVCFinalizersWithRetry_def
  show "at_most 12 is_write_event (RemovePVFinalizersWithRetry env pv)"
    using strip.at_most_loop [where rc = 0, OF strip_once_writes] by (simp add: defs)
  show "at_most 4 is_write_event (RemovePVCFinalizersWithRetry env pvc)"
    using strip_pvc.at_most_loop [where rc = 0, OF strip_pvc_once_writes] by (simp add: defs)
  show "emits (strips KPersistentVolume) (RemovePVFinalizersWithRetry env pv)"
    "emits (strips KPersistentVolumeClaim) (RemovePVCFinalizersWithRetry env pvc)"
    by (simp_all add: defs strip_loop_emits strip_pvc_loop_emits)
  show "\<exists>h e. w_hist w' = h @ [e] \<and> finalizer_gone f e"
    if "run_state (RemovePVFinalizersWithRetry env pv) w = (Inr (), w')
      \<or> run_state (RemovePVCFinalizersWithRetry env pvc) w = (Inr (), w')" for w w'
    using that strip.loop_cases strip_once_success strip_pvc.loop_cases strip_pvc_once_success
    unfolding defs by metis
qed

section \<open>The theorems on a stored object\<close>

definition sample_pv :: PersistentVolume where
  "sample_pv = \<lparr>pv_Meta = empty_meta\<lparr>om_Name := ''pv-sv-a1'', om_Finalizers := [''f'', ''g'']\<rparr>,
     pv_Capacity = Quantity ''1Gi'', pv_AccessModes = [], pv_ReclaimPolicy = ''Delete'',
     pv_MountOptions = [], pv_StorageClassName = [], pv_CSI = None\<rparr>"

lemmas sample_pv_simps = sample_pv_def empty_meta_def store_simps

text \<open>Evaluation of the typed client on a stored list of objects.\<close>

lemmas client_simps =
  Get_as_def List_as_def Update_def UpdateDone_def StatusUpdate_def Create_def Delete_def DeleteNow_def
  PatchFinalizersNull_def run_api_call as_object_def as_list_def as_done_def the_kind_def


theorem UpdateStatusWithRetry_correct_witness:
  "\<exists>h old new. w_hist (snd (run_state (UpdateStatusWithRetry store_env (OPersistentVolume sample_pv) id)
      (world_of [OPersistentVolume sample_pv]))) =
    h @ [EApi (GetReq KPersistentVolume [] ''pv-sv-a1'') (RObject old), EApi (StatusUpdateReq (id old)) (RObject new)]"
proof -
  have "\<exists>obj' w'. run_state (UpdateStatusWithRetry store_env (OPersistentVolume sample_pv) id)
      (world_of [OPersistentVolume sample_pv]) = (Inr obj', w')"
    unfolding UpdateStatusWithRetry_def
    by (subst update_status_loop.simps)
       (simp add: update_status_once_def get_latest_def client_simps sample_pv_simps)
  moreover have "kind_of (OPersistentVolume sample_pv) = KPersistentVolume"
    "om_Namespace (meta_of (OPersistentVolume sample_pv)) = []"
    "om_Name (meta_of (OPersistentVolume sample_pv)) = ''pv-sv-a1''"
    by (simp_all add: sample_pv_simps)
  ultimately show ?thesis
    using UpdateStatusWithRetry_correct [of store_env "OPersistentVolume sample_pv" id] by (metis snd_conv)
qed

theorem RemoveFinalizers_correct_witness:
  "\<exists>h e. w_hist (snd (run_state (RemovePVFinalizersWithRetry store_env sample_pv)
      (world_of [OPersistentVolume sample_pv]))) = h @ [e] \<and> finalizer_gone ''f'' e"
proof -
  have "\<exists>w'. run_state (RemovePVFinalizersWithRetry store_env sample_pv)
      (world_of [OPersistentVolume sample_pv]) = (Inr (), w')"
    unfolding RemovePVFinalizersWithRetry_def
    by (subst strip_loop.simps) (simp add: strip_once_def client_simps sample_pv_simps set_finalizers_def)
  then show ?thesis
    using RemoveFinalizers_correct by (metis snd_conv)
qed

end
