(* ===== verification/Resources.thy ===== *)
theory Resources
  imports Retry
begin

text \<open>
  The objects the controller creates for a volume (volume_controller_base.go): the managed
  NFS server, the controller namespace, the persistent volume, its claim, the ReplicaSet of
  the syncer and its service, with the checks of their readiness. A dereference of the
  pointer fields \<open>spec.NfsServer\<close> and \<open>spec.Storage\<close> is a \<open>Panic\<close> when they are nil.
\<close>

section \<open>Operations\<close>

text \<open>The fields of the base controller that its methods read, and \<open>ctrl.Result\<close>.\<close>

record VolumeControllerBase =
  ControllerNamespace :: string
  has_SyncController :: bool

type_synonym RequeueAfter = int

definition nil_dereference :: error where
  "nil_dereference = Panic ''invalid memory address or nil pointer dereference''"

definition owner_reference :: "'w env \<Rightarrow> VolumeObject \<Rightarrow> OwnerReference" where
  "owner_reference env v = \<lparr>or_APIVersion = e_GroupVersion env (vo_APIVersion v), or_Kind = vo_Kind v,
     or_Name = GetName v, or_UID = om_UID (vo_Meta v), or_Controller = Some False\<rparr>"

definition managed_labels :: "VolumeObject \<Rightarrow> string \<Rightarrow> labels" where
  "managed_labels v namespace =
     [(''app.kubernetes.io/managed-by'', ''shared-volume-controller''),
      (''shared-volume.io/reference'', ReferenceValue (GetVolumeSpec v)),
      (''shared-volume.io/owner'', GetName v @ ''.'' @ namespace)]"

definition nfs_server_object :: "'w env \<Rightarrow> VolumeObject \<Rightarrow> string \<Rightarrow> NfsServerSpec \<Rightarrow> StorageSpec \<Rightarrow> NfsServerObj" where
  "nfs_server_object env v namespace nfs st =
     \<lparr>ns_Meta = empty_meta\<lparr>om_Name := nfs_Name nfs, om_Namespace := namespace,
        om_Labels := managed_labels v namespace, om_OwnerReferences := [owner_reference env v]\<rparr>,
      ns_Capacity = st_Capacity st, ns_StorageClassName = StorageClassName (GetVolumeSpec v),
      ns_Image = nfs_Image nfs, ns_Ready = False\<rparr>"

definition CreateAndOwnNfsServer :: "'w env \<Rightarrow> VolumeObject \<Rightarrow> string \<Rightarrow> ('w, error + unit) prog" where
  "CreateAndOwnNfsServer env v namespace =
     (let spec = GetVolumeSpec v in
      if IsExternalNfsServer (NfsServer spec) then ret (Inr ())
      else case NfsServer spec of
        None \<Rightarrow> ret (Inl nil_dereference)
      | Some nfs \<Rightarrow> do {
          r \<leftarrow> GetNfsServer env namespace (nfs_Name nfs);
          case r of
            Inr _ \<Rightarrow> ret (Inr ())
          | Inl err \<Rightarrow>
              if \<not> IsNotFound err then ret (Inl err)
              else case Storage spec of
                None \<Rightarrow> ret (Inl nil_dereference)
              | Some st \<Rightarrow> Create env (ONfsServer (nfs_server_object env v namespace nfs st))
        })"

definition letters :: string where
  "letters = ''abcdefghijklmnopqrstuvwxyz0123456789''"

fun RandString :: "'w env \<Rightarrow> nat \<Rightarrow> ('w, string) prog" where
  "RandString env 0 = ret []"
| "RandString env (Suc n) = do {
     k \<leftarrow> rand_Intn env (length letters);
     cs \<leftarrow> RandString env n;
     ret (letters ! k # cs)
   }"

definition generated_server :: "string \<Rightarrow> string \<Rightarrow> NfsServerSpec" where
  "generated_server referenceValue namespace =
     (let nfsServerName = ''nfs-'' @ referenceValue
      in \<lparr>nfs_Name = nfsServerName, nfs_Namespace = namespace,
          nfs_URL = nfsServerName @ ''.'' @ namespace @ ''.svc.cluster.local'',
          nfs_Image = [], nfs_Path = ''/''\<rparr>)"

definition reference_value :: "'w env \<Rightarrow> VolumeSpecBase \<Rightarrow> string \<Rightarrow> ('w, string) prog" where
  "reference_value env spec resourcePrefix =
     (if ReferenceValue spec = []
      then do { s \<leftarrow> RandString env 12; ret (resourcePrefix @ ''-'' @ s) }
      else ret (ReferenceValue spec))"

definition GenerateAndCreateNfsServer ::
  "'w env \<Rightarrow> VolumeObject \<Rightarrow> string \<Rightarrow> string \<Rightarrow> ('w, error + RequeueAfter \<times> VolumeObject) prog" where
  "GenerateAndCreateNfsServer env v resourcePrefix namespace = do {
     ref \<leftarrow> reference_value env (GetVolumeSpec v) resourcePrefix;
     bindE (UpdateVolume env
              (set_spec ((GetVolumeSpec v)\<lparr>ReferenceValue := ref,
                           NfsServer := Some (generated_server ref namespace)\<rparr>) v)) (\<lambda>v.
     bindE (CreateAndOwnNfsServer env v namespace) (\<lambda>_.
     ret (Inr (2 * second, v))))
   }"

definition EnsureControllerNamespace :: "'w env \<Rightarrow> VolumeControllerBase \<Rightarrow> ('w, error + unit) prog" where
  "EnsureControllerNamespace env b = do {
     r \<leftarrow> GetNamespaceObj env (ControllerNamespace b);
     case r of
       Inr _ \<Rightarrow> ret (Inr ())
     | Inl err \<Rightarrow>
         if \<not> IsNotFound err then ret (Inl err)
         else Create env (ONamespace (empty_meta\<lparr>om_Name := ControllerNamespace b\<rparr>))
   }"

text \<open>
  The answer \<open>(ready, phase, message)\<close>; next to an error the code also returns a phase and a
  message, which no caller reads.
\<close>

definition CheckNfsServerStatus ::
  "'w env \<Rightarrow> VolumeObject \<Rightarrow> string \<Rightarrow> ('w, error + bool \<times> string \<times> string) prog" where
  "CheckNfsServerStatus env v namespace =
     (case NfsServer (GetVolumeSpec v) of
        None \<Rightarrow> ret (Inl nil_dereference)
      | Some nfs \<Rightarrow>
          if IsExternalNfsServer (Some nfs) then ret (Inr (True, [], ''External NFS server configured''))
          else do {
            r \<leftarrow> GetNfsServer env (if nfs_Namespace nfs \<noteq> [] then nfs_Namespace nfs else namespace) (nfs_Name nfs);
            case r of
              Inl err \<Rightarrow>
                (case IgnoreNotFound err of
                   Some err \<Rightarrow> ret (Inl err)
                 | None \<Rightarrow> ret (Inr (False, ''Pending'', ''NfsServer not found, waiting for creation'')))
            | Inr nfsServer \<Rightarrow>
                if \<not> ns_Ready nfsServer
                then ret (Inr (False, ''Pending'', ''NfsServer exists but is not ready yet''))
                else ret (Inr (True, [], ''NfsServer is ready''))
          })"

definition CheckAndUpdateNfsServerStatus ::
  "'w env \<Rightarrow> VolumeObject \<Rightarrow> string \<Rightarrow> ('w, error + RequeueAfter \<times> VolumeObject) prog" where
  "CheckAndUpdateNfsServerStatus env v namespace =
     bindE (CheckNfsServerStatus env v namespace) (\<lambda>(ready, phase, message).
     let (v, statusChanged) = UpdateVolumeStatus v ready phase message
     in if \<not> ready then ret (Inr (5 * second, v)) else ret (Inr (0, v)))"

definition ReconcileNfsServer ::
  "'w env \<Rightarrow> VolumeObject \<Rightarrow> bool \<Rightarrow> string \<Rightarrow> ('w, error + RequeueAfter \<times> VolumeObject) prog" where
  "ReconcileNfsServer env v generateNfsServer namespace =
     (if generateNfsServer
      then ret (Inl (Errorf ''NFS server generation should be handled by the specific volume controller''))
      else case NfsServer (GetVolumeSpec v) of
        None \<Rightarrow> ret (Inr (0, v))
      | Some nfs \<Rightarrow>
          if IsExternalNfsServer (Some nfs) then ret (Inr (0, v))
          else if nfs_Name nfs \<noteq> [] then CheckAndUpdateNfsServerStatus env v namespace
          else ret (Inr (0, v)))"

subsection \<open>Volume, claim, ReplicaSet and service\<close>

definition pv_name :: "VolumeSpecBase \<Rightarrow> string" where
  "pv_name spec = ''pv-'' @ ReferenceValue spec"

definition volume_object :: "VolumeObject \<Rightarrow> string \<Rightarrow> quantity \<Rightarrow> string \<Rightarrow> string \<Rightarrow> PersistentVolume" where
  "volume_object v namespace storageQuantity nfsServerAddress nfsSharePath =
     \<lparr>pv_Meta = empty_meta\<lparr>om_Name := pv_name (GetVolumeSpec v),
        om_Labels := managed_labels v namespace,
        om_Annotations := [(''pv.kubernetes.io/provisioned-by'', ''nfs.csi.k8s.io'')]\<rparr>,
      pv_Capacity = storageQuantity, pv_AccessModes = [''ReadWriteMany''], pv_ReclaimPolicy = ''Delete'',
      pv_MountOptions = [''nfsvers=4.1'', ''soft'', ''intr'', ''rsize=1048576'', ''wsize=1048576'',
        ''timeo=300'', ''retrans=2'', ''noatime''],
      pv_StorageClassName = [],
      pv_CSI = Some \<lparr>csi_Driver = ''nfs.csi.k8s.io'',
        csi_VolumeHandle = nfsServerAddress @ nfsSharePath @ ''##'',
        csi_VolumeAttributes = [(''server'', nfsServerAddress), (''share'', nfsSharePath)]\<rparr>\<rparr>"

definition ReconcilePersistentVolume :: "'w env \<Rightarrow> VolumeObject \<Rightarrow> string \<Rightarrow> ('w, error + unit) prog" where
  "ReconcilePersistentVolume env v namespace =
     (let spec = GetVolumeSpec v; pvName = pv_name spec in do {
      r \<leftarrow> GetPV env pvName;
      case r of
        Inr _ \<Rightarrow> ret (Inr ())
      | Inl _ \<Rightarrow>
        (case Storage spec of
           None \<Rightarrow> ret (Inl nil_dereference)
         | Some st \<Rightarrow>
        (case e_ParseQuantity env (st_Capacity st) of
           Inl err \<Rightarrow> ret (Inl err)
         | Inr storageQuantity \<Rightarrow> do {
      r \<leftarrow> GetPV env pvName;
      case r of
        Inr _ \<Rightarrow> ret (Inr ())
      | Inl _ \<Rightarrow>
        (case NfsServer spec of
           None \<Rightarrow> ret (Inl nil_dereference)
         | Some nfs \<Rightarrow>
             if IsExternalNfsServer (Some nfs)
             then Create env (OPersistentVolume (volume_object v namespace storageQuantity (nfs_URL nfs) (nfs_Path nfs)))
             else let nfsServerAddress = GetManagedNfsServerAddress v nfs in
               if nfsServerAddress = []
               then ret (Inl (Errorf (''failed to construct NFS server address for managed server '' @ nfs_Name nfs)))
               else Create env (OPersistentVolume
                      (volume_object v namespace storageQuantity nfsServerAddress (nfs_Path nfs)))) }))
     })"

definition claim_object :: "'w env \<Rightarrow> VolumeObject \<Rightarrow> string \<Rightarrow> quantity \<Rightarrow> PersistentVolumeClaim" where
  "claim_object env v namespace storageQuantity =
     \<lparr>pvc_Meta = empty_meta\<lparr>om_Name := ReferenceValue (GetVolumeSpec v), om_Namespace := namespace,
        om_Labels := managed_labels v namespace, om_OwnerReferences := [owner_reference env v]\<rparr>,
      pvc_AccessModes = [''ReadWriteMany''], pvc_Request = storageQuantity,
      pvc_VolumeName = pv_name (GetVolumeSpec v), pvc_StorageClassName = Some [], pvc_Phase = []\<rparr>"

definition ReconcilePersistentVolumeClaim :: "'w env \<Rightarrow> VolumeObject \<Rightarrow> string \<Rightarrow> ('w, error + unit) prog" where
  "ReconcilePersistentVolumeClaim env v namespace =
     (let spec = GetVolumeSpec v in do {
      r \<leftarrow> GetPVC env namespace (ReferenceValue spec);
      case r of
        Inr _ \<Rightarrow> ret (Inr ())
      | Inl _ \<Rightarrow>
        (case Storage spec of
           None \<Rightarrow> ret (Inl nil_dereference)
         | Some st \<Rightarrow>
        (case e_ParseQuantity env (st_Capacity st) of
           Inl err \<Rightarrow> ret (Inl err)
         | Inr storageQuantity \<Rightarrow>
             Create env (OPersistentVolumeClaim (claim_object env v namespace storageQuantity))))
     })"

definition syncer_image :: "'w env \<Rightarrow> string" where
  "syncer_image env =
     (if e_getenv env ''VOLUME_SYNCER_IMAGE'' = [] then ''sharedvolume/volume-syncer:0.0.18''
      else e_getenv env ''VOLUME_SYNCER_IMAGE'')"

definition quoted :: "string \<Rightarrow> string" where
  "quoted s = CHR 0x27 # s @ [CHR 0x27]"

definition replica_set_object :: "'w env \<Rightarrow> VolumeObject \<Rightarrow> string \<Rightarrow> ReplicaSet" where
  "replica_set_object env v namespace =
     (let ref = ReferenceValue (GetVolumeSpec v);
          folder = GetName v @ ''-'' @ namespace;
          mount = \<lparr>vm_MountPath = ''/nfs'', vm_Name = ''shared-volume'', vm_ReadOnly = False\<rparr>
      in \<lparr>rs_Meta = empty_meta\<lparr>om_Name := ref, om_Namespace := namespace,
            om_Labels := (''app'', ref) # managed_labels v namespace,
            om_OwnerReferences := [owner_reference env v]\<rparr>,
          rs_Replicas = Some 1, rs_Selector = [(''app'', ref)], rs_TemplateLabels = [(''app'', ref)],
          rs_TemplateSpec = \<lparr>
            ps_InitContainers = [\<lparr>ct_Name = ''setup-folders'', ct_Image = syncer_image env,
              ct_Command = [''sh'', ''-c'',
                ''mkdir -p /nfs/'' @ folder @ '' && echo '' @ quoted ''sv-sample-file'' @ '' > /nfs/'' @ folder
                @ ''/.sv && echo '' @ quoted (''Created folder /nfs/'' @ folder @ '' with .sv file'')],
              ct_Ports = [], ct_VolumeMounts = [mount]\<rparr>],
            ps_Containers = [\<lparr>ct_Name = ref @ ''-syncer'', ct_Image = syncer_image env, ct_Command = [],
              ct_Ports = [\<lparr>cp_ContainerPort = 8080, cp_Protocol = ''TCP''\<rparr>], ct_VolumeMounts = [mount]\<rparr>],
            ps_Volumes = [\<lparr>pvol_Name = ''shared-volume'', pvol_ClaimName = Some ref\<rparr>]\<rparr>,
          rs_ReadyReplicas = 0\<rparr>)"

text \<open>The check of the port of the first container, and of the first port of the service.\<close>

definition replica_set_outdated :: "ReplicaSet \<Rightarrow> bool" where
  "replica_set_outdated rs =
     (case ps_Containers (rs_TemplateSpec rs) of
        [] \<Rightarrow> False
      | ct # _ \<Rightarrow> (case ct_Ports ct of [] \<Rightarrow> False | p # _ \<Rightarrow> cp_ContainerPort p \<noteq> 8080))"

definition ReconcileReplicaSet :: "'w env \<Rightarrow> VolumeObject \<Rightarrow> string \<Rightarrow> ('w, error + unit) prog" where
  "ReconcileReplicaSet env v namespace = do {
     r \<leftarrow> GetReplicaSet env namespace (ReferenceValue (GetVolumeSpec v));
     case r of
       Inl _ \<Rightarrow> Create env (OReplicaSet (replica_set_object env v namespace))
     | Inr existingRS \<Rightarrow>
         if replica_set_outdated existingRS
         then bindE (Delete env (OReplicaSet existingRS)) (\<lambda>_.
              Create env (OReplicaSet (replica_set_object env v namespace)))
         else ret (Inr ())
   }"

definition service_object :: "'w env \<Rightarrow> VolumeObject \<Rightarrow> string \<Rightarrow> Service" where
  "service_object env v namespace =
     (let ref = ReferenceValue (GetVolumeSpec v)
      in \<lparr>svc_Meta = empty_meta\<lparr>om_Name := ref, om_Namespace := namespace,
            om_Labels := managed_labels v namespace, om_OwnerReferences := [owner_reference env v]\<rparr>,
          svc_Selector = [(''app'', ref)],
          svc_Ports = [\<lparr>sp_Port = 8080, sp_TargetPort = 8080, sp_Protocol = ''TCP''\<rparr>],
          svc_Type = ''ClusterIP''\<rparr>)"

definition service_outdated :: "Service \<Rightarrow> bool" where
  "service_outdated svc = (case svc_Ports svc of [] \<Rightarrow> False | p # _ \<Rightarrow> sp_Port p \<noteq> 8080)"

definition ReconcileService :: "'w env \<Rightarrow> VolumeObject \<Rightarrow> string \<Rightarrow> ('w, error + unit) prog" where
  "ReconcileService env v namespace = do {
     r \<leftarrow> GetService env namespace (ReferenceValue (GetVolumeSpec v));
     case r of
       Inl _ \<Rightarrow> Create env (OService (service_object env v namespace))
     | Inr existingSvc \<Rightarrow>
         if service_outdated existingSvc
         then bindE (Delete env (OService existingSvc)) (\<lambda>_.
              Create env (OService (service_object env v namespace)))
         else ret (Inr ())
   }"

definition ReconcileRequiredResources :: "'w env \<Rightarrow> VolumeObject \<Rightarrow> string \<Rightarrow> ('w, error + unit) prog" where
  "ReconcileRequiredResources env v namespace =
     (if ReferenceValue (GetVolumeSpec v) = []
      then ret (Inl (Errorf ''referenceValue must be set before calling ReconcileRequiredResources''))
      else bindE (ReconcilePersistentVolume env v namespace) (\<lambda>_.
           bindE (ReconcilePersistentVolumeClaim env v namespace) (\<lambda>_.
           bindE (ReconcileReplicaSet env v namespace) (\<lambda>_.
           bindE (ReconcileService env v namespace) (\<lambda>_.
           ret (Inr ()))))))"

subsection \<open>Readiness\<close>

definition IsReplicaSetReady :: "'w env \<Rightarrow> VolumeObject \<Rightarrow> string \<Rightarrow> ('w, error + bool) prog" where
  "IsReplicaSetReady env v namespace = do {
     r \<leftarrow> GetReplicaSet env namespace (ReferenceValue (GetVolumeSpec v));
     case r of
       Inl err \<Rightarrow> (case IgnoreNotFound err of None \<Rightarrow> ret (Inr False) | Some err \<Rightarrow> ret (Inl err))
     | Inr rs \<Rightarrow>
         (case rs_Replicas rs of
            None \<Rightarrow> ret (Inr False)
          | Some desired \<Rightarrow> ret (Inr (rs_ReadyReplicas rs = desired)))
   }"

definition IsPVCReady :: "'w env \<Rightarrow> VolumeObject \<Rightarrow> string \<Rightarrow> ('w, error + bool) prog" where
  "IsPVCReady env v namespace = do {
     r \<leftarrow> GetPVC env namespace (ReferenceValue (GetVolumeSpec v));
     case r of
       Inl err \<Rightarrow> (case IgnoreNotFound err of None \<Rightarrow> ret (Inr False) | Some err \<Rightarrow> ret (Inl err))
     | Inr pvc \<Rightarrow> ret (Inr (pvc_Phase pvc = ''Bound''))
   }"

section \<open>Generated servers\<close>

lemma rand_Intn_less: "0 < n \<Longrightarrow> yields (\<lambda>k. k < n) (rand_Intn env n)"
  by (auto simp: yields_def results_def rand_Intn_def split: prod.split)

lemma RandString_letters: "yields (\<lambda>s. length s = n \<and> set s \<subseteq> set letters) (RandString env n)"
proof (induction n)
  case 0
  then show ?case by (auto intro!: yields_ret)
next
  case (Suc n)
  have pos: "0 < length letters" by (simp add: letters_def)
  show ?case
    unfolding RandString.simps
    by (rule yields_bind [OF rand_Intn_less [OF pos]], rule yields_bind [OF Suc], rule yields_ret) auto
qed

lemma dot_not_letter: "CHR ''.'' \<notin> set letters"
  by (simp add: letters_def)

lemma generated_server_external:
  "IsExternalNfsServer (Some (generated_server ref ns)) \<longleftrightarrow> CHR ''.'' \<in> set ref"
proof -
  have "length (nfs_Name (generated_server ref ns)) \<noteq> length (nfs_URL (generated_server ref ns))"
    by (simp add: generated_server_def Let_def)
  then have "nfs_Name (generated_server ref ns) \<noteq> nfs_URL (generated_server ref ns)"
    by metis
  then show ?thesis
    by (auto simp: IsExternalNfsServer_Some generated_server_def Let_def strings_HasPrefix_def)
qed

text \<open>
  The NFS server generated for a volume counts as managed exactly when the reference value
  holds no dot; a reference value the controller draws itself (the prefix, a dash and twelve
  letters or digits) never holds one, and the URL written into the specification is the address
  the persistent volume will use.
\<close>

theorem generated_server_managed:
  "(IsExternalNfsServer (Some (generated_server ref ns)) \<longleftrightarrow> CHR ''.'' \<in> set ref)
   \<and> (ns \<noteq> [] \<longrightarrow> GetManagedNfsServerAddress v (generated_server ref ns) = nfs_URL (generated_server ref ns))
   \<and> yields (\<lambda>ref. ReferenceValue spec = [] \<longrightarrow> \<not> IsExternalNfsServer (Some (generated_server ref ns))
        \<and> length ref = 15) (reference_value env spec ''sv'')"
proof (intro conjI impI)
  show "GetManagedNfsServerAddress v (generated_server ref ns) = nfs_URL (generated_server ref ns)" if "ns \<noteq> []"
    using that by (simp add: GetManagedNfsServerAddress_def generated_server_def Let_def)
  have "yields (\<lambda>ref. \<not> IsExternalNfsServer (Some (generated_server ref ns)) \<and> length ref = 15)
      (do { s \<leftarrow> RandString env 12; ret (''sv'' @ ''-'' @ s) })"
    by (rule yields_bind [OF RandString_letters], rule yields_ret)
       (use dot_not_letter in \<open>auto simp: generated_server_external\<close>)
  then show "yields (\<lambda>ref. ReferenceValue spec = [] \<longrightarrow> \<not> IsExternalNfsServer (Some (generated_server ref ns))
        \<and> length ref = 15) (reference_value env spec ''sv'')"
    by (auto simp: reference_value_def intro: yields_mono yields_ret)
qed (rule generated_server_external)

theorem generated_server_managed_witness:
  "GetManagedNfsServerAddress sample_volume (generated_server ''sv-a1'' ''team'') = ''nfs-sv-a1.team.svc.cluster.local''"
  using generated_server_managed [of "''sv-a1''" "''team''" sample_volume sample_spec store_env]
  by (simp add: generated_server_def)

text \<open>A server whose answer to an update holds the specification that was sent.\<close>

definition echoes_spec :: "'w env \<Rightarrow> bool" where
  "echoes_spec env \<longleftrightarrow> (\<forall>v s v'. fst (e_api env (UpdateReq (OVolume v)) s) = RObject (OVolume v')
     \<longrightarrow> vo_Spec v' = vo_Spec v)"

lemma results_UpdateVolume:
  "Inr v' \<in> results (UpdateVolume env v) \<Longrightarrow> \<exists>s. fst (e_api env (UpdateReq (OVolume v)) s) = RObject (OVolume v')"
  unfolding UpdateVolume_def
  by (auto dest!: results_bindD simp: results_api_call) (metis as_object_Inr the_volume_Some)

lemma echoes_UpdateVolume:
  "echoes_spec env \<Longrightarrow> Inr v' \<in> results (UpdateVolume env v) \<Longrightarrow> vo_Spec v' = vo_Spec v"
  unfolding echoes_spec_def by (blast dest: results_UpdateVolume)

fun is_create :: "event \<Rightarrow> bool" where
  "is_create (EApi (CreateReq _) _) = True"
| "is_create _ = False"

text \<open>
  A reference value set by the user that holds a dot is accepted but no NFS server is ever
  created for it: the generated server then counts as external.
\<close>

theorem dotted_reference_creates_nothing:
  assumes "echoes_spec env" and "ReferenceValue (vo_Spec v) \<noteq> []" and "CHR ''.'' \<in> set (ReferenceValue (vo_Spec v))"
  shows "emits (\<lambda>e. \<not> is_create e) (GenerateAndCreateNfsServer env v resourcePrefix namespace)"
proof -
  have "emits (\<lambda>e. \<not> is_create e) (CreateAndOwnNfsServer env v' namespace)"
    if "NfsServer (vo_Spec v') = Some (generated_server (ReferenceValue (vo_Spec v)) namespace)" for v'
    using that assms(3) by (auto simp: CreateAndOwnNfsServer_def GetVolumeSpec_def generated_server_external
        intro!: keeps_intro)
  then show ?thesis
    using assms(2) unfolding GenerateAndCreateNfsServer_def reference_value_def
    by (intro keeps_intro) (auto dest!: echoes_UpdateVolume [OF assms(1)] simp: GetVolumeSpec_def)
qed

lemma echoes_store_env: "echoes_spec store_env"
  by (auto simp: echoes_spec_def store_env_def split: if_splits)

definition dotted_volume :: VolumeObject where
  "dotted_volume = set_spec (sample_spec\<lparr>NfsServer := None, ReferenceValue := ''my.data''\<rparr>) sample_volume"

theorem dotted_reference_creates_nothing_witness:
  "emits (\<lambda>e. \<not> is_create e) (GenerateAndCreateNfsServer store_env dotted_volume ''sv'' ''team'')"
  by (rule dotted_reference_creates_nothing [OF echoes_store_env]) (simp_all add: dotted_volume_def)

section \<open>The four resources\<close>

text \<open>The keys of the objects of a volume, and their place in the order of creation.\<close>

definition resource_keys :: "VolumeObject \<Rightarrow> string \<Rightarrow> key set" where
  "resource_keys v namespace =
     {(KPersistentVolume, [], pv_name (GetVolumeSpec v)),
      (KPersistentVolumeClaim, namespace, ReferenceValue (GetVolumeSpec v)),
      (KReplicaSet, namespace, ReferenceValue (GetVolumeSpec v)),
      (KService, namespace, ReferenceValue (GetVolumeSpec v))}"

fun creation_rank :: "key \<Rightarrow> nat" where
  "creation_rank (KPersistentVolume, _, _) = 0"
| "creation_rank (KPersistentVolumeClaim, _, _) = 1"
| "creation_rank (KReplicaSet, _, _) = 2"
| "creation_rank (KService, _, _) = 3"
| "creation_rank _ = 4"

lemma key_of_resources [simp]:
  "key_of (OPersistentVolume (volume_object v ns q a p)) = (KPersistentVolume, [], pv_name (GetVolumeSpec v))"
  "key_of (OPersistentVolumeClaim (claim_object env v ns q)) = (KPersistentVolumeClaim, ns, ReferenceValue (GetVolumeSpec v))"
  "key_of (OReplicaSet (replica_set_object env v ns)) = (KReplicaSet, ns, ReferenceValue (GetVolumeSpec v))"
  "key_of (OService (service_object env v ns)) = (KService, ns, ReferenceValue (GetVolumeSpec v))"
  by (simp_all add: key_of_def volume_object_def claim_object_def replica_set_object_def service_object_def
      empty_meta_def Let_def)

lemma meta_of_resources [simp]:
  "om_Name (rs_Meta (replica_set_object env v ns)) = ReferenceValue (GetVolumeSpec v)"
  "om_Namespace (rs_Meta (replica_set_object env v ns)) = ns"
  "om_Name (svc_Meta (service_object env v ns)) = ReferenceValue (GetVolumeSpec v)"
  "om_Namespace (svc_Meta (service_object env v ns)) = ns"
  by (simp_all add: replica_set_object_def service_object_def empty_meta_def Let_def)

lemma ReconcilePersistentVolume_writes:
  "emits (writes_in (\<lambda>k. k = (KPersistentVolume, [], pv_name (GetVolumeSpec v)))) (ReconcilePersistentVolume env v ns)"
  unfolding ReconcilePersistentVolume_def by (intro keeps_intro) simp_all

lemma ReconcilePersistentVolumeClaim_writes:
  "emits (writes_in (\<lambda>k. k = (KPersistentVolumeClaim, ns, ReferenceValue (GetVolumeSpec v))))
     (ReconcilePersistentVolumeClaim env v ns)"
  unfolding ReconcilePersistentVolumeClaim_def by (intro keeps_intro) simp_all

lemma ReconcileReplicaSet_writes:
  assumes "honest env"
  shows "emits (writes_in (\<lambda>k. k = (KReplicaSet, ns, ReferenceValue (GetVolumeSpec v)))) (ReconcileReplicaSet env v ns)"
  unfolding ReconcileReplicaSet_def
  by (intro keeps_intro) (auto dest: honest_decoded [OF assms] simp: key_of_def)

lemma ReconcileService_writes:
  assumes "honest env"
  shows "emits (writes_in (\<lambda>k. k = (KService, ns, ReferenceValue (GetVolumeSpec v)))) (ReconcileService env v ns)"
  unfolding ReconcileService_def
  by (intro keeps_intro) (auto dest: honest_decoded [OF assms] simp: key_of_def)

lemmas resource_writes =
  ReconcilePersistentVolume_writes ReconcilePersistentVolumeClaim_writes
  ReconcileReplicaSet_writes ReconcileService_writes

lemma resource_writes_in:
  assumes "honest env"
  shows "emits (writes_in (\<lambda>k. k \<in> resource_keys v ns)) (ReconcileRequiredResources env v ns)"
proof -
  have sub: "emits (writes_in (\<lambda>k. k = k0)) m \<Longrightarrow> k0 \<in> resource_keys v ns \<Longrightarrow>
      emits (writes_in (\<lambda>k. k \<in> resource_keys v ns)) m" for k0 and m :: "('a, error + unit) prog"
    by (erule emits_weaken) (auto elim: writes_in_mono)
  show ?thesis
    unfolding ReconcileRequiredResources_def
    by (intro keeps_intro sub [OF resource_writes(1)] sub [OF resource_writes(2)]
        sub [OF resource_writes(3) [OF assms]] sub [OF resource_writes(4) [OF assms]])
       (simp_all add: resource_keys_def)
qed

lemma resource_ranks:
  assumes "honest env"
  shows "ranked creation_rank 0 3 (ReconcileRequiredResources env v ns)"
proof -
  have level: "emits (writes_in (\<lambda>k. k = k0)) m \<Longrightarrow> creation_rank k0 = a \<Longrightarrow> ranked creation_rank a a m"
    for k0 a and m :: "('a, error + unit) prog"
    by (rule ranked_level) (auto elim: emits_weaken writes_in_mono)
  have "ranked creation_rank 3 3 (bindE (ReconcileService env v ns) (\<lambda>_. ret (Inr ())))"
    by (rule ranked_bindE [OF level [OF resource_writes(4) [OF assms]]]) (simp_all add: ranked_ret)
  then have "ranked creation_rank 2 3 (bindE (ReconcileReplicaSet env v ns) (\<lambda>_.
      bindE (ReconcileService env v ns) (\<lambda>_. ret (Inr ()))))"
    by (intro ranked_bindE [OF level [OF resource_writes(3) [OF assms]]]) (auto elim: ranked_weaken)
  then have "ranked creation_rank 1 3 (bindE (ReconcilePersistentVolumeClaim env v ns) (\<lambda>_.
      bindE (ReconcileReplicaSet env v ns) (\<lambda>_. bindE (ReconcileService env v ns) (\<lambda>_. ret (Inr ())))))"
    by (intro ranked_bindE [OF level [OF resource_writes(2)]]) (auto elim: ranked_weaken)
  then show ?thesis
    unfolding ReconcileRequiredResources_def
    by (auto intro!: ranked_ret ranked_bindE [OF level [OF resource_writes(1)]] elim: ranked_weaken)
qed

text \<open>
  C20. With a server that answers for the object asked for, the reconciliation of the resources
  writes (creates or deletes) no object but the volume, claim, ReplicaSet and service named
  after the reference value, and in this order, so that a later object never exists before
  an earlier one has been dealt with.
\<close>

theorem ReconcileRequiredResources_scope:
  assumes "honest env"
  shows "list_all (writes_in (\<lambda>k. k \<in> resource_keys v ns)) (emitted (ReconcileRequiredResources env v ns) w)
    \<and> sorted (write_ranks creation_rank (emitted (ReconcileRequiredResources env v ns) w))"
  using emits_emitted [OF resource_writes_in [OF assms]] ranked_emitted [OF resource_ranks [OF assms]] by blast

theorem ReconcileRequiredResources_scope_witness:
  "sorted (write_ranks creation_rank (emitted (ReconcileRequiredResources store_env sample_volume ''team'') (world_of [])))"
  using ReconcileRequiredResources_scope [OF honest_store_env] by blast

section \<open>Reconciling twice\<close>

text \<open>An object the reconciliation leaves as it is.\<close>

fun up_to_date :: "kobj \<Rightarrow> bool" where
  "up_to_date (OReplicaSet rs) = (\<not> replica_set_outdated rs)"
| "up_to_date (OService svc) = (\<not> service_outdated svc)"
| "up_to_date _ = True"

text \<open>What the controller asks for in the ReplicaSets it makes: one replica.\<close>

fun as_made :: "kobj \<Rightarrow> bool" where
  "as_made (OReplicaSet rs) = (rs_Replicas rs = Some 1)"
| "as_made _ = True"

lemma stored_key: "stores env objs \<Longrightarrow> objs s k = Some obj \<Longrightarrow> key_of obj = k"
  unfolding stores_def by blast

lemma stored_kind: "stores env objs \<Longrightarrow> objs s (k, ns, n) = Some obj \<Longrightarrow> kind_of obj = k"
  using stored_key [of env objs s "(k, ns, n)" obj] by (simp add: key_of_def)

lemma run_stored_Get:
  "stores env objs \<Longrightarrow> run_state (Get_as dec env k ns n) w =
     (case objs (w_srv w) (k, ns, n) of
        None \<Rightarrow> (Inl (NotFound n), w\<lparr>w_hist := w_hist w @ [EApi (GetReq k ns n) (RError (NotFound n))]\<rparr>)
      | Some obj \<Rightarrow> (as_object dec (RObject obj), w\<lparr>w_hist := w_hist w @ [EApi (GetReq k ns n) (RObject obj)]\<rparr>))"
  by (simp add: stores_def Get_as_def run_api_call as_object_def split: option.split)

lemma run_stored_Create:
  assumes "stores env objs" and "run_state (Create env obj) w = (Inr (), w')"
  shows "objs (w_srv w') = (objs (w_srv w))(key_of obj \<mapsto> obj)"
proof (cases "objs (w_srv w) (key_of obj)")
  case None
  with assms have "objs (snd (e_api env (CreateReq obj) (w_srv w))) = (objs (w_srv w))(key_of obj \<mapsto> obj)"
    unfolding stores_def by meson
  with assms(2) show ?thesis by (auto simp: Create_def run_api_call)
next
  case (Some old)
  with assms(1) obtain e where "fst (e_api env (CreateReq obj) (w_srv w)) = RError e"
    unfolding stores_def by (metis option.distinct(1))
  with assms(2) show ?thesis by (simp add: Create_def run_api_call as_done_def)
qed

lemma run_stored_Delete:
  assumes "stores env objs" and "objs (w_srv w) (key_of obj) \<noteq> None"
    and "run_state (Delete env obj) w = (r, w')"
  shows "objs (w_srv w') = (objs (w_srv w))(key_of obj := None)"
proof -
  have "objs (snd (e_api env (DeleteReq (kind_of obj) (om_Namespace (meta_of obj)) (om_Name (meta_of obj)) None)
      (w_srv w))) = (objs (w_srv w))(key_of obj := None)"
    using assms(1,2) unfolding stores_def key_of_def by blast
  with assms(3) show ?thesis by (auto simp: Delete_def run_api_call)
qed

text \<open>
  \<open>settles env objs k m\<close>: a successful run of \<open>m\<close> leaves an up-to-date object under the key \<open>k\<close>, the
  one that was there or one as the controller makes them, and changes nothing else; where there is an
  up-to-date one already, \<open>m\<close> only reads it.
\<close>

definition settles :: "'w env \<Rightarrow> ('w \<Rightarrow> key \<Rightarrow> kobj option) \<Rightarrow> key \<Rightarrow> ('w, error + unit) prog \<Rightarrow> bool" where
  "settles env objs k m \<longleftrightarrow>
     (\<forall>w w'. run_state m w = (Inr (), w')
        \<longrightarrow> (\<exists>x. objs (w_srv w') = (objs (w_srv w))(k \<mapsto> x) \<and> up_to_date x \<and> (objs (w_srv w) k = Some x \<or> as_made x)))
     \<and> (\<forall>w x. objs (w_srv w) k = Some x \<longrightarrow> up_to_date x
        \<longrightarrow> run_state m w = (Inr (), w\<lparr>w_hist := w_hist w @ [EApi (GetReq (fst k) (fst (snd k)) (snd (snd k))) (RObject x)]\<rparr>))"

lemma settlesI:
  assumes "\<And>w x. objs (w_srv w) k = Some x \<Longrightarrow> up_to_date x \<Longrightarrow> run_state m w =
      (Inr (), w\<lparr>w_hist := w_hist w @ [EApi (GetReq (fst k) (fst (snd k)) (snd (snd k))) (RObject x)]\<rparr>)"
    and "\<And>w w'. \<not> (\<exists>x. objs (w_srv w) k = Some x \<and> up_to_date x) \<Longrightarrow> run_state m w = (Inr (), w') \<Longrightarrow>
      \<exists>x. objs (w_srv w') = (objs (w_srv w))(k \<mapsto> x) \<and> up_to_date x \<and> as_made x"
  shows "settles env objs k m"
proof -
  have "\<exists>x. objs (w_srv w') = (objs (w_srv w))(k \<mapsto> x) \<and> up_to_date x \<and> (objs (w_srv w) k = Some x \<or> as_made x)"
    if r: "run_state m w = (Inr (), w')" for w w'
  proof (cases "\<exists>x. objs (w_srv w) k = Some x \<and> up_to_date x")
    case True
    with assms(1) [of w] r obtain x where "objs (w_srv w) k = Some x" "up_to_date x" "w_srv w' = w_srv w"
      by auto
    then show ?thesis by (metis fun_upd_triv)
  next
    case False
    then show ?thesis using assms(2) r by blast
  qed
  with assms(1) show ?thesis by (simp add: settles_def)
qed

lemma is_the:
  "kind_of obj = KPersistentVolume \<Longrightarrow> \<exists>x. obj = OPersistentVolume x"
  "kind_of obj = KPersistentVolumeClaim \<Longrightarrow> \<exists>x. obj = OPersistentVolumeClaim x"
  "kind_of obj = KReplicaSet \<Longrightarrow> \<exists>x. obj = OReplicaSet x"
  "kind_of obj = KService \<Longrightarrow> \<exists>x. obj = OService x"
  by (cases obj; simp)+

lemma settles_PV:
  assumes "stores env objs"
  shows "settles env objs (KPersistentVolume, [], pv_name (GetVolumeSpec v)) (ReconcilePersistentVolume env v ns)"
proof (rule settlesI, goal_cases)
  case (1 w x)
  then obtain pv where "x = OPersistentVolume pv"
    using stored_kind [OF assms] is_the(1) by metis
  with 1 show ?case
    by (simp add: ReconcilePersistentVolume_def run_stored_Get [OF assms] as_object_def Let_def)
next
  case (2 w w')
  have "up_to_date x" if "objs (w_srv w) (KPersistentVolume, [], pv_name (GetVolumeSpec v)) = Some x" for x
    using stored_kind [OF assms that] by (cases x) auto
  with 2 have none: "objs (w_srv w) (KPersistentVolume, [], pv_name (GetVolumeSpec v)) = None"
    by auto
  with 2(2) obtain q a p h where
      "run_state (Create env (OPersistentVolume (volume_object v ns q a p))) (w\<lparr>w_hist := h\<rparr>) = (Inr (), w')"
    by (auto simp: ReconcilePersistentVolume_def run_stored_Get [OF assms] Let_def
        split: option.splits sum.splits if_splits)
  then show ?case
    using run_stored_Create [OF assms] by fastforce
qed

lemma settles_PVC:
  assumes "stores env objs"
  shows "settles env objs (KPersistentVolumeClaim, ns, ReferenceValue (GetVolumeSpec v))
    (ReconcilePersistentVolumeClaim env v ns)"
proof (rule settlesI, goal_cases)
  case (1 w x)
  then obtain pvc where "x = OPersistentVolumeClaim pvc"
    using stored_kind [OF assms] is_the(2) by metis
  with 1 show ?case
    by (simp add: ReconcilePersistentVolumeClaim_def run_stored_Get [OF assms] as_object_def Let_def)
next
  case (2 w w')
  let ?k = "(KPersistentVolumeClaim, ns, ReferenceValue (GetVolumeSpec v))"
  have "up_to_date x" if "objs (w_srv w) ?k = Some x" for x
    using stored_kind [OF assms that] by (cases x) auto
  with 2 have none: "objs (w_srv w) ?k = None"
    by auto
  with 2(2) obtain q h where
      "run_state (Create env (OPersistentVolumeClaim (claim_object env v ns q))) (w\<lparr>w_hist := h\<rparr>) = (Inr (), w')"
    by (auto simp: ReconcilePersistentVolumeClaim_def run_stored_Get [OF assms] Let_def
        split: option.splits sum.splits)
  then show ?case
    using run_stored_Create [OF assms] by fastforce
qed

text \<open>ReplicaSet and service: an outdated object is deleted and created again.\<close>

lemma settles_recreated:
  assumes st: "stores env objs" and new: "key_of new = k" "up_to_date new" "as_made new"
    and dec: "\<And>obj. kind_of obj = fst k \<Longrightarrow> \<exists>x. dec obj = Some x \<and> C x = obj"
    and outdated: "\<And>x. outdated x = (\<not> up_to_date (C x))"
    and m: "m = do {
      r \<leftarrow> Get_as dec env (fst k) (fst (snd k)) (snd (snd k));
      case r of
        Inl _ \<Rightarrow> Create env new
      | Inr old \<Rightarrow> if outdated old then bindE (Delete env (C old)) (\<lambda>_. Create env new) else ret (Inr ()) }"
  shows "settles env objs k m"
proof (rule settlesI, goal_cases)
  case (1 w x)
  then obtain y where y: "dec x = Some y" "C y = x"
    using stored_kind [OF st] dec by (metis prod.collapse)
  with 1 outdated show ?case
    by (simp add: m run_stored_Get [OF st] as_object_def)
next
  case (2 w w')
  show ?case
  proof (cases "objs (w_srv w) k")
    case None
    with 2(2) obtain h where "run_state (Create env new) (w\<lparr>w_hist := h\<rparr>) = (Inr (), w')"
      by (auto simp: m run_stored_Get [OF st])
    then show ?thesis
      using run_stored_Create [OF st] new by fastforce
  next
    case (Some x)
    then obtain y where y: "dec x = Some y" "C y = x"
      using stored_kind [OF st] dec by (metis prod.collapse)
    have k: "key_of x = k"
      using stored_key [OF st Some] .
    have "outdated y"
      using 2(1) Some y outdated by auto
    with 2(2) Some y obtain h u w1 where w0: "run_state (Delete env x) (w\<lparr>w_hist := h\<rparr>) = (Inr u, w1)"
        "run_state (Create env new) w1 = (Inr (), w')"
      by (auto simp: m run_stored_Get [OF st] as_object_def split: prod.splits sum.splits)
    have "objs (w_srv w1) = (objs (w_srv w))(k := None)"
      using run_stored_Delete [OF st _ w0(1)] Some k by simp
    then show ?thesis
      using run_stored_Create [OF st w0(2)] new by (metis fun_upd_upd)
  qed
qed

lemma fresh_up_to_date [simp]:
  "\<not> replica_set_outdated (replica_set_object env v ns)" "\<not> service_outdated (service_object env v ns)"
  by (simp_all add: replica_set_outdated_def replica_set_object_def service_outdated_def service_object_def Let_def)

lemma fresh_as_made [simp]: "rs_Replicas (replica_set_object env v ns) = Some 1"
  by (simp add: replica_set_object_def Let_def)

lemma settles_RS:
  assumes "stores env objs"
  shows "settles env objs (KReplicaSet, ns, ReferenceValue (GetVolumeSpec v)) (ReconcileReplicaSet env v ns)"
  by (rule settles_recreated [OF assms, where new = "OReplicaSet (replica_set_object env v ns)" and dec = the_rs
        and C = OReplicaSet and outdated = replica_set_outdated])
     (auto simp: ReconcileReplicaSet_def dest: is_the(3))

lemma settles_Service:
  assumes "stores env objs"
  shows "settles env objs (KService, ns, ReferenceValue (GetVolumeSpec v)) (ReconcileService env v ns)"
  by (rule settles_recreated [OF assms, where new = "OService (service_object env v ns)" and dec = the_svc
        and C = OService and outdated = service_outdated])
     (auto simp: ReconcileService_def dest: is_the(4))

lemma required_settled:
  assumes "stores env objs" and "run_state (ReconcileRequiredResources env v ns) w = (Inr (), w')"
  shows "\<exists>a b c d. objs (w_srv w') = (objs (w_srv w))
      ((KPersistentVolume, [], pv_name (GetVolumeSpec v)) \<mapsto> a,
       (KPersistentVolumeClaim, ns, ReferenceValue (GetVolumeSpec v)) \<mapsto> b,
       (KReplicaSet, ns, ReferenceValue (GetVolumeSpec v)) \<mapsto> c,
       (KService, ns, ReferenceValue (GetVolumeSpec v)) \<mapsto> d)
    \<and> up_to_date a \<and> up_to_date b \<and> up_to_date c \<and> up_to_date d
    \<and> (objs (w_srv w) (KReplicaSet, ns, ReferenceValue (GetVolumeSpec v)) = Some c \<or> as_made c)"
proof -
  note settle = settles_PV [OF assms(1), of v ns] settles_PVC [OF assms(1), of ns v]
    settles_RS [OF assms(1), of ns v] settles_Service [OF assms(1), of ns v]
  note first = settle [unfolded settles_def, THEN conjunct1, rule_format]
  from assms(2) obtain w1 w2 w3 where
      1: "run_state (ReconcilePersistentVolume env v ns) w = (Inr (), w1)" and
      2: "run_state (ReconcilePersistentVolumeClaim env v ns) w1 = (Inr (), w2)" and
      3: "run_state (ReconcileReplicaSet env v ns) w2 = (Inr (), w3)" and
      4: "run_state (ReconcileService env v ns) w3 = (Inr (), w')"
    by (auto simp: ReconcileRequiredResources_def split: prod.splits sum.splits if_splits)
  from first(1) [OF 1] obtain a where a: "up_to_date a"
      "objs (w_srv w1) = (objs (w_srv w))((KPersistentVolume, [], pv_name (GetVolumeSpec v)) \<mapsto> a)"
    by blast
  from first(2) [OF 2] obtain b where b: "up_to_date b"
      "objs (w_srv w2) = (objs (w_srv w1))((KPersistentVolumeClaim, ns, ReferenceValue (GetVolumeSpec v)) \<mapsto> b)"
    by blast
  from first(3) [OF 3] obtain c where c: "up_to_date c"
      "objs (w_srv w3) = (objs (w_srv w2))((KReplicaSet, ns, ReferenceValue (GetVolumeSpec v)) \<mapsto> c)"
      "objs (w_srv w2) (KReplicaSet, ns, ReferenceValue (GetVolumeSpec v)) = Some c \<or> as_made c"
    by blast
  from first(4) [OF 4] obtain d where d: "up_to_date d"
      "objs (w_srv w') = (objs (w_srv w3))((KService, ns, ReferenceValue (GetVolumeSpec v)) \<mapsto> d)"
    by blast
  show ?thesis
    using a b c d by (intro exI [of _ a] exI [of _ b] exI [of _ c] exI [of _ d]) simp
qed

text \<open>
  C19. Reconciling is idempotent. Against a server that stores objects and with no other client,
  a successful reconciliation leaves all four objects in place and up to date, and a second one
  succeeds with four reads and without a write.
\<close>

theorem ReconcileRequiredResources_idempotent:
  assumes "stores env objs" and "run_state (ReconcileRequiredResources env v ns) w = (Inr (), w')"
  shows "(\<forall>k \<in> resource_keys v ns. \<exists>x. objs (w_srv w') k = Some x \<and> up_to_date x)
    \<and> (\<forall>k. k \<notin> resource_keys v ns \<longrightarrow> objs (w_srv w') k = objs (w_srv w) k)
    \<and> (\<exists>es. list_all reads_only es \<and> length es = 4
         \<and> run_state (ReconcileRequiredResources env v ns) w' = (Inr (), w'\<lparr>w_hist := w_hist w' @ es\<rparr>))"
proof -
  note settle = settles_PV [OF assms(1), of v ns] settles_PVC [OF assms(1), of ns v]
    settles_RS [OF assms(1), of ns v] settles_Service [OF assms(1), of ns v]
  note again = settle [unfolded settles_def, THEN conjunct2, rule_format]
  have ref: "ReferenceValue (GetVolumeSpec v) \<noteq> []"
    using assms(2) by (auto simp: ReconcileRequiredResources_def)
  obtain a b c d where w': "objs (w_srv w') = (objs (w_srv w))
      ((KPersistentVolume, [], pv_name (GetVolumeSpec v)) \<mapsto> a,
       (KPersistentVolumeClaim, ns, ReferenceValue (GetVolumeSpec v)) \<mapsto> b,
       (KReplicaSet, ns, ReferenceValue (GetVolumeSpec v)) \<mapsto> c,
       (KService, ns, ReferenceValue (GetVolumeSpec v)) \<mapsto> d)"
    and ok: "up_to_date a" "up_to_date b" "up_to_date c" "up_to_date d"
    using required_settled [OF assms] by blast
  have "\<exists>es. list_all reads_only es \<and> length es = 4
      \<and> run_state (ReconcileRequiredResources env v ns) w' = (Inr (), w'\<lparr>w_hist := w_hist w' @ es\<rparr>)"
    using ref ok w' by (intro exI [of _ "[EApi (GetReq KPersistentVolume [] (pv_name (GetVolumeSpec v))) (RObject a),
        EApi (GetReq KPersistentVolumeClaim ns (ReferenceValue (GetVolumeSpec v))) (RObject b),
        EApi (GetReq KReplicaSet ns (ReferenceValue (GetVolumeSpec v))) (RObject c),
        EApi (GetReq KService ns (ReferenceValue (GetVolumeSpec v))) (RObject d)]"])
      (simp add: ReconcileRequiredResources_def again)
  then show ?thesis
    using w' ok by (auto simp: resource_keys_def)
qed

theorem ReconcileRequiredResources_idempotent_witness:
  "\<exists>w' es. list_all reads_only es
     \<and> run_state (ReconcileRequiredResources store_env sample_volume ''team'') w' = (Inr (), w'\<lparr>w_hist := w_hist w' @ es\<rparr>)"
proof -
  have "\<exists>w'. run_state (ReconcileRequiredResources store_env sample_volume ''team'') (world_of []) = (Inr (), w')"
    by (simp add: ReconcileRequiredResources_def ReconcilePersistentVolume_def ReconcilePersistentVolumeClaim_def
        ReconcileReplicaSet_def ReconcileService_def client_simps store_simps sample_volume_simps
        IsExternalNfsServer_Some GetManagedNfsServerAddress_def GetVolumeSpec_def pv_name_def
        volume_object_def claim_object_def replica_set_object_def service_object_def managed_labels_def Let_def)
  then show ?thesis
    using ReconcileRequiredResources_idempotent [OF store_objs_stores] by blast
qed

end
