(* ===== verification/Sync_Request.thy ===== *)
theory Sync_Request
  imports Resources
begin

text \<open>
  The payload of a sync call (sync_controller.go): secrets, the request for each of the four
  kinds of source in the variant for a \<open>SharedVolume\<close> and in the one for any volume
  specification, and the call itself. \<open>json.Marshal\<close> cannot fail on these structs.
\<close>

section \<open>Base64\<close>

text \<open>\<open>base64.StdEncoding.EncodeToString\<close>.\<close>

definition base64_alphabet :: string where
  "base64_alphabet =
     ''ABCDEFGHIJKLMNOPQRSTUVWXYZabcdefghijklmnopqrstuvwxyz0123456789+/''"

definition sextet :: "nat \<Rightarrow> char" where
  "sextet n = base64_alphabet ! (n mod 64)"

fun base64_bytes :: "nat list \<Rightarrow> string" where
  "base64_bytes [] = []"
| "base64_bytes [a] = [sextet (a div 4), sextet (a * 16), CHR ''='', CHR ''='']"
| "base64_bytes [a, b] =
     [sextet (a div 4), sextet (a * 16 + b div 16), sextet (b * 4), CHR ''='']"
| "base64_bytes (a # b # c # rest) =
     sextet (a div 4) # sextet (a * 16 + b div 16) # sextet (b * 4 + c div 64) # sextet c
     # base64_bytes rest"

definition base64_EncodeToString :: "string \<Rightarrow> string" where
  "base64_EncodeToString s = base64_bytes (map of_char s)"

section \<open>Secrets\<close>

definition getPrivateKeyFromSecret :: "'w env \<Rightarrow> string \<Rightarrow> SecretKeySelector \<Rightarrow> ('w, error + string) prog" where
  "getPrivateKeyFromSecret env namespace selector = do {
     r \<leftarrow> GetSecret env namespace (sel_Name selector);
     case r of
       Inl err \<Rightarrow>
         ret (Inl (Errorf_w (''failed to get secret '' @ namespace @ ''/'' @ sel_Name selector) err))
     | Inr secret \<Rightarrow>
         (case map_of (sec_Data secret) (sel_Key selector) of
            None \<Rightarrow> ret (Inl (Errorf (''key '' @ sel_Key selector @ '' not found in secret ''
                      @ namespace @ ''/'' @ sel_Name selector)))
          | Some privateKeyBytes \<Rightarrow> ret (Inr privateKeyBytes))
   }"

definition getSecretValue :: "'w env \<Rightarrow> string \<Rightarrow> SecretKeySelector \<Rightarrow> ('w, error + string) prog" where
  "getSecretValue env namespace selector = do {
     r \<leftarrow> GetSecret env namespace (sel_Name selector);
     case r of
       Inl err \<Rightarrow>
         ret (Inl (Errorf_w (''failed to get secret '' @ namespace @ ''/'' @ sel_Name selector) err))
     | Inr secret \<Rightarrow>
         (case map_of (sec_Data secret) (sel_Key selector) of
            None \<Rightarrow> ret (Inl (Errorf (''key '' @ sel_Key selector @ '' not found in secret ''
                      @ namespace @ ''/'' @ sel_Name selector)))
          | Some valueBytes \<Rightarrow> ret (Inr valueBytes))
   }"

text \<open>
  The pattern all builders share: a value given directly wins, otherwise the selector is
  followed. \<open>ns_of\<close> is the namespace the variant reads the secret from.
\<close>

definition wrap_err :: "string \<Rightarrow> ('w, error + 'a) prog \<Rightarrow> ('w, error + 'a) prog" where
  "wrap_err msg m = do { r \<leftarrow> m; case r of Inl err \<Rightarrow> ret (Inl (Errorf_w msg err)) | Inr x \<Rightarrow> ret (Inr x) }"

definition plain_secret ::
  "'w env \<Rightarrow> (SecretKeySelector \<Rightarrow> string) \<Rightarrow> string \<Rightarrow> string \<Rightarrow> SecretKeySelector option
     \<Rightarrow> ('w, error + string) prog" where
  "plain_secret env ns_of msg direct from_secret =
     (case from_secret of
        Some selector \<Rightarrow>
          if direct = [] then wrap_err msg (getSecretValue env (ns_of selector) selector)
          else ret (Inr direct)
      | None \<Rightarrow> ret (Inr direct))"

definition private_key ::
  "'w env \<Rightarrow> (SecretKeySelector \<Rightarrow> string) \<Rightarrow> string \<Rightarrow> SecretKeySelector option
     \<Rightarrow> ('w, error + string) prog" where
  "private_key env ns_of direct from_secret =
     (case from_secret of
        Some selector \<Rightarrow>
          if direct = [] then
            bindE (wrap_err ''failed to read private key from secret''
                     (getPrivateKeyFromSecret env (ns_of selector) selector)) (\<lambda>privateKey.
            ret (Inr (base64_EncodeToString privateKey)))
          else ret (Inr direct)
      | None \<Rightarrow> ret (Inr direct))"

text \<open>The namespace of a secret: the volume's own, or the selector's with a fallback.\<close>

definition own_namespace :: "string \<Rightarrow> SecretKeySelector \<Rightarrow> string" where
  "own_namespace namespace selector = namespace"

definition selector_namespace :: "string \<Rightarrow> SecretKeySelector \<Rightarrow> string" where
  "selector_namespace namespace selector =
     (if sel_Namespace selector = [] then namespace else sel_Namespace selector)"

section \<open>Requests\<close>

definition sync_request :: "string \<Rightarrow> SyncDetails \<Rightarrow> string \<Rightarrow> string \<Rightarrow> SyncRequest" where
  "sync_request typ details timeout targetPath =
     \<lparr>yr_Source = \<lparr>ys_Type = typ, ys_Details = details\<rparr>, yr_TargetPath = targetPath, yr_Timeout = timeout\<rparr>"

definition ssh_request ::
  "'w env \<Rightarrow> (SecretKeySelector \<Rightarrow> string) \<Rightarrow> string \<Rightarrow> SSHSourceSpec \<Rightarrow> string \<Rightarrow> string
     \<Rightarrow> ('w, error + SyncRequest) prog" where
  "ssh_request env ns_of no_auth ssh timeout targetPath =
     bindE (private_key env ns_of (ssh_PrivateKey ssh) (ssh_PrivateKeyFromSecret ssh)) (\<lambda>privateKey.
     bindE (plain_secret env ns_of ''failed to read password from secret'' (ssh_Password ssh)
              (ssh_PasswordFromSecret ssh)) (\<lambda>password.
     if privateKey = [] \<and> password = [] then ret (Inl (Errorf no_auth))
     else ret (Inr (sync_request ''ssh'' (DetailsSSH
            \<lparr>yssh_Host = ssh_Host ssh, yssh_Port = (if ssh_Port ssh = 0 then 22 else ssh_Port ssh),
             yssh_User = ssh_User ssh, yssh_Path = ssh_Path ssh, yssh_Password = password,
             yssh_PrivateKey = privateKey\<rparr>) timeout targetPath))))"

definition http_request ::
  "HTTPSourceSpec \<Rightarrow> string \<Rightarrow> string \<Rightarrow> ('w, error + SyncRequest) prog" where
  "http_request http timeout targetPath =
     ret (Inr (sync_request ''http'' (DetailsHTTP \<lparr>yhttp_URL = http_URL http\<rparr>) timeout targetPath))"

definition git_request ::
  "'w env \<Rightarrow> (SecretKeySelector \<Rightarrow> string) \<Rightarrow> GitSourceSpec \<Rightarrow> string \<Rightarrow> string
     \<Rightarrow> ('w, error + SyncRequest) prog" where
  "git_request env ns_of git timeout targetPath =
     bindE (plain_secret env ns_of ''failed to read password from secret'' (git_Password git)
              (git_PasswordFromSecret git)) (\<lambda>password.
     bindE (private_key env ns_of (git_PrivateKey git) (git_PrivateKeyFromSecret git)) (\<lambda>privateKey.
     ret (Inr (sync_request ''git'' (DetailsGit
       \<lparr>ygit_URL = git_URL git, ygit_User = git_User git, ygit_Password = password,
        ygit_PrivateKey = privateKey, ygit_Branch = git_Branch git\<rparr>) timeout targetPath))))"

definition s3_request ::
  "'w env \<Rightarrow> (SecretKeySelector \<Rightarrow> string) \<Rightarrow> S3SourceSpec \<Rightarrow> string \<Rightarrow> string
     \<Rightarrow> ('w, error + SyncRequest) prog" where
  "s3_request env ns_of s3 timeout targetPath =
     bindE (plain_secret env ns_of ''failed to read access key from secret'' (s3_AccessKey s3)
              (s3_AccessKeyFromSecret s3)) (\<lambda>accessKey.
     bindE (plain_secret env ns_of ''failed to read secret key from secret'' (s3_SecretKey s3)
              (s3_SecretKeyFromSecret s3)) (\<lambda>secretKey.
     ret (Inr (sync_request ''s3'' (DetailsS3
       \<lparr>ys3_EndpointURL = s3_EndpointURL s3, ys3_BucketName = s3_BucketName s3, ys3_Path = s3_Path s3,
        ys3_AccessKey = accessKey, ys3_SecretKey = secretKey, ys3_Region = s3_Region s3\<rparr>)
       timeout targetPath))))"

text \<open>The builders of a \<open>SharedVolume\<close> read every secret in the namespace of the volume.\<close>

definition buildSSHSyncRequest ::
  "'w env \<Rightarrow> VolumeObject \<Rightarrow> SSHSourceSpec \<Rightarrow> string \<Rightarrow> string \<Rightarrow> ('w, error + SyncRequest) prog" where
  "buildSSHSyncRequest env v =
     ssh_request env (own_namespace (GetNamespace v))
       ''either private key or password must be provided for SSH authentication''"

definition buildGitSyncRequest ::
  "'w env \<Rightarrow> VolumeObject \<Rightarrow> GitSourceSpec \<Rightarrow> string \<Rightarrow> string \<Rightarrow> ('w, error + SyncRequest) prog" where
  "buildGitSyncRequest env v = git_request env (own_namespace (GetNamespace v))"

definition buildS3SyncRequest ::
  "'w env \<Rightarrow> VolumeObject \<Rightarrow> S3SourceSpec \<Rightarrow> string \<Rightarrow> string \<Rightarrow> ('w, error + SyncRequest) prog" where
  "buildS3SyncRequest env v = s3_request env (own_namespace (GetNamespace v))"

definition target_path :: "string \<Rightarrow> string \<Rightarrow> string" where
  "target_path name namespace = ''/nfs/'' @ name @ ''-'' @ namespace"

definition sync_timeout :: "VolumeSpecBase \<Rightarrow> string" where
  "sync_timeout spec = (if SyncTimeout spec = [] then ''120s'' else SyncTimeout spec)"

definition buildSyncRequest :: "'w env \<Rightarrow> VolumeObject \<Rightarrow> ('w, error + SyncRequest) prog" where
  "buildSyncRequest env v =
     (case Source (vo_Spec v) of
        None \<Rightarrow> ret (Inl (Errorf ''no source configured''))
      | Some src \<Rightarrow>
          let timeout = sync_timeout (vo_Spec v); targetPath = target_path (GetName v) (GetNamespace v) in
          (case src_SSH src of
             Some ssh \<Rightarrow> buildSSHSyncRequest env v ssh timeout targetPath
           | None \<Rightarrow>
          (case src_HTTP src of
             Some http \<Rightarrow> http_request http timeout targetPath
           | None \<Rightarrow>
          (case src_Git src of
             Some git \<Rightarrow> buildGitSyncRequest env v git timeout targetPath
           | None \<Rightarrow>
          (case src_S3 src of
             Some s3 \<Rightarrow> buildS3SyncRequest env v s3 timeout targetPath
           | None \<Rightarrow> ret (Inl (Errorf ''no valid source type configured'')))))))"

text \<open>The builders for any specification take the namespace of the selector when it has one.\<close>

definition buildSSHSyncRequestCommon ::
  "'w env \<Rightarrow> string \<Rightarrow> SSHSourceSpec \<Rightarrow> string \<Rightarrow> string \<Rightarrow> ('w, error + SyncRequest) prog" where
  "buildSSHSyncRequestCommon env namespace =
     ssh_request env (selector_namespace namespace)
       ''either private key or password must be provided for SSH source''"

definition buildGitSyncRequestCommon ::
  "'w env \<Rightarrow> string \<Rightarrow> GitSourceSpec \<Rightarrow> string \<Rightarrow> string \<Rightarrow> ('w, error + SyncRequest) prog" where
  "buildGitSyncRequestCommon env namespace = git_request env (selector_namespace namespace)"

definition buildS3SyncRequestCommon ::
  "'w env \<Rightarrow> string \<Rightarrow> S3SourceSpec \<Rightarrow> string \<Rightarrow> string \<Rightarrow> ('w, error + SyncRequest) prog" where
  "buildS3SyncRequestCommon env namespace = s3_request env (selector_namespace namespace)"

definition buildSyncRequestCommon ::
  "'w env \<Rightarrow> string \<Rightarrow> string \<Rightarrow> VolumeSpecBase \<Rightarrow> ('w, error + SyncRequest) prog" where
  "buildSyncRequestCommon env name namespace spec =
     (case Source spec of
        None \<Rightarrow> ret (Inl (Errorf ''no source configured''))
      | Some src \<Rightarrow>
          let timeout = sync_timeout spec; targetPath = target_path name namespace in
          (case src_SSH src of
             Some ssh \<Rightarrow> buildSSHSyncRequestCommon env namespace ssh timeout targetPath
           | None \<Rightarrow>
          (case src_HTTP src of
             Some http \<Rightarrow> http_request http timeout targetPath
           | None \<Rightarrow>
          (case src_Git src of
             Some git \<Rightarrow> buildGitSyncRequestCommon env namespace git timeout targetPath
           | None \<Rightarrow>
          (case src_S3 src of
             Some s3 \<Rightarrow> buildS3SyncRequestCommon env namespace s3 timeout targetPath
           | None \<Rightarrow> ret (Inl (Errorf ''no valid source type configured'')))))))"

section \<open>The call\<close>

definition sync_url :: "string \<Rightarrow> string \<Rightarrow> string" where
  "sync_url referenceValue namespace =
     ''http://'' @ referenceValue @ ''.'' @ namespace @ ''.svc.cluster.local:8080/api/1.0/sync''"

text \<open>
  A refused URL (\<open>http.NewRequest\<close>) and a failed exchange are the error answers of \<open>e_post\<close>. Only
  the variant for any specification puts the body into the message.
\<close>

definition send_sync ::
  "'w env \<Rightarrow> string \<Rightarrow> (string \<Rightarrow> string) \<Rightarrow> SyncRequest \<Rightarrow> ('w, error + unit) prog" where
  "send_sync env url body_text rq = do {
     r \<leftarrow> http_post env url rq;
     case r of
       Inl err \<Rightarrow> ret (Inl (Errorf_w ''failed to execute sync request'' err))
     | Inr (status, body) \<Rightarrow>
         if status < 200 \<or> status \<ge> 300
         then ret (Inl (Errorf (''sync request failed with status'' @ body_text body)))
         else ret (Inr ())
   }"

definition triggerSync :: "'w env \<Rightarrow> VolumeObject \<Rightarrow> ('w, error + unit) prog" where
  "triggerSync env v =
     bindE (wrap_err ''failed to build sync request'' (buildSyncRequest env v))
       (send_sync env (sync_url (ReferenceValue (vo_Spec v)) (GetNamespace v)) (\<lambda>body. []))"

definition triggerSyncCommon :: "'w env \<Rightarrow> string \<Rightarrow> string \<Rightarrow> VolumeSpecBase \<Rightarrow> ('w, error + unit) prog" where
  "triggerSyncCommon env name namespace spec =
     bindE (wrap_err ''failed to build sync request'' (buildSyncRequestCommon env name namespace spec))
       (send_sync env (sync_url (ReferenceValue spec) namespace) (\<lambda>body. '': '' @ body))"

definition hasValidSource :: "VolumeSpecBase \<Rightarrow> bool" where
  "hasValidSource spec =
     (case Source spec of
        None \<Rightarrow> False
      | Some src \<Rightarrow> src_SSH src \<noteq> None \<or> src_HTTP src \<noteq> None \<or> src_Git src \<noteq> None \<or> src_S3 src \<noteq> None)"

section \<open>Decoding gives the key back\<close>

text \<open>The receiver's side of RFC 4648: four characters for three bytes, padded with \<open>=\<close>.\<close>

definition unsextet :: "char \<Rightarrow> nat" where
  "unsextet c = length (takeWhile (\<lambda>d. d \<noteq> c) base64_alphabet)"

fun base64_decode :: "string \<Rightarrow> nat list" where
  "base64_decode (p # q # r # s # rest) =
     (let a = unsextet p * 4 + unsextet q div 16;
          b = unsextet q mod 16 * 16 + unsextet r div 4;
          c = unsextet r mod 4 * 64 + unsextet s
      in if s \<noteq> CHR ''='' then a # b # c # base64_decode rest
         else if r \<noteq> CHR ''='' then [a, b] else [a])"
| "base64_decode _ = []"

lemma index_of_nth: "distinct xs \<Longrightarrow> i < length xs \<Longrightarrow> length (takeWhile (\<lambda>x. x \<noteq> xs ! i) xs) = i"
proof (induction xs arbitrary: i)
  case Nil
  then show ?case by simp
next
  case (Cons x xs)
  then show ?case by (cases i) (auto simp: nth_mem)
qed

lemma alphabet_facts: "distinct base64_alphabet" "length base64_alphabet = 64" "CHR ''='' \<notin> set base64_alphabet"
  by (simp_all add: base64_alphabet_def)

lemma unsextet_sextet [simp]: "unsextet (sextet n) = n mod 64"
  by (simp add: unsextet_def sextet_def index_of_nth alphabet_facts)

lemma sextet_not_pad [simp]: "sextet n \<noteq> CHR ''=''"
  using alphabet_facts(2,3) by (metis mod_less_divisor nth_mem sextet_def zero_less_numeral)

lemma sextet_arith:
  fixes a b c :: nat
  assumes "a < 256" "b < 256" "c < 256"
  shows "a div 4 mod 64 * 4 + (a * 16 + b div 16) mod 64 div 16 = a"
    and "a div 4 mod 64 * 4 + a * 16 mod 64 div 16 = a"
    and "(a * 16 + b div 16) mod 64 mod 16 * 16 + (b * 4 + c div 64) mod 64 div 4 = b"
    and "(a * 16 + b div 16) mod 64 mod 16 * 16 + b * 4 mod 64 div 4 = b"
    and "(b * 4 + c div 64) mod 64 mod 4 * 64 + c mod 64 = c"
proof -
  have split: "(x * 16 + y) mod 64 = (x mod 4) * 16 + y" if "y < 16" for x y :: nat
    using that mod_mult2_eq [of "x * 16 + y" 16 4] by simp
  have split4: "(x * 4 + y) mod 64 = (x mod 16) * 4 + y" if "y < 4" for x y :: nat
    using that mod_mult2_eq [of "x * 4 + y" 4 16] by simp
  have d: "b div 16 < 16" "c div 64 < 4" "a div 4 < 64"
    using assms by auto
  show "a div 4 mod 64 * 4 + (a * 16 + b div 16) mod 64 div 16 = a"
    using d by (simp add: split)
  show "a div 4 mod 64 * 4 + a * 16 mod 64 div 16 = a"
    using d split [of 0 a] by simp
  show "(a * 16 + b div 16) mod 64 mod 16 * 16 + (b * 4 + c div 64) mod 64 div 4 = b"
    using d by (simp add: split split4)
  show "(a * 16 + b div 16) mod 64 mod 16 * 16 + b * 4 mod 64 div 4 = b"
    using d split4 [of 0 b] by (simp add: split)
  show "(b * 4 + c div 64) mod 64 mod 4 * 64 + c mod 64 = c"
    using d by (simp add: split4)
qed

lemma base64_decode_bytes: "\<forall>n \<in> set ns. n < 256 \<Longrightarrow> base64_decode (base64_bytes ns) = ns"
proof (induction ns rule: base64_bytes.induct)
  case (2 a)
  then show ?case using sextet_arith(2) [of a 0 0] by simp
next
  case (3 a b)
  then show ?case using sextet_arith(1,4) [of a b 0] by simp
next
  case (4 a b c rest)
  then show ?case using sextet_arith(1,3,5) [of a b c] by simp
qed simp

lemma base64_roundtrip: "map char_of (base64_decode (base64_EncodeToString s)) = s"
proof -
  have "\<forall>n \<in> set (map of_char s). (n :: nat) < 256"
    by (auto simp: of_char_def)
  then show ?thesis
    by (simp add: base64_EncodeToString_def base64_decode_bytes comp_def)
qed

section \<open>What the syncer is sent\<close>

text \<open>
  The bytes of a credential, given in the specification or kept in a secret of the store, and the
  text that carries a private key: a key of the specification as it stands, one from a secret in
  base64.
\<close>

definition credential :: "(key \<Rightarrow> kobj option) \<Rightarrow> string \<Rightarrow> string \<Rightarrow> SecretKeySelector option \<Rightarrow> string option" where
  "credential st ns direct from_secret =
     (case from_secret of
        None \<Rightarrow> Some direct
      | Some sel \<Rightarrow>
          if direct \<noteq> [] then Some direct
          else (case st (KSecret, if sel_Namespace sel = [] then ns else sel_Namespace sel, sel_Name sel) of
                  Some (OSecret secret) \<Rightarrow> map_of (sec_Data secret) (sel_Key sel)
                | _ \<Rightarrow> None))"

definition carries_key :: "string \<Rightarrow> SecretKeySelector option \<Rightarrow> string \<Rightarrow> string \<Rightarrow> bool" where
  "carries_key direct from_secret sent bytes \<longleftrightarrow>
     (if direct = [] \<and> from_secret \<noteq> None then map char_of (base64_decode sent) = bytes else sent = bytes)"

text \<open>The source a syncer is told about, with the credentials of the volume.\<close>

definition ssh_told :: "(key \<Rightarrow> kobj option) \<Rightarrow> string \<Rightarrow> SSHSourceSpec \<Rightarrow> SyncSource \<Rightarrow> bool" where
  "ssh_told st ns ssh ys \<longleftrightarrow> (\<exists>key password sent.
     credential st ns (ssh_PrivateKey ssh) (ssh_PrivateKeyFromSecret ssh) = Some key
     \<and> credential st ns (ssh_Password ssh) (ssh_PasswordFromSecret ssh) = Some password
     \<and> (key \<noteq> [] \<or> password \<noteq> [])
     \<and> carries_key (ssh_PrivateKey ssh) (ssh_PrivateKeyFromSecret ssh) sent key
     \<and> ys = \<lparr>ys_Type = ''ssh'', ys_Details = DetailsSSH
         \<lparr>yssh_Host = ssh_Host ssh, yssh_Port = (if ssh_Port ssh = 0 then 22 else ssh_Port ssh), yssh_User = ssh_User ssh,
          yssh_Path = ssh_Path ssh, yssh_Password = password, yssh_PrivateKey = sent\<rparr>\<rparr>)"

definition git_told :: "(key \<Rightarrow> kobj option) \<Rightarrow> string \<Rightarrow> GitSourceSpec \<Rightarrow> SyncSource \<Rightarrow> bool" where
  "git_told st ns git ys \<longleftrightarrow> (\<exists>key password sent.
     credential st ns (git_PrivateKey git) (git_PrivateKeyFromSecret git) = Some key
     \<and> credential st ns (git_Password git) (git_PasswordFromSecret git) = Some password
     \<and> carries_key (git_PrivateKey git) (git_PrivateKeyFromSecret git) sent key
     \<and> ys = \<lparr>ys_Type = ''git'', ys_Details = DetailsGit
         \<lparr>ygit_URL = git_URL git, ygit_User = git_User git, ygit_Password = password,
          ygit_PrivateKey = sent, ygit_Branch = git_Branch git\<rparr>\<rparr>)"

definition s3_told :: "(key \<Rightarrow> kobj option) \<Rightarrow> string \<Rightarrow> S3SourceSpec \<Rightarrow> SyncSource \<Rightarrow> bool" where
  "s3_told st ns s3 ys \<longleftrightarrow> (\<exists>access secret.
     credential st ns (s3_AccessKey s3) (s3_AccessKeyFromSecret s3) = Some access
     \<and> credential st ns (s3_SecretKey s3) (s3_SecretKeyFromSecret s3) = Some secret
     \<and> ys = \<lparr>ys_Type = ''s3'', ys_Details = DetailsS3
         \<lparr>ys3_EndpointURL = s3_EndpointURL s3, ys3_BucketName = s3_BucketName s3, ys3_Path = s3_Path s3,
          ys3_AccessKey = access, ys3_SecretKey = secret, ys3_Region = s3_Region s3\<rparr>\<rparr>)"

definition told :: "(key \<Rightarrow> kobj option) \<Rightarrow> string \<Rightarrow> VolumeSourceSpec \<Rightarrow> SyncSource \<Rightarrow> bool" where
  "told st ns src ys \<longleftrightarrow>
     (case src_SSH src of Some ssh \<Rightarrow> ssh_told st ns ssh ys | None \<Rightarrow>
     (case src_HTTP src of Some http \<Rightarrow> ys = \<lparr>ys_Type = ''http'', ys_Details = DetailsHTTP \<lparr>yhttp_URL = http_URL http\<rparr>\<rparr> | None \<Rightarrow>
     (case src_Git src of Some git \<Rightarrow> git_told st ns git ys | None \<Rightarrow>
     (case src_S3 src of Some s3 \<Rightarrow> s3_told st ns s3 ys | None \<Rightarrow> False))))"

text \<open>
  \<open>replies m w Q\<close>: \<open>m\<close> leaves the server alone and gives a result in \<open>Q\<close>, or an error if there is
  none.
\<close>

definition replies :: "('w, error + 'a) prog \<Rightarrow> 'w world \<Rightarrow> ('a \<Rightarrow> bool) \<Rightarrow> bool" where
  "replies m w Q \<longleftrightarrow> (\<exists>res w'. run_state m w = (res, w') \<and> w_srv w' = w_srv w
     \<and> (case res of Inr x \<Rightarrow> Q x | Inl e \<Rightarrow> \<forall>x. \<not> Q x))"

lemma replies_ret: "Q x \<Longrightarrow> replies (ret (Inr x)) w Q" "\<forall>x. \<not> Q x \<Longrightarrow> replies (ret (Inl e)) w Q"
  by (auto simp: replies_def)

lemma replies_bindE:
  assumes "replies m w P" and "\<And>x w'. P x \<Longrightarrow> w_srv w' = w_srv w \<Longrightarrow> replies (f x) w' Q"
    and "(\<forall>x. \<not> P x) \<Longrightarrow> \<forall>y. \<not> Q y"
  shows "replies (bindE m f) w Q"
proof -
  obtain res w1 where m: "run_state m w = (res, w1)" "w_srv w1 = w_srv w" "case res of Inr x \<Rightarrow> P x | Inl e \<Rightarrow> \<forall>x. \<not> P x"
    using assms(1) unfolding replies_def by blast
  show ?thesis
  proof (cases res)
    case (Inl e)
    with m assms(3) show ?thesis by (simp add: replies_def)
  next
    case (Inr x)
    with m assms(2) [of x w1] show ?thesis by (simp add: replies_def)
  qed
qed

lemma replies_run:
  assumes "replies m w Q" and "(\<exists>x. Q x) \<longleftrightarrow> R"
  shows "\<exists>res w'. run_state m w = (res, w') \<and> w_srv w' = w_srv w \<and> (case res of Inr x \<Rightarrow> Q x | Inl e \<Rightarrow> \<not> R)"
  using assms(1) unfolding replies_def assms(2) [symmetric] by (simp only: not_ex)

lemma secret_replies:
  assumes "stores env objs" and "get = getPrivateKeyFromSecret \<or> get = getSecretValue"
    and "direct = []" and "ns_of sel = (if sel_Namespace sel = [] then ns else sel_Namespace sel)"
  shows "replies (wrap_err msg (get env (ns_of sel) sel)) w (\<lambda>x. credential (objs (w_srv w)) ns direct (Some sel) = Some x)"
proof (cases "objs (w_srv w) (KSecret, ns_of sel, sel_Name sel)")
  case None
  with assms show ?thesis
    by (auto simp: replies_def wrap_err_def getPrivateKeyFromSecret_def getSecretValue_def run_stored_Get credential_def)
next
  case (Some obj)
  then obtain secret where "obj = OSecret secret"
    using stored_kind [OF assms(1) Some] by (cases obj) auto
  with Some assms show ?thesis
    by (cases "map_of (sec_Data secret) (sel_Key sel)")
       (auto simp: replies_def wrap_err_def getPrivateKeyFromSecret_def getSecretValue_def run_stored_Get as_object_def credential_def)
qed

lemma credential_direct: "from_secret = None \<or> direct \<noteq> [] \<Longrightarrow> credential st ns direct from_secret = Some direct"
  by (auto simp: credential_def split: option.split)

lemma plain_secret_replies:
  assumes "stores env objs"
  shows "replies (plain_secret env (selector_namespace ns) msg direct from_secret) w
    (\<lambda>x. credential (objs (w_srv w)) ns direct from_secret = Some x)"
proof (cases "from_secret = None \<or> direct \<noteq> []")
  case True
  then show ?thesis
    by (auto simp: plain_secret_def credential_direct intro!: replies_ret split: option.split)
next
  case False
  then show ?thesis
    using secret_replies [OF assms disjI2, of getSecretValue direct "selector_namespace ns"]
    by (auto simp: plain_secret_def selector_namespace_def)
qed

definition key_text :: "string \<Rightarrow> SecretKeySelector option \<Rightarrow> string \<Rightarrow> string" where
  "key_text direct from_secret key = (if direct = [] \<and> from_secret \<noteq> None then base64_EncodeToString key else key)"

lemma key_text_facts [simp]:
  "carries_key direct from_secret (key_text direct from_secret key) key"
  "key_text direct from_secret key = [] \<longleftrightarrow> key = []"
proof -
  have "base64_EncodeToString key = [] \<longleftrightarrow> key = []" for key
    by (cases "map of_char key :: nat list" rule: base64_bytes.cases) (auto simp: base64_EncodeToString_def)
  then show "carries_key direct from_secret (key_text direct from_secret key) key"
    "key_text direct from_secret key = [] \<longleftrightarrow> key = []"
    by (auto simp: carries_key_def key_text_def base64_roundtrip)
qed

lemma private_key_replies:
  assumes "stores env objs"
  shows "replies (private_key env (selector_namespace ns) direct from_secret) w
    (\<lambda>sent. \<exists>key. credential (objs (w_srv w)) ns direct from_secret = Some key \<and> sent = key_text direct from_secret key)"
proof (cases "from_secret = None \<or> direct \<noteq> []")
  case True
  then show ?thesis
    by (auto simp: private_key_def credential_direct key_text_def intro!: replies_ret split: option.split)
next
  case False
  then obtain sel where sel: "from_secret = Some sel" "direct = []" by auto
  have "replies (wrap_err ''failed to read private key from secret'' (getPrivateKeyFromSecret env (selector_namespace ns sel) sel)) w
      (\<lambda>key. credential (objs (w_srv w)) ns direct (Some sel) = Some key)"
    using secret_replies [OF assms disjI1 [OF refl] sel(2)] by (simp add: selector_namespace_def)
  then have "replies (bindE (wrap_err ''failed to read private key from secret''
        (getPrivateKeyFromSecret env (selector_namespace ns sel) sel)) (\<lambda>key. ret (Inr (base64_EncodeToString key)))) w
      (\<lambda>sent. \<exists>key. credential (objs (w_srv w)) ns direct (Some sel) = Some key \<and> sent = key_text direct (Some sel) key)"
    by (rule replies_bindE) (auto simp: replies_ret(1) key_text_def sel(2))
  then show ?thesis
    by (simp add: private_key_def sel)
qed

text \<open>The three requests with credentials.\<close>

lemma ssh_request_replies:
  assumes "stores (env :: 'w env) objs"
  shows "replies (ssh_request env (selector_namespace ns) no_auth ssh timeout path) w
    (\<lambda>rq. ssh_told (objs (w_srv w)) ns ssh (yr_Source rq) \<and> yr_TargetPath rq = path \<and> yr_Timeout rq = timeout)"
  unfolding ssh_request_def
proof (rule replies_bindE [OF private_key_replies [OF assms]])
  fix sent and w1 :: "'w world" assume key: "\<exists>key. credential (objs (w_srv w)) ns (ssh_PrivateKey ssh) (ssh_PrivateKeyFromSecret ssh) = Some key
      \<and> sent = key_text (ssh_PrivateKey ssh) (ssh_PrivateKeyFromSecret ssh) key"
    and w1: "w_srv w1 = w_srv w"
  show "replies (bindE (plain_secret env (selector_namespace ns) ''failed to read password from secret'' (ssh_Password ssh)
         (ssh_PasswordFromSecret ssh)) (\<lambda>password. if sent = [] \<and> password = [] then ret (Inl (Errorf no_auth))
       else ret (Inr (sync_request ''ssh'' (DetailsSSH \<lparr>yssh_Host = ssh_Host ssh, yssh_Port = (if ssh_Port ssh = 0 then 22 else ssh_Port ssh),
         yssh_User = ssh_User ssh, yssh_Path = ssh_Path ssh, yssh_Password = password, yssh_PrivateKey = sent\<rparr>) timeout path)))) w1
    (\<lambda>rq. ssh_told (objs (w_srv w)) ns ssh (yr_Source rq) \<and> yr_TargetPath rq = path \<and> yr_Timeout rq = timeout)"
    using key by (intro replies_bindE [OF plain_secret_replies [OF assms]])
      (auto simp: w1 ssh_told_def sync_request_def intro!: replies_ret)
qed (auto simp: ssh_told_def)

lemma git_request_replies:
  assumes "stores (env :: 'w env) objs"
  shows "replies (git_request env (selector_namespace ns) git timeout path) w
    (\<lambda>rq. git_told (objs (w_srv w)) ns git (yr_Source rq) \<and> yr_TargetPath rq = path \<and> yr_Timeout rq = timeout)"
  unfolding git_request_def
proof (rule replies_bindE [OF plain_secret_replies [OF assms]])
  fix password and w1 :: "'w world" assume password: "credential (objs (w_srv w)) ns (git_Password git) (git_PasswordFromSecret git) = Some password"
    and w1: "w_srv w1 = w_srv w"
  show "replies (bindE (private_key env (selector_namespace ns) (git_PrivateKey git) (git_PrivateKeyFromSecret git)) (\<lambda>sent.
       ret (Inr (sync_request ''git'' (DetailsGit \<lparr>ygit_URL = git_URL git, ygit_User = git_User git, ygit_Password = password,
         ygit_PrivateKey = sent, ygit_Branch = git_Branch git\<rparr>) timeout path)))) w1
    (\<lambda>rq. git_told (objs (w_srv w)) ns git (yr_Source rq) \<and> yr_TargetPath rq = path \<and> yr_Timeout rq = timeout)"
    using password by (intro replies_bindE [OF private_key_replies [OF assms]])
      (auto simp: w1 git_told_def sync_request_def intro!: replies_ret)
qed (auto simp: git_told_def)

lemma s3_request_replies:
  assumes "stores (env :: 'w env) objs"
  shows "replies (s3_request env (selector_namespace ns) s3 timeout path) w
    (\<lambda>rq. s3_told (objs (w_srv w)) ns s3 (yr_Source rq) \<and> yr_TargetPath rq = path \<and> yr_Timeout rq = timeout)"
  unfolding s3_request_def
proof (rule replies_bindE [OF plain_secret_replies [OF assms]])
  fix access and w1 :: "'w world" assume access: "credential (objs (w_srv w)) ns (s3_AccessKey s3) (s3_AccessKeyFromSecret s3) = Some access"
    and w1: "w_srv w1 = w_srv w"
  show "replies (bindE (plain_secret env (selector_namespace ns) ''failed to read secret key from secret'' (s3_SecretKey s3)
         (s3_SecretKeyFromSecret s3)) (\<lambda>secretKey. ret (Inr (sync_request ''s3'' (DetailsS3
         \<lparr>ys3_EndpointURL = s3_EndpointURL s3, ys3_BucketName = s3_BucketName s3, ys3_Path = s3_Path s3,
          ys3_AccessKey = access, ys3_SecretKey = secretKey, ys3_Region = s3_Region s3\<rparr>) timeout path)))) w1
    (\<lambda>rq. s3_told (objs (w_srv w)) ns s3 (yr_Source rq) \<and> yr_TargetPath rq = path \<and> yr_Timeout rq = timeout)"
    using access by (intro replies_bindE [OF plain_secret_replies [OF assms]])
      (auto simp: w1 s3_told_def sync_request_def intro!: replies_ret)
qed (auto simp: s3_told_def)

text \<open>
  C32. Against a server that stores objects, the request of a sync carries what the specification
  says: the first source of SSH, HTTP, Git and S3 with its settings, passwords and access keys as
  they are, a private key of the specification as it is and one from a secret in base64 that decodes
  to the bytes of the secret; the folder is \<open>/nfs/<name>-<namespace>\<close> and the timeout \<open>120s\<close> unless
  given. It fails exactly when there is no source, a secret or its key is missing, or an SSH source
  has neither key nor password, and it changes nothing.
\<close>

theorem sync_request_decodes:
  assumes "stores env objs"
  shows "\<exists>res w'. run_state (buildSyncRequestCommon env name ns spec) w = (res, w') \<and> w_srv w' = w_srv w
    \<and> (case res of
         Inr rq \<Rightarrow> (\<exists>src. Source spec = Some src \<and> told (objs (w_srv w)) ns src (yr_Source rq))
           \<and> yr_TargetPath rq = ''/nfs/'' @ name @ ''-'' @ ns
           \<and> yr_Timeout rq = (if SyncTimeout spec = [] then ''120s'' else SyncTimeout spec)
       | Inl e \<Rightarrow> \<not> (\<exists>src ys. Source spec = Some src \<and> told (objs (w_srv w)) ns src ys))"
proof -
  let ?Q = "\<lambda>rq. (\<exists>src. Source spec = Some src \<and> told (objs (w_srv w)) ns src (yr_Source rq))
      \<and> yr_TargetPath rq = ''/nfs/'' @ name @ ''-'' @ ns \<and> yr_Timeout rq = (if SyncTimeout spec = [] then ''120s'' else SyncTimeout spec)"
  have "replies (buildSyncRequestCommon env name ns spec) w ?Q"
  proof (cases "Source spec")
    case None
    then show ?thesis by (auto simp: buildSyncRequestCommon_def intro!: replies_ret)
  next
    case (Some src)
    have http: "replies (http_request http t p) w (\<lambda>rq. yr_Source rq = \<lparr>ys_Type = ''http'', ys_Details = DetailsHTTP \<lparr>yhttp_URL = http_URL http\<rparr>\<rparr>
        \<and> yr_TargetPath rq = p \<and> yr_Timeout rq = t)" for http t p
      by (auto simp: http_request_def sync_request_def intro!: replies_ret)
    have none: "replies (ret (Inl e)) w (\<lambda>_. False)" for e
      by (rule replies_ret) simp
    show ?thesis
      using ssh_request_replies [OF assms, of ns] git_request_replies [OF assms, of ns] s3_request_replies [OF assms, of ns] http none
      by (auto simp: buildSyncRequestCommon_def Some Let_def told_def target_path_def sync_timeout_def
          buildSSHSyncRequestCommon_def buildGitSyncRequestCommon_def buildS3SyncRequestCommon_def split: option.split)
  qed
  moreover have "(\<exists>rq. ?Q rq) \<longleftrightarrow> (\<exists>src ys. Source spec = Some src \<and> told (objs (w_srv w)) ns src ys)"
    by (metis SyncRequest.select_convs)
  ultimately show ?thesis
    by (rule replies_run)
qed

definition keyed_ssh :: SSHSourceSpec where
  "keyed_ssh = \<lparr>ssh_Host = ''host'', ssh_Port = 0, ssh_User = ''me'', ssh_Password = [], ssh_PrivateKey = [], ssh_Path = ''/srv'',
     ssh_PrivateKeyFromSecret = Some \<lparr>sel_Name = ''keys'', sel_Namespace = [], sel_Key = ''id''\<rparr>, ssh_PasswordFromSecret = None\<rparr>"

definition keyed_spec :: VolumeSpecBase where
  "keyed_spec = sample_spec\<lparr>Source := Some \<lparr>src_SSH = Some keyed_ssh, src_HTTP = None, src_Git = None, src_S3 = None\<rparr>\<rparr>"

definition key_secret :: kobj where
  "key_secret = OSecret \<lparr>sec_Meta = empty_meta\<lparr>om_Name := ''keys'', om_Namespace := ''team''\<rparr>, sec_Data = [(''id'', ''key'')]\<rparr>"

theorem sync_request_decodes_witness:
  "\<exists>rq w' d. run_state (buildSyncRequestCommon store_env ''vol'' ''team'' keyed_spec) (world_of [key_secret]) = (Inr rq, w')
     \<and> ys_Details (yr_Source rq) = DetailsSSH d \<and> map char_of (base64_decode (yssh_PrivateKey d)) = ''key''
     \<and> yr_TargetPath rq = ''/nfs/vol-team''"
proof -
  let ?st = "store_objs (w_srv (world_of [key_secret]))"
  have src: "Source keyed_spec = Some \<lparr>src_SSH = Some keyed_ssh, src_HTTP = None, src_Git = None, src_S3 = None\<rparr>"
    by (simp add: keyed_spec_def)
  have key: "credential ?st ''team'' (ssh_PrivateKey keyed_ssh) (ssh_PrivateKeyFromSecret keyed_ssh) = Some ''key''"
    "credential ?st ''team'' (ssh_Password keyed_ssh) (ssh_PasswordFromSecret keyed_ssh) = Some []"
    by (simp_all add: credential_def keyed_ssh_def store_objs_def has_key_def key_secret_def world_of_def empty_meta_def)
  have from_secret: "carries_key (ssh_PrivateKey keyed_ssh) (ssh_PrivateKeyFromSecret keyed_ssh) sent bytes
      \<longleftrightarrow> map char_of (base64_decode sent) = bytes" for sent bytes
    by (simp add: carries_key_def keyed_ssh_def)
  have "\<exists>ys. told ?st ''team'' \<lparr>src_SSH = Some keyed_ssh, src_HTTP = None, src_Git = None, src_S3 = None\<rparr> ys"
    using exI [of "\<lambda>sent. map char_of (base64_decode sent) = ''key''", OF base64_roundtrip]
    by (simp add: told_def ssh_told_def key from_secret)
  with sync_request_decodes [OF store_objs_stores, of "''vol''" "''team''" keyed_spec "world_of [key_secret]"] src
  obtain rq w' where rq: "run_state (buildSyncRequestCommon store_env ''vol'' ''team'' keyed_spec) (world_of [key_secret]) = (Inr rq, w')"
      "told ?st ''team'' \<lparr>src_SSH = Some keyed_ssh, src_HTTP = None, src_Git = None, src_S3 = None\<rparr> (yr_Source rq)"
      "yr_TargetPath rq = ''/nfs/vol-team''"
    by (fastforce simp del: map_eq_Cons_conv Cons_eq_map_conv split: sum.splits)
  from rq(2) obtain d where "ys_Details (yr_Source rq) = DetailsSSH d" "map char_of (base64_decode (yssh_PrivateKey d)) = ''key''"
    by (fastforce simp: told_def ssh_told_def key from_secret simp del: map_eq_Cons_conv)
  with rq(1,3) show ?thesis
    by (intro exI conjI)
qed

section \<open>The two variants, and the secrets they read\<close>

lemma plain_secret_cong:
  "pred_option (\<lambda>s. f s = g s) from_secret \<Longrightarrow> plain_secret env f msg d from_secret = plain_secret env g msg d from_secret"
  by (cases from_secret) (simp_all add: plain_secret_def)

lemma private_key_cong:
  "pred_option (\<lambda>s. f s = g s) from_secret \<Longrightarrow> private_key env f d from_secret = private_key env g d from_secret"
  by (cases from_secret) (simp_all add: private_key_def)

text \<open>What the webhook guarantees of the selectors of an admitted \<open>SharedVolume\<close>.\<close>

definition local_selector :: "SecretKeySelector option \<Rightarrow> bool" where
  "local_selector = pred_option (\<lambda>s. sel_Namespace s = [])"

definition local_source :: "VolumeSourceSpec \<Rightarrow> bool" where
  "local_source src \<longleftrightarrow>
     pred_option (\<lambda>ssh. local_selector (ssh_PrivateKeyFromSecret ssh) \<and> local_selector (ssh_PasswordFromSecret ssh)) (src_SSH src)
     \<and> pred_option (\<lambda>git. local_selector (git_PrivateKeyFromSecret git) \<and> local_selector (git_PasswordFromSecret git)) (src_Git src)
     \<and> pred_option (\<lambda>s3. local_selector (s3_AccessKeyFromSecret s3) \<and> local_selector (s3_SecretKeyFromSecret s3)) (src_S3 src)"

lemma credential_local: "credential_ok False d sel \<Longrightarrow> local_selector sel"
  by (cases sel) (auto simp: credential_ok_def local_selector_def selector_ok_def)

lemma admitted_local_source:
  assumes "ValidateCreate SharedVolume (OVolume v) = Inr ()" and "Source (vo_Spec v) = Some src"
  shows "local_source src"
proof -
  have "source_ok False src"
    using assms by (auto simp: ValidateCreate_cases spec_ok_def split: if_splits)
  then show ?thesis
    by (auto simp: source_ok_def local_source_def ssh_ok_def git_ok_def s3_ok_def option.pred_set
        dest: credential_local)
qed

lemma local_selector_agree:
  "local_selector sel \<Longrightarrow> pred_option (\<lambda>s. selector_namespace ns s = own_namespace ns s) sel"
  by (cases sel) (simp_all add: local_selector_def selector_namespace_def own_namespace_def)

lemma builders_agree:
  "local_selector (ssh_PrivateKeyFromSecret ssh) \<Longrightarrow> local_selector (ssh_PasswordFromSecret ssh) \<Longrightarrow>
     ssh_request env (selector_namespace ns) m ssh t p = ssh_request env (own_namespace ns) m ssh t p"
  "local_selector (git_PrivateKeyFromSecret git) \<Longrightarrow> local_selector (git_PasswordFromSecret git) \<Longrightarrow>
     git_request env (selector_namespace ns) git t p = git_request env (own_namespace ns) git t p"
  "local_selector (s3_AccessKeyFromSecret s3) \<Longrightarrow> local_selector (s3_SecretKeyFromSecret s3) \<Longrightarrow>
     s3_request env (selector_namespace ns) s3 t p = s3_request env (own_namespace ns) s3 t p"
  by (simp_all add: ssh_request_def git_request_def s3_request_def
      plain_secret_cong [OF local_selector_agree] private_key_cong [OF local_selector_agree])

text \<open>Two programs with the same calls and the same results, up to the text of an error.\<close>

definition same_up_to_error :: "('w, error + 'a) prog \<Rightarrow> ('w, error + 'a) prog \<Rightarrow> bool" where
  "same_up_to_error m n \<longleftrightarrow> (\<forall>w. snd (run_state m w) = snd (run_state n w)
     \<and> map_sum (\<lambda>_. ()) id (fst (run_state m w)) = map_sum (\<lambda>_. ()) id (fst (run_state n w)))"

lemma same_refl [simp]: "same_up_to_error m m"
  by (simp add: same_up_to_error_def)

lemma ssh_no_auth_text: "same_up_to_error (ssh_request env f m ssh t p) (ssh_request env f m' ssh t p)"
  unfolding same_up_to_error_def ssh_request_def
  by (auto split: prod.splits sum.splits)

text \<open>
  For an admitted \<open>SharedVolume\<close> the builder of the request for shared volumes and the one
  for any specification do the same: the same calls, the same request, errors in the same
  cases. They differ in the text of one error message.
\<close>

theorem buildSyncRequest_variants_agree:
  assumes "ValidateCreate SharedVolume (OVolume v) = Inr ()"
  shows "same_up_to_error (buildSyncRequest env v)
    (buildSyncRequestCommon env (GetName v) (GetNamespace v) (vo_Spec v))"
proof (cases "Source (vo_Spec v)")
  case None
  then show ?thesis by (simp add: buildSyncRequest_def buildSyncRequestCommon_def)
next
  case (Some src)
  note src_local = admitted_local_source [OF assms Some]
  have "src_SSH src = Some ssh \<Longrightarrow> local_selector (ssh_PrivateKeyFromSecret ssh) \<and> local_selector (ssh_PasswordFromSecret ssh)"
    "src_Git src = Some git \<Longrightarrow> local_selector (git_PrivateKeyFromSecret git) \<and> local_selector (git_PasswordFromSecret git)"
    "src_S3 src = Some s3 \<Longrightarrow> local_selector (s3_AccessKeyFromSecret s3) \<and> local_selector (s3_SecretKeyFromSecret s3)"
    for ssh git s3
    using src_local by (simp_all add: local_source_def)
  then show ?thesis
    by (auto simp: buildSyncRequest_def buildSyncRequestCommon_def Some Let_def
        buildSSHSyncRequest_def buildSSHSyncRequestCommon_def buildGitSyncRequest_def
        buildGitSyncRequestCommon_def buildS3SyncRequest_def buildS3SyncRequestCommon_def
        builders_agree split: option.split intro: ssh_no_auth_text)
qed

theorem buildSyncRequest_variants_agree_witness:
  "same_up_to_error (buildSyncRequest store_env sample_volume)
    (buildSyncRequestCommon store_env (GetName sample_volume) (GetNamespace sample_volume) (vo_Spec sample_volume))"
  by (rule buildSyncRequest_variants_agree [OF sample_volume_admitted])

text \<open>The folder of every posted request.\<close>

fun post_target :: "(string \<Rightarrow> bool) \<Rightarrow> event \<Rightarrow> bool" where
  "post_target P (EPost u rq rp) = P (yr_TargetPath rq)"
| "post_target P _ = True"

lemma requests_quiet:
  "emits (post_target P) (plain_secret env f msg d sel)" "emits (post_target P) (private_key env f d sel)"
  unfolding plain_secret_def private_key_def wrap_err_def getSecretValue_def getPrivateKeyFromSecret_def
  by (intro keeps_intro; simp)+

lemma built_request:
  "emits (post_target P) (buildSyncRequestCommon env name ns spec)
   \<and> (Inr rq \<in> results (buildSyncRequestCommon env name ns spec) \<longrightarrow> yr_TargetPath rq = target_path name ns)"
proof (cases "Source spec")
  case None
  then show ?thesis by (auto simp: buildSyncRequestCommon_def results_def grows.keeps_ret)
next
  case (Some src)
  have "emits (post_target P) (ssh_request env f m ssh t p)" "emits (post_target P) (git_request env f git t p)"
    "emits (post_target P) (s3_request env f s3 t p)" for f m ssh git s3 t p
    unfolding ssh_request_def git_request_def s3_request_def by (intro keeps_intro requests_quiet; simp)+
  moreover have "Inr rq \<in> results (ssh_request env f m ssh t p) \<Longrightarrow> yr_TargetPath rq = p"
    "Inr rq \<in> results (git_request env f git t p) \<Longrightarrow> yr_TargetPath rq = p"
    "Inr rq \<in> results (s3_request env f s3 t p) \<Longrightarrow> yr_TargetPath rq = p"
    "Inr rq \<in> results (http_request http t p) \<Longrightarrow> yr_TargetPath rq = p" for f m ssh git s3 http t p
    by (auto simp: ssh_request_def git_request_def s3_request_def http_request_def sync_request_def results_def
        split: sum.splits prod.splits if_splits)
  ultimately show ?thesis
    by (auto simp: buildSyncRequestCommon_def Some Let_def buildSSHSyncRequestCommon_def buildGitSyncRequestCommon_def
        buildS3SyncRequestCommon_def http_request_def grows.keeps_ret results_def split: option.split)
qed

lemma results_wrap_err: "Inr x \<in> results (wrap_err m p) \<Longrightarrow> Inr x \<in> results p"
  unfolding wrap_err_def by (auto dest!: results_bindD split: sum.splits)

lemma triggerSyncCommon_target:
  "emits (post_target (\<lambda>p. p = target_path name ns)) (triggerSyncCommon env name ns spec)"
proof -
  let ?P = "post_target (\<lambda>p. p = target_path name ns)"
  have "emits ?P (wrap_err m (buildSyncRequestCommon env name ns spec))" for m
    unfolding wrap_err_def by (intro keeps_intro built_request [THEN conjunct1])
  moreover have "emits ?P (send_sync env url f rq)" if "yr_TargetPath rq = target_path name ns" for url f rq
    unfolding send_sync_def by (intro keeps_intro) (simp add: that)
  moreover have "yr_TargetPath rq = target_path name ns"
    if "Inr rq \<in> results (wrap_err m (buildSyncRequestCommon env name ns spec))" for m rq
    using results_wrap_err [OF that] built_request by blast
  ultimately show ?thesis
    unfolding triggerSyncCommon_def by (intro grows.keeps_bindE) blast+
qed

text \<open>The calls of a sync: secrets read in one namespace, and the request posted to the syncer.\<close>

fun sync_call :: "string \<Rightarrow> string \<Rightarrow> event \<Rightarrow> bool" where
  "sync_call ns url (EApi (GetReq k ns' n) _) = (k = KSecret \<and> ns' = ns)"
| "sync_call ns url (EPost u _ _) = (u = url)"
| "sync_call ns url _ = False"

lemma secret_reads [keeps_intro]:
  "(\<And>s. sel = Some s \<Longrightarrow> f s = ns) \<Longrightarrow> emits (sync_call ns url) (plain_secret env f msg d sel)"
  "(\<And>s. sel = Some s \<Longrightarrow> f s = ns) \<Longrightarrow> emits (sync_call ns url) (private_key env f d sel)"
  unfolding plain_secret_def private_key_def wrap_err_def getSecretValue_def getPrivateKeyFromSecret_def
  by (intro keeps_intro; simp)+

lemma request_reads:
  "emits (sync_call ns url) (ssh_request env (own_namespace ns) m ssh t p)"
  "emits (sync_call ns url) (git_request env (own_namespace ns) git t p)"
  "emits (sync_call ns url) (s3_request env (own_namespace ns) s3 t p)"
  unfolding ssh_request_def git_request_def s3_request_def
  by (intro keeps_intro; simp add: own_namespace_def)+

text \<open>
  C33. A sync of an admitted \<open>SharedVolume\<close> stays in its namespace: the only calls are reads of
  secrets of that namespace and one kind of POST, to the service of the volume's reference
  value in that namespace.
\<close>

theorem shared_volume_sync_confined:
  assumes "ValidateCreate SharedVolume (OVolume v) = Inr ()"
  shows "emits (sync_call (GetNamespace v) (sync_url (ReferenceValue (vo_Spec v)) (GetNamespace v)))
    (triggerSyncCommon env (GetName v) (GetNamespace v) (vo_Spec v))"
proof -
  let ?P = "sync_call (GetNamespace v) (sync_url (ReferenceValue (vo_Spec v)) (GetNamespace v))"
  have "emits ?P (buildSyncRequestCommon env (GetName v) (GetNamespace v) (vo_Spec v))"
  proof (cases "Source (vo_Spec v)")
    case None
    then show ?thesis by (simp add: buildSyncRequestCommon_def grows.keeps_ret)
  next
    case (Some src)
    show ?thesis
      using admitted_local_source [OF assms Some]
      by (auto simp: buildSyncRequestCommon_def Some Let_def local_source_def http_request_def
          buildSSHSyncRequestCommon_def buildGitSyncRequestCommon_def buildS3SyncRequestCommon_def
          builders_agree request_reads grows.keeps_ret split: option.split)
  qed
  then show ?thesis
    unfolding triggerSyncCommon_def wrap_err_def send_sync_def by (intro keeps_intro) auto
qed

theorem shared_volume_sync_confined_witness:
  "emits (sync_call ''team'' (sync_url ''sv-a1'' ''team''))
    (triggerSyncCommon store_env ''vol'' ''team'' (vo_Spec sample_volume))"
proof -
  have "GetNamespace sample_volume = ''team''" "GetName sample_volume = ''vol''"
    "ReferenceValue (vo_Spec sample_volume) = ''sv-a1''"
    by (simp_all add: sample_volume_simps)
  then show ?thesis
    using shared_volume_sync_confined [OF sample_volume_admitted, of store_env] by simp
qed

end
