(* ===== verification/Sync_Timers.thy ===== *)
theory Sync_Timers
  imports Sync_Request
begin

text \<open>
  The periodic sync of sync_controller.go: the map of timers by volume key, starting and
  stopping, the callbacks of the timers, and the recovery after a restart. A timer made by
  \<open>time.AfterFunc\<close> is pending until it fires or is stopped; \<open>w_pending\<close> holds the pending ones
  with their closures. Each method is first treated as one step, which is how the reconcilers
  run them; the last section splits a callback in two and interleaves it with the others, as
  the goroutines of the timers do.
\<close>

section \<open>Operations\<close>

definition volume_key :: "string \<Rightarrow> string \<Rightarrow> string" where
  "volume_key namespace name = namespace @ ''/'' @ name"

definition time_AfterFunc :: "sync_closure \<Rightarrow> ('w, nat) prog" where
  "time_AfterFunc cl = State (\<lambda>w. (w_nextTimer w,
     w\<lparr>w_nextTimer := Suc (w_nextTimer w), w_pending := w_pending w @ [(w_nextTimer w, cl)]\<rparr>))"

definition drop_timer :: "nat \<Rightarrow> (nat \<times> sync_closure) list \<Rightarrow> (nat \<times> sync_closure) list" where
  "drop_timer timer = filter (\<lambda>(i, cl). i \<noteq> timer)"

definition stopSyncTimer :: "string \<Rightarrow> ('w, unit) prog" where
  "stopSyncTimer key = update_state (\<lambda>w.
     let w = (case w_syncTimers w key of
                None \<Rightarrow> w
              | Some timer \<Rightarrow> w\<lparr>w_pending := drop_timer timer (w_pending w),
                               w_syncTimers := (w_syncTimers w)(key := None)\<rparr>)
     in w\<lparr>w_initialSyncDone := (w_initialSyncDone w)(key := None)\<rparr>)"

definition set_timer :: "string \<Rightarrow> nat \<Rightarrow> ('w, unit) prog" where
  "set_timer key timer = update_state (\<lambda>w. w\<lparr>w_syncTimers := (w_syncTimers w)(key \<mapsto> timer)\<rparr>)"

definition startSyncCommon :: "string \<Rightarrow> string \<Rightarrow> VolumeSpecBase \<Rightarrow> int \<Rightarrow> ('w, error + unit) prog" where
  "startSyncCommon name namespace spec interval =
     (let key = volume_key namespace name in do {
        alreadyRunning \<leftarrow> gets (\<lambda>w. w_syncTimers w key \<noteq> None);
        initialSyncDone \<leftarrow> gets (\<lambda>w. w_initialSyncDone w key = Some True);
        if alreadyRunning then ret (Inr ())
        else do {
          _ \<leftarrow> stopSyncTimer key;
          _ \<leftarrow> (if \<not> initialSyncDone
                then update_state (\<lambda>w. w\<lparr>w_initialSyncDone := (w_initialSyncDone w)(key \<mapsto> True)\<rparr>)
                else ret ());
          timer \<leftarrow> time_AfterFunc (RunScheduledSyncCommon name namespace spec interval);
          _ \<leftarrow> set_timer key timer;
          ret (Inr ())
        }
      })"

definition StopSyncForSharedVolume :: "VolumeObject \<Rightarrow> ('w, unit) prog" where
  "StopSyncForSharedVolume sv = stopSyncTimer (volume_key (GetNamespace sv) (GetName sv))"

definition StopSyncForClusterSharedVolume :: "VolumeObject \<Rightarrow> ('w, unit) prog" where
  "StopSyncForClusterSharedVolume csv =
     stopSyncTimer (volume_key (ResourceNamespace (vo_Spec csv)) (GetName csv))"

definition StartSyncForSharedVolume :: "VolumeObject \<Rightarrow> ('w, error + unit) prog" where
  "StartSyncForSharedVolume sv =
     (if Phase (vo_Status sv) \<noteq> ''Ready'' \<or> \<not> hasValidSource (vo_Spec sv)
      then do { _ \<leftarrow> StopSyncForSharedVolume sv; ret (Inr ()) }
      else do {
        _ \<leftarrow> StopSyncForSharedVolume sv;
        case ParseDuration (SyncInterval (vo_Spec sv)) of
          Inl err \<Rightarrow> ret (Inl err)
        | Inr interval \<Rightarrow> startSyncCommon (GetName sv) (GetNamespace sv) (vo_Spec sv) interval
      })"

definition StartSyncForClusterSharedVolume :: "VolumeObject \<Rightarrow> ('w, error + unit) prog" where
  "StartSyncForClusterSharedVolume csv =
     (if \<not> hasValidSource (vo_Spec csv)
      then do { _ \<leftarrow> StopSyncForClusterSharedVolume csv; ret (Inr ()) }
      else case ParseDuration (SyncInterval (vo_Spec csv)) of
        Inl err \<Rightarrow> ret (Inl (Errorf_w ''invalid sync interval'' err))
      | Inr interval \<Rightarrow> do {
          _ \<leftarrow> StopSyncForClusterSharedVolume csv;
          startSyncCommon (GetName csv) (ResourceNamespace (vo_Spec csv)) (vo_Spec csv) interval
        })"

subsection \<open>Callbacks\<close>

text \<open>The check at the start of \<open>scheduledSyncCommon\<close>; any other error counts as not there.\<close>

definition volume_still_exists :: "'w env \<Rightarrow> string \<Rightarrow> string \<Rightarrow> ('w, bool) prog" where
  "volume_still_exists env name namespace = do {
     r \<leftarrow> GetVolume env SharedVolume namespace name;
     case r of
       Inr _ \<Rightarrow> ret True
     | Inl err \<Rightarrow>
         if IsNotFound err then do {
           r \<leftarrow> GetVolume env ClusterSharedVolume [] name;
           case r of
             Inr _ \<Rightarrow> ret True
           | Inl err \<Rightarrow> if IsNotFound err then ret False else ret False
         }
         else ret False
   }"

text \<open>The deferred function, and the sync between the check and it.\<close>

definition reschedule :: "string \<Rightarrow> sync_closure \<Rightarrow> ('w, unit) prog" where
  "reschedule key cl = do { timer \<leftarrow> time_AfterFunc cl; set_timer key timer }"

definition sync_if_source :: "'w env \<Rightarrow> string \<Rightarrow> string \<Rightarrow> VolumeSpecBase \<Rightarrow> ('w, unit) prog" where
  "sync_if_source env name namespace spec =
     (if hasValidSource spec
      then do { _ \<leftarrow> triggerSyncCommon env name namespace spec; ret () }
      else ret ())"

definition finishScheduledSync :: "'w env \<Rightarrow> string \<Rightarrow> string \<Rightarrow> VolumeSpecBase \<Rightarrow> int \<Rightarrow> ('w, unit) prog" where
  "finishScheduledSync env name namespace spec interval = do {
     _ \<leftarrow> sync_if_source env name namespace spec;
     reschedule (volume_key namespace name) (RunScheduledSyncCommon name namespace spec interval)
   }"

definition scheduledSyncCommon :: "'w env \<Rightarrow> string \<Rightarrow> string \<Rightarrow> VolumeSpecBase \<Rightarrow> int \<Rightarrow> ('w, unit) prog" where
  "scheduledSyncCommon env name namespace spec interval = do {
     volumeExists \<leftarrow> volume_still_exists env name namespace;
     if \<not> volumeExists then stopSyncTimer (volume_key namespace name)
     else finishScheduledSync env name namespace spec interval
   }"

definition scheduledSync :: "'w env \<Rightarrow> VolumeObject \<Rightarrow> int \<Rightarrow> ('w, unit) prog" where
  "scheduledSync env sv interval = do {
     r \<leftarrow> GetVolume env SharedVolume (GetNamespace sv) (GetName sv);
     _ \<leftarrow> (case r of
            Inl err \<Rightarrow> ret ()
          | Inr latestSV \<Rightarrow>
              if Phase (vo_Status latestSV) \<noteq> ''Ready'' \<or> \<not> hasValidSource (vo_Spec latestSV) then ret ()
              else do { _ \<leftarrow> triggerSync env latestSV; ret () });
     reschedule (volume_key (GetNamespace sv) (GetName sv)) (RunScheduledSync sv interval)
   }"

fun run_closure :: "'w env \<Rightarrow> sync_closure \<Rightarrow> ('w, unit) prog" where
  "run_closure env (RunScheduledSyncCommon name namespace spec interval) =
     scheduledSyncCommon env name namespace spec interval"
| "run_closure env (RunScheduledSync sv interval) = scheduledSync env sv interval"

definition RecoverSyncOperations :: "'w env \<Rightarrow> ('w, error + unit) prog" where
  "RecoverSyncOperations env = do {
     r \<leftarrow> ListVolumes env SharedVolume;
     case r of
       Inl err \<Rightarrow> ret (Inl (Errorf_w ''failed to list SharedVolumes for sync recovery'' err))
     | Inr svs \<Rightarrow> do {
         _ \<leftarrow> for_each svs (\<lambda>sv.
                if Phase (vo_Status sv) \<noteq> ''Ready'' \<or> \<not> hasValidSource (vo_Spec sv) then ret ()
                else do { _ \<leftarrow> StartSyncForSharedVolume sv; ret () });
         r \<leftarrow> ListVolumes env ClusterSharedVolume;
         _ \<leftarrow> (case r of
                Inl err \<Rightarrow> ret ()
              | Inr csvs \<Rightarrow> for_each csvs (\<lambda>csv.
                  if Phase (vo_Status csv) \<noteq> ''Ready'' \<or> \<not> hasValidSource (vo_Spec csv) then ret ()
                  else do { _ \<leftarrow> StartSyncForClusterSharedVolume csv; ret () }));
         ret (Inr ())
       }
   }"

section \<open>One timer per volume\<close>

fun closure_key :: "sync_closure \<Rightarrow> string" where
  "closure_key (RunScheduledSyncCommon name namespace spec interval) = volume_key namespace name"
| "closure_key (RunScheduledSync sv interval) = volume_key (GetNamespace sv) (GetName sv)"

text \<open>The pending timers of a key.\<close>

definition timers_for :: "string \<Rightarrow> 'w world \<Rightarrow> (nat \<times> sync_closure) list" where
  "timers_for key w = filter (\<lambda>(i, cl). closure_key cl = key) (w_pending w)"

text \<open>
  Every pending timer is the registered one of its key, and for every key but those in \<open>F\<close> (whose
  timer has just fired) the registered timer is pending.
\<close>

definition timers_ok_but :: "string set \<Rightarrow> 'w world \<Rightarrow> bool" where
  "timers_ok_but F w \<longleftrightarrow>
     distinct (map fst (w_pending w))
     \<and> (\<forall>(i, cl) \<in> set (w_pending w). i < w_nextTimer w \<and> w_syncTimers w (closure_key cl) = Some i)
     \<and> (\<forall>key i. key \<notin> F \<longrightarrow> w_syncTimers w key = Some i
          \<longrightarrow> (\<exists>cl. (i, cl) \<in> set (w_pending w) \<and> closure_key cl = key))
     \<and> (\<forall>key i. w_syncTimers w key = Some i \<longrightarrow> i < w_nextTimer w)
     \<and> (\<forall>key. key \<in> F \<longrightarrow> timers_for key w = [])
     \<and> inj_on (w_syncTimers w) (dom (w_syncTimers w))"

abbreviation timers_ok :: "'w world \<Rightarrow> bool" where
  "timers_ok \<equiv> timers_ok_but {}"

lemma timers_for_unique:
  assumes "timers_ok_but F w"
  shows "length (timers_for key w) \<le> 1"
proof -
  have "distinct (map fst (timers_for key w))"
    using assms by (auto simp: timers_ok_but_def timers_for_def distinct_map_filter)
  moreover have "fst ` set (timers_for key w) \<subseteq> {the (w_syncTimers w key)}"
    using assms by (force simp: timers_ok_but_def timers_for_def)
  ultimately show ?thesis
    by (metis card.empty card_insert_le card_mono card_1_singleton_iff distinct_card finite.emptyI finite_insert
        image_set is_singletonI is_singleton_altdef length_map)
qed

lemma run_stopSyncTimer: "run_state (stopSyncTimer key) w = ((), w\<lparr>
    w_pending := (case w_syncTimers w key of None \<Rightarrow> w_pending w | Some t \<Rightarrow> drop_timer t (w_pending w)),
    w_syncTimers := (w_syncTimers w)(key := None),
    w_initialSyncDone := (w_initialSyncDone w)(key := None)\<rparr>)"
  by (auto simp: stopSyncTimer_def Let_def fun_eq_iff split: option.split)

lemma run_AfterFunc_set:
  "run_state (do { timer \<leftarrow> time_AfterFunc cl; set_timer key timer }) w = ((), w\<lparr>
     w_nextTimer := Suc (w_nextTimer w), w_pending := w_pending w @ [(w_nextTimer w, cl)],
     w_syncTimers := (w_syncTimers w)(key \<mapsto> w_nextTimer w)\<rparr>)"
  by (simp add: time_AfterFunc_def set_timer_def)

lemma timers_okD:
  assumes "timers_ok_but F w"
  shows "distinct (map fst (w_pending w))"
    and "(i, cl) \<in> set (w_pending w) \<Longrightarrow> i < w_nextTimer w"
    and "(i, cl) \<in> set (w_pending w) \<Longrightarrow> w_syncTimers w (closure_key cl) = Some i"
    and "key \<notin> F \<Longrightarrow> w_syncTimers w key = Some i \<Longrightarrow> \<exists>cl. (i, cl) \<in> set (w_pending w) \<and> closure_key cl = key"
    and "w_syncTimers w key = Some i \<Longrightarrow> i < w_nextTimer w"
    and "key \<in> F \<Longrightarrow> timers_for key w = []"
    and "w_syncTimers w key = Some i \<Longrightarrow> w_syncTimers w key' = Some i \<Longrightarrow> key' = key"
proof -
  note ok = assms [unfolded timers_ok_but_def]
  from ok show "distinct (map fst (w_pending w))" by (elim conjE)
  from ok show "(i, cl) \<in> set (w_pending w) \<Longrightarrow> i < w_nextTimer w"
    and "(i, cl) \<in> set (w_pending w) \<Longrightarrow> w_syncTimers w (closure_key cl) = Some i"
    by (elim conjE; fast)+
  from ok show "key \<notin> F \<Longrightarrow> w_syncTimers w key = Some i \<Longrightarrow> \<exists>cl. (i, cl) \<in> set (w_pending w) \<and> closure_key cl = key"
    and "w_syncTimers w key = Some i \<Longrightarrow> i < w_nextTimer w" and "key \<in> F \<Longrightarrow> timers_for key w = []"
    by (elim conjE; blast)+
  from ok have "inj_on (w_syncTimers w) (dom (w_syncTimers w))" by (elim conjE)
  then show "w_syncTimers w key = Some i \<Longrightarrow> w_syncTimers w key' = Some i \<Longrightarrow> key' = key"
    unfolding inj_on_def by (metis domI)
qed

lemma timers_for_Nil: "timers_for key w = [] \<longleftrightarrow> (\<forall>(i, cl) \<in> set (w_pending w). closure_key cl \<noteq> key)"
  by (auto simp: timers_for_def filter_empty_conv)

text \<open>Stopping removes the pending timer of the key and no other.\<close>

lemma stop_pending:
  assumes "timers_ok_but F w" and "(i, cl) \<in> set (w_pending w)"
  shows "w_syncTimers w key = Some i \<longleftrightarrow> closure_key cl = key"
  using timers_okD(3,7) [OF assms(1)] assms(2) by metis

lemma stop_ok:
  assumes ok: "timers_ok_but F w" and r: "run_state (stopSyncTimer key) w = ((), w')"
  shows "timers_ok_but (F - {key}) w'" and "timers_for key w' = []" and "w_syncTimers w' key = None"
    and "key' \<noteq> key \<Longrightarrow> timers_for key' w' = timers_for key' w"
proof -
  have pend: "w_pending w' = filter (\<lambda>(i, cl). closure_key cl \<noteq> key) (w_pending w)"
  proof (cases "w_syncTimers w key")
    case None
    then have "\<forall>(i, cl) \<in> set (w_pending w). closure_key cl \<noteq> key"
      using timers_okD(3) [OF ok] by fastforce
    then show ?thesis
      using r None by (auto simp: run_stopSyncTimer intro!: filter_True [symmetric])
  next
    case (Some t)
    have "w_pending w' = filter (\<lambda>(i, cl). i \<noteq> t) (w_pending w)"
      using r Some by (auto simp: run_stopSyncTimer drop_timer_def)
    also have "\<dots> = filter (\<lambda>(i, cl). closure_key cl \<noteq> key) (w_pending w)"
    proof (rule filter_cong [OF refl])
      fix x assume x: "x \<in> set (w_pending w)"
      obtain i cl where "x = (i, cl)" by fastforce
      with x show "(case x of (i, cl) \<Rightarrow> i \<noteq> t) = (case x of (i, cl) \<Rightarrow> closure_key cl \<noteq> key)"
        using stop_pending [OF ok, of i cl key] Some by auto
    qed
    finally show ?thesis .
  qed
  have w': "w_syncTimers w' = (w_syncTimers w)(key := None)" "w_nextTimer w' = w_nextTimer w"
    using r by (auto simp: run_stopSyncTimer)
  show "w_syncTimers w' key = None" "timers_for key w' = []"
    using w' pend by (auto simp: timers_for_def filter_empty_conv)
  show other: "timers_for key' w' = timers_for key' w" if "key' \<noteq> key" for key'
    using that pend by (auto simp: timers_for_def intro: filter_cong)
  show "timers_ok_but (F - {key}) w'"
    unfolding timers_ok_but_def
  proof (intro conjI allI impI ballI)
    show "distinct (map fst (w_pending w'))"
      using timers_okD(1) [OF ok] pend by (simp add: distinct_map_filter)
    show "case x of (i, cl) \<Rightarrow> i < w_nextTimer w' \<and> w_syncTimers w' (closure_key cl) = Some i"
      if "x \<in> set (w_pending w')" for x
      using that timers_okD(2,3) [OF ok] pend w' by auto
    show "\<exists>cl. (i, cl) \<in> set (w_pending w') \<and> closure_key cl = k"
      if "k \<notin> F - {key}" "w_syncTimers w' k = Some i" for k i
      using that timers_okD(4) [OF ok, of k i] pend w' by (auto split: if_splits)
    show "i < w_nextTimer w'" if "w_syncTimers w' k = Some i" for k i
      using that timers_okD(5) [OF ok, of k i] w' by (auto split: if_splits)
    show "timers_for k w' = []" if "k \<in> F - {key}" for k
      using that timers_okD(6) [OF ok, of k] other by simp
    show "inj_on (w_syncTimers w') (dom (w_syncTimers w'))"
      using ok w' by (auto simp: timers_ok_but_def inj_on_def split: if_splits)
  qed
qed

text \<open>A new timer for a key without one.\<close>

lemma new_timer_ok:
  assumes ok: "timers_ok_but F w" and none: "timers_for key w = []" and key: "closure_key cl = key"
    and r: "run_state (do { timer \<leftarrow> time_AfterFunc cl; set_timer key timer }) w = (u, w')"
  shows "timers_ok_but (F - {key}) w'" and "timers_for key w' = [(w_nextTimer w, cl)]"
    and "key' \<noteq> key \<Longrightarrow> timers_for key' w' = timers_for key' w"
proof -
  have w': "w_syncTimers w' = (w_syncTimers w)(key \<mapsto> w_nextTimer w)" "w_nextTimer w' = Suc (w_nextTimer w)"
    "w_pending w' = w_pending w @ [(w_nextTimer w, cl)]"
    using r unfolding run_AfterFunc_set by auto
  show "timers_for key w' = [(w_nextTimer w, cl)]"
    using none key w' by (simp add: timers_for_def)
  show other: "timers_for key' w' = timers_for key' w" if "key' \<noteq> key" for key'
    using that key w' by (auto simp: timers_for_def)
  have fresh: "w_nextTimer w \<noteq> i" if "(i, c) \<in> set (w_pending w)" for i c
    using timers_okD(2) [OF ok that] by simp
  have nokey: "closure_key c \<noteq> key" if "(i, c) \<in> set (w_pending w)" for i c
    using none that by (auto simp: timers_for_Nil)
  show "timers_ok_but (F - {key}) w'"
    unfolding timers_ok_but_def
  proof (intro conjI allI impI ballI)
    show "distinct (map fst (w_pending w'))"
      using timers_okD(1) [OF ok] w' by (auto dest: fresh)
    show "case x of (i, cl) \<Rightarrow> i < w_nextTimer w' \<and> w_syncTimers w' (closure_key cl) = Some i"
      if "x \<in> set (w_pending w')" for x
      using that timers_okD(2,3) [OF ok] nokey key w' by (auto simp: less_Suc_eq)
    show "\<exists>cl. (i, cl) \<in> set (w_pending w') \<and> closure_key cl = k"
      if "k \<notin> F - {key}" "w_syncTimers w' k = Some i" for k i
      using that timers_okD(4) [OF ok, of k i] key w' by (auto split: if_splits)
    show "i < w_nextTimer w'" if "w_syncTimers w' k = Some i" for k i
      using that timers_okD(5) [OF ok, of k i] w' by (auto split: if_splits)
    show "timers_for k w' = []" if "k \<in> F - {key}" for k
      using that timers_okD(6) [OF ok, of k] other by simp
    show "inj_on (w_syncTimers w') (dom (w_syncTimers w'))"
      using ok w' timers_okD(5) [OF ok] by (fastforce simp: timers_ok_but_def inj_on_def split: if_splits)
  qed
qed

lemma same_timers_ok: "same_timers w w' \<Longrightarrow> timers_ok_but F w' = timers_ok_but F w"
  by (simp add: same_timers_def timers_ok_but_def timers_for_def)

lemma same_timers_for: "same_timers w w' \<Longrightarrow> timers_for key w' = timers_for key w"
  by (simp add: same_timers_def timers_for_def)

text \<open>A timer that fires leaves the pending list.\<close>

lemma fire_ok:
  assumes ok: "timers_ok w" and p: "w_pending w = xs @ (i, cl) # ys"
  shows "timers_ok_but {closure_key cl} (w\<lparr>w_pending := xs @ ys\<rparr>)"
proof -
  let ?w = "w\<lparr>w_pending := xs @ ys\<rparr>"
  have fresh: "i \<notin> fst ` set (xs @ ys)"
    using timers_okD(1) [OF ok] by (auto simp: p)
  have reg: "w_syncTimers w (closure_key cl) = Some i"
    using timers_okD(3) [OF ok, of i cl] by (simp add: p)
  have nokey: "closure_key c \<noteq> closure_key cl" if "(j, c) \<in> set (xs @ ys)" for j c
  proof
    assume "closure_key c = closure_key cl"
    moreover have "w_syncTimers w (closure_key c) = Some j"
      using timers_okD(3) [OF ok, of j c] that by (auto simp: p)
    ultimately have "j = i" using reg by simp
    then show False using fresh that by force
  qed
  show ?thesis
    unfolding timers_ok_but_def
  proof (intro conjI allI impI ballI)
    show "distinct (map fst (w_pending ?w))"
      using timers_okD(1) [OF ok] by (auto simp: p)
    show "case x of (i, cl) \<Rightarrow> i < w_nextTimer ?w \<and> w_syncTimers ?w (closure_key cl) = Some i"
      if "x \<in> set (w_pending ?w)" for x
      using that timers_okD(2,3) [OF ok] by (auto simp: p)
    show "\<exists>cl. (j, cl) \<in> set (w_pending ?w) \<and> closure_key cl = k"
      if k: "k \<notin> {closure_key cl}" "w_syncTimers ?w k = Some j" for k j
    proof -
      from k obtain c where "(j, c) \<in> set (w_pending w)" "closure_key c = k"
        using timers_okD(4) [OF ok, of k j] by auto
      then show ?thesis using k reg by (auto simp: p)
    qed
    show "j < w_nextTimer ?w" if "w_syncTimers ?w k = Some j" for k j
      using that timers_okD(5) [OF ok, of k j] by simp
    show "timers_for k ?w = []" if "k \<in> {closure_key cl}" for k
      using that nokey by (auto simp: timers_for_Nil)
    show "inj_on (w_syncTimers ?w) (dom (w_syncTimers ?w))"
      using ok by (simp add: timers_ok_but_def)
  qed
qed

section \<open>Programs that keep the timers in order\<close>

text \<open>
  \<open>settles_timer F key P m\<close>: from a world whose timers are in order up to \<open>F\<close>, a run of \<open>m\<close> leads to
  one whose timers are all in order, with timers for \<open>key\<close> that satisfy \<open>P\<close> and the same timers
  as before for every other key.
\<close>

definition settles_timer ::
  "string set \<Rightarrow> string \<Rightarrow> ((nat \<times> sync_closure) list \<Rightarrow> bool) \<Rightarrow> ('w, 'a) prog \<Rightarrow> bool" where
  "settles_timer F key P m \<longleftrightarrow> (\<forall>w r w'. timers_ok_but F w \<longrightarrow> run_state m w = (r, w')
     \<longrightarrow> timers_ok w' \<and> P (timers_for key w') \<and> (\<forall>key'. key' \<noteq> key \<longrightarrow> timers_for key' w' = timers_for key' w))"

lemma settles_timerI:
  assumes "\<And>w r w'. timers_ok_but F w \<Longrightarrow> run_state m w = (r, w') \<Longrightarrow>
    timers_ok w' \<and> P (timers_for key w') \<and> (\<forall>key'. key' \<noteq> key \<longrightarrow> timers_for key' w' = timers_for key' w)"
  shows "settles_timer F key P m"
  using assms unfolding settles_timer_def by blast

lemma settles_timerD:
  assumes "settles_timer F key P m" and "timers_ok_but F w" and "run_state m w = (r, w')"
  shows "timers_ok w' \<and> P (timers_for key w') \<and> (\<forall>key'. key' \<noteq> key \<longrightarrow> timers_for key' w' = timers_for key' w)"
  using assms unfolding settles_timer_def by blast

lemma settles_stop:
  assumes "F \<subseteq> {key}"
  shows "settles_timer F key (\<lambda>ts. ts = []) (stopSyncTimer key)"
proof (rule settles_timerI)
  fix w w' :: "'a world" and r :: unit
  assume ok: "timers_ok_but F w" and r: "run_state (stopSyncTimer key) w = (r, w')"
  have "F - {key} = {}" using assms by blast
  with stop_ok(1) [OF ok] r have "timers_ok w'" by (metis old.unit.exhaust)
  with stop_ok(2,4) [OF ok] r
  show "timers_ok w' \<and> timers_for key w' = [] \<and> (\<forall>key'. key' \<noteq> key \<longrightarrow> timers_for key' w' = timers_for key' w)"
    by simp
qed

lemma settles_weaken: "settles_timer F key P m \<Longrightarrow> (\<And>ts. P ts \<Longrightarrow> Q ts) \<Longrightarrow> settles_timer F key Q m"
  unfolding settles_timer_def by blast

lemma settles_if:
  "(b \<Longrightarrow> settles_timer F key P m) \<Longrightarrow> (\<not> b \<Longrightarrow> settles_timer F key P n)
     \<Longrightarrow> settles_timer F key P (if b then m else n)"
  by simp

text \<open>Sequencing with programs that leave the timers alone.\<close>

lemma settles_after_same:
  assumes "keeps same_timers m" and "\<And>x. x \<in> results m \<Longrightarrow> settles_timer F key P (f x)"
  shows "settles_timer F key P (State_Monad.bind m f)"
proof (rule settles_timerI)
  fix w r w'
  assume ok: "timers_ok_but F w" and r: "run_state (State_Monad.bind m f) w = (r, w')"
  obtain x w1 where m: "run_state m w = (x, w1)" by fastforce
  then have same: "same_timers w w1" using assms(1) keepsD by metis
  have "run_state (f x) w1 = (r, w')" using r m by simp
  with settles_timerD [OF assms(2) [OF resultsI [OF m]], of w1 r w'] ok
  show "timers_ok w' \<and> P (timers_for key w') \<and> (\<forall>key'. key' \<noteq> key \<longrightarrow> timers_for key' w' = timers_for key' w)"
    by (simp add: same_timers_ok [OF same] same_timers_for [OF same])
qed

lemma settles_then_same:
  assumes "settles_timer F key P m" and "\<And>x. keeps same_timers (f x)"
  shows "settles_timer F key P (State_Monad.bind m f)"
proof (rule settles_timerI)
  fix w r w'
  assume ok: "timers_ok_but F w" and r: "run_state (State_Monad.bind m f) w = (r, w')"
  obtain x w1 where m: "run_state m w = (x, w1)" by fastforce
  then have "run_state (f x) w1 = (r, w')" using r by simp
  then have same: "same_timers w1 w'" using assms(2) keepsD by metis
  show "timers_ok w' \<and> P (timers_for key w') \<and> (\<forall>key'. key' \<noteq> key \<longrightarrow> timers_for key' w' = timers_for key' w)"
    using settles_timerD [OF assms(1) ok m] by (simp add: same_timers_ok [OF same] same_timers_for [OF same])
qed

text \<open>The deferred rescheduling of a timer that has fired.\<close>

lemma settles_reschedule:
  assumes "closure_key cl = key"
  shows "settles_timer {key} key (\<lambda>ts. \<exists>i. ts = [(i, cl)]) (reschedule key cl)"
proof (rule settles_timerI)
  fix w r w'
  assume ok: "timers_ok_but {key} w" and r: "run_state (reschedule key cl) w = (r, w')"
  have "timers_for key w = []" using timers_okD(6) [OF ok] by simp
  from new_timer_ok [OF ok this assms r [unfolded reschedule_def]]
  show "timers_ok w' \<and> (\<exists>i. timers_for key w' = [(i, cl)])
      \<and> (\<forall>key'. key' \<noteq> key \<longrightarrow> timers_for key' w' = timers_for key' w)"
    by auto
qed

text \<open>Starting when no timer is registered for the key.\<close>

lemma startSyncCommon_fresh:
  assumes ok: "timers_ok w" and none: "w_syncTimers w (volume_key ns name) = None"
    and r: "run_state (startSyncCommon name ns spec interval) w = (r, w')"
  shows "r = Inr () \<and> timers_ok w'
    \<and> (\<exists>i. timers_for (volume_key ns name) w' = [(i, RunScheduledSyncCommon name ns spec interval)])
    \<and> (\<forall>key'. key' \<noteq> volume_key ns name \<longrightarrow> timers_for key' w' = timers_for key' w)"
proof -
  let ?key = "volume_key ns name" and ?cl = "RunScheduledSyncCommon name ns spec interval"
  let ?mark = "if w_initialSyncDone w ?key \<noteq> Some True
    then update_state (\<lambda>w. w\<lparr>w_initialSyncDone := (w_initialSyncDone w)(?key \<mapsto> True)\<rparr>) else ret ()"
  obtain w1 where w1: "run_state (stopSyncTimer ?key) w = ((), w1)"
    by (simp add: run_stopSyncTimer)
  obtain w2 where w2: "run_state ?mark w1 = ((), w2)"
    by (cases "run_state ?mark w1") simp
  have "run_state (do { timer \<leftarrow> time_AfterFunc ?cl; set_timer ?key timer }) w2 = ((), w') \<and> r = Inr ()"
    using r none w1 w2 by (auto simp: startSyncCommon_def Let_def split: prod.splits)
  then have w': "run_state (do { timer \<leftarrow> time_AfterFunc ?cl; set_timer ?key timer }) w2 = ((), w')" "r = Inr ()"
    by blast+
  have same: "same_timers w1 w2"
    using w2 by (auto simp: same_timers_def split: if_splits)
  note stop = stop_ok [OF ok w1]
  have "timers_ok w2" "timers_for ?key w2 = []"
    using stop(1,2) by (simp_all add: same_timers_ok [OF same] same_timers_for [OF same])
  from new_timer_ok [OF this _ w'(1)] stop(4)
  show ?thesis
    by (auto simp: w'(2) same_timers_for [OF same])
qed

section \<open>Starting, stopping and firing\<close>

text \<open>The key under which a volume is synced, and what a started sync leaves pending.\<close>

fun sync_key :: "VolumeObject \<Rightarrow> string" where
  "sync_key v =
     (case vo_type v of
        SharedVolume \<Rightarrow> volume_key (GetNamespace v) (GetName v)
      | ClusterSharedVolume \<Rightarrow> volume_key (ResourceNamespace (vo_Spec v)) (GetName v))"

lemma startSync_after_stop:
  assumes "key = volume_key ns name" and "F \<subseteq> {key}"
  shows "settles_timer F key (\<lambda>ts. \<exists>i. ts = [(i, RunScheduledSyncCommon name ns spec interval)])
    (do { _ \<leftarrow> stopSyncTimer key; startSyncCommon name ns spec interval })"
proof (rule settles_timerI)
  fix w r w'
  assume ok: "timers_ok_but F w" and r: "run_state (do { _ \<leftarrow> stopSyncTimer key; startSyncCommon name ns spec interval }) w = (r, w')"
  obtain w1 where w1: "run_state (stopSyncTimer key) w = ((), w1)"
    by (simp add: run_stopSyncTimer)
  have "timers_ok w1"
    using settles_timerD [OF settles_stop [OF assms(2)] ok w1] by blast
  moreover have "run_state (startSyncCommon name ns spec interval) w1 = (r, w')"
    using r w1 by simp
  moreover note stop_ok(3,4) [OF ok w1]
  ultimately show "timers_ok w' \<and> (\<exists>i. timers_for key w' = [(i, RunScheduledSyncCommon name ns spec interval)])
      \<and> (\<forall>key'. key' \<noteq> key \<longrightarrow> timers_for key' w' = timers_for key' w)"
    using startSyncCommon_fresh [of w1 ns name spec interval r w'] assms(1) by simp
qed

text \<open>What a start leaves pending for its volume.\<close>

definition started :: "VolumeObject \<Rightarrow> (nat \<times> sync_closure) list \<Rightarrow> bool" where
  "started v ts \<longleftrightarrow>
     (if Phase (vo_Status v) = ''Ready'' \<and> hasValidSource (vo_Spec v)
      then (case ParseDuration (SyncInterval (vo_Spec v)) of
              Inl _ \<Rightarrow> ts = []
            | Inr interval \<Rightarrow>
                \<exists>i. ts = [(i, RunScheduledSyncCommon (GetName v) (GetNamespace v) (vo_Spec v) interval)])
      else ts = [])"

lemma StartSyncForSharedVolume_settles:
  assumes "F \<subseteq> {volume_key (GetNamespace v) (GetName v)}"
  shows "settles_timer F (volume_key (GetNamespace v) (GetName v)) (started v) (StartSyncForSharedVolume v)"
proof (cases "Phase (vo_Status v) = ''Ready'' \<and> hasValidSource (vo_Spec v)")
  case False
  then show ?thesis
    by (auto simp: StartSyncForSharedVolume_def StopSyncForSharedVolume_def started_def
        intro!: settles_then_same settles_weaken [OF settles_stop [OF assms]] same_timers.keeps_ret)
next
  case True
  then show ?thesis
    by (cases "ParseDuration (SyncInterval (vo_Spec v))")
       (auto simp: StartSyncForSharedVolume_def StopSyncForSharedVolume_def started_def
        intro!: settles_then_same settles_weaken [OF settles_stop [OF assms]]
          settles_weaken [OF startSync_after_stop [OF _ assms]] same_timers.keeps_ret)
qed

lemma StartSyncForClusterSharedVolume_settles:
  "settles_timer {} (volume_key (ResourceNamespace (vo_Spec v)) (GetName v)) (\<lambda>ts. True)
     (StartSyncForClusterSharedVolume v)"
proof (cases "ParseDuration (SyncInterval (vo_Spec v))")
  case (Inl e)
  have same: "settles_timer {} key (\<lambda>ts. True) (ret (r :: error + unit))" for key r
    by (simp add: settles_timer_def)
  show ?thesis
    unfolding StartSyncForClusterSharedVolume_def StopSyncForClusterSharedVolume_def Inl
    by (intro settles_if) (auto intro!: settles_then_same same same_timers.keeps_ret settles_weaken [OF settles_stop])
next
  case (Inr i)
  show ?thesis
    unfolding StartSyncForClusterSharedVolume_def StopSyncForClusterSharedVolume_def Inr sum.case
  proof (rule settles_if, goal_cases)
    case 1
    show ?case
      by (intro settles_then_same same_timers.keeps_ret settles_weaken [OF settles_stop]) simp_all
  next
    case 2
    show ?case
      by (rule settles_weaken [OF startSync_after_stop]) simp_all
  qed
qed

lemma same_timers_request:
  "keeps same_timers (plain_secret env f msg d sel)" "keeps same_timers (private_key env f d sel)"
  unfolding plain_secret_def private_key_def wrap_err_def getSecretValue_def getPrivateKeyFromSecret_def
  by (intro keeps_intro)+

lemma same_timers_build:
  "keeps same_timers (buildSyncRequest env v)" "keeps same_timers (buildSyncRequestCommon env name ns spec)"
  unfolding buildSyncRequest_def buildSyncRequestCommon_def buildSSHSyncRequest_def
    buildSSHSyncRequestCommon_def buildGitSyncRequest_def buildGitSyncRequestCommon_def
    buildS3SyncRequest_def buildS3SyncRequestCommon_def ssh_request_def http_request_def
    git_request_def s3_request_def
  by (intro keeps_intro same_timers_request)+

lemma same_timers_trigger:
  "keeps same_timers (triggerSync env v)" "keeps same_timers (triggerSyncCommon env name ns spec)"
  unfolding triggerSync_def triggerSyncCommon_def wrap_err_def send_sync_def
  by (intro keeps_intro same_timers_build)+

lemma same_timers_exists: "keeps same_timers (volume_still_exists env name ns)"
  unfolding volume_still_exists_def by (intro keeps_intro)

lemma same_timers_sync: "keeps same_timers (sync_if_source env name ns spec)"
  unfolding sync_if_source_def by (intro keeps_intro same_timers_trigger)

text \<open>A callback, run to its end, leaves at most one timer for its key.\<close>

lemma scheduledSyncCommon_settles:
  "settles_timer {volume_key ns name} (volume_key ns name)
     (\<lambda>ts. ts = [] \<or> (\<exists>i. ts = [(i, RunScheduledSyncCommon name ns spec interval)]))
     (scheduledSyncCommon env name ns spec interval)"
  unfolding scheduledSyncCommon_def finishScheduledSync_def
  by (intro settles_after_same same_timers_exists same_timers_sync settles_if)
     (auto intro: settles_weaken [OF settles_stop] settles_weaken [OF settles_reschedule])

lemma scheduledSync_settles:
  "settles_timer {volume_key (GetNamespace v) (GetName v)} (volume_key (GetNamespace v) (GetName v))
     (\<lambda>ts. \<exists>i. ts = [(i, RunScheduledSync v interval)]) (scheduledSync env v interval)"
  unfolding scheduledSync_def
  by (intro settles_after_same settles_reschedule keeps_intro same_timers_trigger) simp

lemma run_closure_settles:
  "settles_timer {closure_key cl} (closure_key cl) (\<lambda>ts. ts = [] \<or> (\<exists>i. ts = [(i, cl)])) (run_closure env cl)"
  by (cases cl) (auto intro: scheduledSyncCommon_settles settles_weaken [OF scheduledSync_settles])

text \<open>
  The methods the reconcilers call, and the steps of the sync controller when no callback overlaps
  with anything.
\<close>

inductive method_step :: "'w world \<Rightarrow> 'w world \<Rightarrow> bool" where
  start_sv: "run_state (StartSyncForSharedVolume v) w = (r, w') \<Longrightarrow> method_step w w'"
| start_csv: "run_state (StartSyncForClusterSharedVolume v) w = (r, w') \<Longrightarrow> method_step w w'"
| stop_sv: "run_state (StopSyncForSharedVolume v) w = (u, w') \<Longrightarrow> method_step w w'"
| stop_csv: "run_state (StopSyncForClusterSharedVolume v) w = (u, w') \<Longrightarrow> method_step w w'"

inductive sync_steps :: "'w env \<Rightarrow> 'w world \<Rightarrow> 'w world \<Rightarrow> bool" for env where
  none: "sync_steps env w w"
| operation: "sync_steps env w w1 \<Longrightarrow> method_step w1 w' \<Longrightarrow> sync_steps env w w'"
| fire: "sync_steps env w w1 \<Longrightarrow> w_pending w1 = xs @ (i, cl) # ys
     \<Longrightarrow> run_state (run_closure env cl) (w1\<lparr>w_pending := xs @ ys\<rparr>) = (u, w') \<Longrightarrow> sync_steps env w w'"

inductive_cases method_stepE: "method_step w w'"

lemma method_step_ok:
  assumes "method_step w w'" and "timers_ok w"
  shows "timers_ok w'"
  using assms(1)
proof (cases rule: method_step.cases)
  case (start_sv v r)
  show ?thesis
    using settles_timerD [OF StartSyncForSharedVolume_settles [OF empty_subsetI] assms(2) start_sv] by (rule conjunct1)
next
  case (start_csv v r)
  show ?thesis
    using settles_timerD [OF StartSyncForClusterSharedVolume_settles assms(2) start_csv] by (rule conjunct1)
next
  case (stop_sv v u)
  show ?thesis
    using settles_timerD [OF settles_stop [OF empty_subsetI] assms(2) stop_sv [unfolded StopSyncForSharedVolume_def]]
    by (rule conjunct1)
next
  case (stop_csv v u)
  show ?thesis
    using settles_timerD [OF settles_stop [OF empty_subsetI] assms(2) stop_csv [unfolded StopSyncForClusterSharedVolume_def]]
    by (rule conjunct1)
qed

lemma fire_step_ok:
  assumes "timers_ok w" and "w_pending w = xs @ (i, cl) # ys"
    and "run_state (run_closure env cl) (w\<lparr>w_pending := xs @ ys\<rparr>) = (u, w')"
  shows "timers_ok w'"
  using settles_timerD [OF run_closure_settles fire_ok [OF assms(1,2)] assms(3)] by blast

text \<open>
  As long as a callback runs to its end before the next step, every volume has at most one
  pending timer and every pending timer is the one registered for its volume, through any
  sequence of starts, stops and firings.
\<close>

theorem one_timer_per_volume:
  assumes "sync_steps env w w'" and "timers_ok w"
  shows "timers_ok w' \<and> length (timers_for key w') \<le> 1"
proof -
  have "timers_ok w'"
    using assms by (induction rule: sync_steps.induct) (auto intro: method_step_ok fire_step_ok)
  then show ?thesis using timers_for_unique by blast
qed

lemma timers_ok_world_of [simp]: "timers_ok (world_of st)"
  by (simp add: timers_ok_but_def world_of_def)

text \<open>A volume that is ready to be synced.\<close>

definition ready_volume :: VolumeObject where
  "ready_volume = SetPhase ''Ready'' (set_spec (sample_spec\<lparr>SyncInterval := ''60s''\<rparr>) sample_volume)"

lemma ready_volume_facts:
  "Phase (vo_Status ready_volume) = ''Ready''" "hasValidSource (vo_Spec ready_volume)"
  "GetName ready_volume = ''vol''" "GetNamespace ready_volume = ''team''" "vo_type ready_volume = SharedVolume"
  "SyncInterval (vo_Spec ready_volume) = ''60s''"
  by (simp_all add: ready_volume_def volume_accessors sample_volume_simps hasValidSource_def)

theorem one_timer_per_volume_witness:
  "length (timers_for ''team/vol'' (snd (run_state (StartSyncForSharedVolume ready_volume) (world_of ([] :: store))))) \<le> 1"
proof -
  have "sync_steps store_env (world_of []) (snd (run_state (StartSyncForSharedVolume ready_volume) (world_of [])))"
    by (rule sync_steps.operation [OF sync_steps.none])
       (rule method_step.start_sv [where v = ready_volume], rule surjective_pairing)
  then show ?thesis
    by (rule one_timer_per_volume [THEN conjunct2, OF _ timers_ok_world_of])
qed

text \<open>
  C34. Starting the sync of a \<open>SharedVolume\<close> replaces whatever was pending for it: afterwards there is
  exactly one timer, with the current specification and interval, if the volume is ready, has
  a source and an interval that parses, and none otherwise. Timers of other keys stay.
\<close>

theorem StartSyncForSharedVolume_effect:
  assumes "timers_ok w" and "run_state (StartSyncForSharedVolume v) w = (r, w')"
  shows "timers_ok w' \<and> started v (timers_for (volume_key (GetNamespace v) (GetName v)) w')
    \<and> (\<forall>key'. key' \<noteq> volume_key (GetNamespace v) (GetName v) \<longrightarrow> timers_for key' w' = timers_for key' w)"
  by (rule settles_timerD [OF StartSyncForSharedVolume_settles [OF empty_subsetI] assms])

theorem StartSyncForSharedVolume_effect_witness:
  "started ready_volume (timers_for (volume_key ''team'' ''vol'')
     (snd (run_state (StartSyncForSharedVolume ready_volume) (world_of ([] :: store)))))"
  by (rule StartSyncForSharedVolume_effect [OF timers_ok_world_of surjective_pairing, of ready_volume,
        unfolded ready_volume_facts, THEN conjunct2, THEN conjunct1])

section \<open>Keys\<close>

lemma volume_key_inj:
  assumes "volume_key ns name = volume_key ns' name'" and "CHR ''/'' \<notin> set ns" and "CHR ''/'' \<notin> set ns'"
  shows "ns = ns' \<and> name = name'"
proof -
  have "takeWhile (\<lambda>c. c \<noteq> CHR ''/'') (a @ ''/'' @ b) = a" if "CHR ''/'' \<notin> set a" for a b
    using that by (subst takeWhile_append2) auto
  with assms have "ns = ns'"
    unfolding volume_key_def by metis
  with assms(1) show ?thesis by (simp add: volume_key_def)
qed

text \<open>
  A key tells namespaces and names apart but not the two kinds of volume: stopping the sync of a
  \<open>ClusterSharedVolume\<close> also takes away the timer of the \<open>SharedVolume\<close> of the same name in the
  namespace the cluster volume keeps its resources in, and of no other volume.
\<close>

theorem cluster_stop_hits_shared_volume:
  assumes "timers_ok w" and "run_state (StopSyncForClusterSharedVolume csv) w = (u, w')"
    and "CHR ''/'' \<notin> set (GetNamespace sv)" and "CHR ''/'' \<notin> set (ResourceNamespace (vo_Spec csv))"
  shows "timers_for (volume_key (GetNamespace sv) (GetName sv)) w' =
    (if GetName sv = GetName csv \<and> GetNamespace sv = ResourceNamespace (vo_Spec csv) then []
     else timers_for (volume_key (GetNamespace sv) (GetName sv)) w)"
proof -
  note stop = settles_timerD [OF settles_stop [OF empty_subsetI] assms(1)
      assms(2) [unfolded StopSyncForClusterSharedVolume_def]]
  show ?thesis
    using stop volume_key_inj [OF _ assms(3,4)] by auto
qed

definition cluster_volume :: VolumeObject where
  "cluster_volume = ready_volume\<lparr>vo_type := ClusterSharedVolume, vo_Meta := empty_meta\<lparr>om_Name := ''vol''\<rparr>\<rparr>"

theorem cluster_stop_hits_shared_volume_witness:
  "timers_for (volume_key ''team'' ''vol'')
     (snd (run_state (StopSyncForClusterSharedVolume cluster_volume) (world_of ([] :: store)))) = []"
proof -
  have "GetName cluster_volume = ''vol''" "ResourceNamespace (vo_Spec cluster_volume) = ''team''"
    by (simp_all add: cluster_volume_def ready_volume_def sample_volume_simps volume_accessors)
  then show ?thesis
    using cluster_stop_hits_shared_volume [OF timers_ok_world_of surjective_pairing, of ready_volume cluster_volume]
    by (simp add: ready_volume_facts)
qed

section \<open>A transient error ends the sync\<close>

text \<open>
  C36. When the server answers the existence check of a callback with any error but not-found, the
  volume counts as gone: nothing is synced, no timer is left and no later one will be made
  until something starts the sync again.
\<close>

theorem transient_error_stops_sync:
  assumes "timers_ok_but {volume_key ns name} w"
    and "fst (e_api env (GetReq (KVolume SharedVolume) ns name) (w_srv w)) = RError err" and "\<not> IsNotFound err"
    and "run_state (scheduledSyncCommon env name ns spec interval) w = (u, w')"
  shows "timers_for (volume_key ns name) w' = [] \<and> w_syncTimers w' (volume_key ns name) = None
    \<and> w_hist w' = w_hist w @ [EApi (GetReq (KVolume SharedVolume) ns name) (RError err)]"
proof -
  let ?key = "volume_key ns name"
  let ?w = "w\<lparr>w_srv := snd (e_api env (GetReq (KVolume SharedVolume) ns name) (w_srv w)),
      w_hist := w_hist w @ [EApi (GetReq (KVolume SharedVolume) ns name) (RError err)]\<rparr>"
  have "run_state (volume_still_exists env name ns) w = (False, ?w)"
    using assms(2,3) by (simp add: volume_still_exists_def GetVolume_def Get_as_def run_api_call as_object_def)
  with assms(4) have stop: "run_state (stopSyncTimer ?key) ?w = ((), w')"
    by (simp add: scheduledSyncCommon_def)
  have ok: "timers_ok_but {?key} ?w"
    using assms(1) by (simp add: timers_ok_but_def timers_for_def)
  show ?thesis
    using stop_ok(2,3) [OF ok stop] stop by (auto simp: run_stopSyncTimer)
qed

text \<open>A server that answers every request with a server error.\<close>

definition failing_env :: "store env" where
  "failing_env = store_env\<lparr>e_api := (\<lambda>rq st. (RError (OtherApiError ''timeout''), st))\<rparr>"

theorem transient_error_stops_sync_witness:
  "timers_for (volume_key ''team'' ''vol'')
     (snd (run_state (scheduledSyncCommon failing_env ''vol'' ''team'' sample_spec 60) (world_of []))) = []"
proof -
  have "timers_ok_but {volume_key ''team'' ''vol''} (world_of ([] :: store))"
    by (simp add: timers_ok_but_def world_of_def timers_for_def)
  from transient_error_stops_sync [OF this _ _ surjective_pairing, of failing_env "OtherApiError ''timeout''"]
  show ?thesis by (simp add: failing_env_def)
qed

section \<open>Overlapping callbacks\<close>

text \<open>
  A callback runs in the goroutine of its timer. Here it is split after the existence check: the
  second component of a state lists the callbacks that have passed the check and will
  reschedule. Methods of the reconcilers may run in between.
\<close>

type_synonym passed = "string \<times> string \<times> VolumeSpecBase \<times> int"

inductive overlap_steps ::
  "'w env \<Rightarrow> 'w world \<times> passed list \<Rightarrow> 'w world \<times> passed list \<Rightarrow> bool" for env where
  none: "overlap_steps env c c"
| operation: "overlap_steps env c (w, fl) \<Longrightarrow> method_step w w' \<Longrightarrow> overlap_steps env c (w', fl)"
| check: "overlap_steps env c (w, fl)
    \<Longrightarrow> w_pending w = xs @ (i, RunScheduledSyncCommon name ns spec interval) # ys
    \<Longrightarrow> run_state (volume_still_exists env name ns) (w\<lparr>w_pending := xs @ ys\<rparr>) = (True, w')
    \<Longrightarrow> overlap_steps env c (w', fl @ [(name, ns, spec, interval)])"
| finish: "overlap_steps env c (w, fl1 @ (name, ns, spec, interval) # fl2)
    \<Longrightarrow> run_state (finishScheduledSync env name ns spec interval) w = (u, w')
    \<Longrightarrow> overlap_steps env c (w', fl1 @ fl2)"

text \<open>A server on which the volume is there.\<close>

definition serves :: "'w env \<Rightarrow> VolumeObject \<Rightarrow> bool" where
  "serves env v \<longleftrightarrow> (\<forall>s. \<exists>v'. vo_type v' = SharedVolume
     \<and> fst (e_api env (GetReq (KVolume SharedVolume) (GetNamespace v) (GetName v)) s) = RObject (OVolume v'))"

lemma serves_exists:
  assumes "serves env v"
  shows "\<exists>w'. run_state (volume_still_exists env (GetName v) (GetNamespace v)) w = (True, w')"
proof -
  from assms obtain v' where "vo_type v' = SharedVolume"
      "fst (e_api env (GetReq (KVolume SharedVolume) (GetNamespace v) (GetName v)) (w_srv w)) = RObject (OVolume v')"
    unfolding serves_def by blast
  then show ?thesis
    by (simp add: volume_still_exists_def GetVolume_def Get_as_def run_api_call as_object_def)
qed

text \<open>A started volume whose timer has fired and whose callback has passed the check.\<close>

lemma callback_under_way:
  assumes ok: "timers_ok w" and v: "Phase (vo_Status v) = ''Ready''" "hasValidSource (vo_Spec v)"
    "ParseDuration (SyncInterval (vo_Spec v)) = Inr interval" and srv: "serves env v"
  shows "\<exists>w2. overlap_steps env (w, []) (w2, [(GetName v, GetNamespace v, vo_Spec v, interval)])
    \<and> timers_ok_but {volume_key (GetNamespace v) (GetName v)} w2"
proof -
  let ?key = "volume_key (GetNamespace v) (GetName v)"
  let ?cl = "RunScheduledSyncCommon (GetName v) (GetNamespace v) (vo_Spec v) interval"
  obtain r w1 where start: "run_state (StartSyncForSharedVolume v) w = (r, w1)" by fastforce
  note w1 = settles_timerD [OF StartSyncForSharedVolume_settles [OF empty_subsetI] ok start]
  then obtain i where "timers_for ?key w1 = [(i, ?cl)]"
    using v by (auto simp: started_def)
  then have "(i, ?cl) \<in> set (timers_for ?key w1)" by simp
  then have "(i, ?cl) \<in> set (w_pending w1)" by (simp add: timers_for_def)
  then obtain xs ys where p: "w_pending w1 = xs @ (i, ?cl) # ys"
    by (meson split_list)
  obtain w2 where ex: "run_state (volume_still_exists env (GetName v) (GetNamespace v)) (w1\<lparr>w_pending := xs @ ys\<rparr>) = (True, w2)"
    using serves_exists [OF srv] by blast
  have "overlap_steps env (w, []) (w1, [])"
    by (rule overlap_steps.operation [OF overlap_steps.none method_step.start_sv [OF start]])
  from overlap_steps.check [OF this p ex]
  have "overlap_steps env (w, []) (w2, [(GetName v, GetNamespace v, vo_Spec v, interval)])" by simp
  moreover have "timers_ok_but {?key} w2"
    using fire_ok [OF _ p] w1 same_timers_ok [OF keepsD [OF same_timers_exists ex]] by simp
  ultimately show ?thesis by blast
qed

lemma finish_adds_timer:
  assumes "run_state (finishScheduledSync env name ns spec interval) w = (u, w')"
  shows "timers_for (volume_key ns name) w' =
    timers_for (volume_key ns name) w @ [(w_nextTimer w, RunScheduledSyncCommon name ns spec interval)]"
proof -
  obtain x w1 where s: "run_state (sync_if_source env name ns spec) w = (x, w1)"
    by (cases "run_state (sync_if_source env name ns spec) w")
  have same: "same_timers w w1" by (rule keepsD [OF same_timers_sync s])
  have "run_state (reschedule (volume_key ns name) (RunScheduledSyncCommon name ns spec interval)) w1 = (u, w')"
    using assms s by (simp add: finishScheduledSync_def)
  then show ?thesis
    using same unfolding reschedule_def run_AfterFunc_set by (auto simp: timers_for_def same_timers_def)
qed

text \<open>
  C37. When a reconciliation overlaps with a callback the timers get out of order. A restart while
  the callback is under way ends in two pending timers for the volume, only one of which a
  later stop can find; a stop while it is under way ends with the volume still scheduled.
\<close>

theorem overlap_breaks_timers:
  assumes "timers_ok w" and "Phase (vo_Status v) = ''Ready''" and "hasValidSource (vo_Spec v)"
    and "ParseDuration (SyncInterval (vo_Spec v)) = Inr interval" and "serves env v"
  shows "(\<exists>w2. overlap_steps env (w, []) (w2, [])
        \<and> length (timers_for (volume_key (GetNamespace v) (GetName v)) w2) = 2)
    \<and> (\<exists>w1 w2 w3. overlap_steps env (w, []) (w1, [(GetName v, GetNamespace v, vo_Spec v, interval)])
      \<and> run_state (StopSyncForSharedVolume v) w1 = ((), w2) \<and> overlap_steps env (w, []) (w3, [])
      \<and> run_state (finishScheduledSync env (GetName v) (GetNamespace v) (vo_Spec v) interval) w2 = ((), w3)
      \<and> timers_for (volume_key (GetNamespace v) (GetName v)) w3 \<noteq> [])"
proof (intro conjI)
  let ?key = "volume_key (GetNamespace v) (GetName v)"
  let ?finish = "finishScheduledSync env (GetName v) (GetNamespace v) (vo_Spec v) interval"
  obtain w1 where w1: "overlap_steps env (w, []) (w1, [(GetName v, GetNamespace v, vo_Spec v, interval)])"
    and ok1: "timers_ok_but {?key} w1"
    using callback_under_way [OF assms] by blast
  obtain r w2 where start: "run_state (StartSyncForSharedVolume v) w1 = (r, w2)" by fastforce
  have "started v (timers_for ?key w2)"
    using settles_timerD [OF StartSyncForSharedVolume_settles [OF subset_refl] ok1 start] by blast
  then have one: "length (timers_for ?key w2) = 1"
    using assms by (auto simp: started_def)
  obtain w3 where fin: "run_state ?finish w2 = ((), w3)"
    by (cases "run_state ?finish w2") simp
  have "overlap_steps env (w, []) (w3, [] @ [])"
    by (rule overlap_steps.finish [OF _ fin]) (simp add: overlap_steps.operation [OF w1 method_step.start_sv [OF start]])
  then show "\<exists>w2. overlap_steps env (w, []) (w2, []) \<and> length (timers_for ?key w2) = 2"
    using finish_adds_timer [OF fin] one by auto
  obtain w4 where stop: "run_state (StopSyncForSharedVolume v) w1 = ((), w4)"
    by (simp add: StopSyncForSharedVolume_def run_stopSyncTimer)
  obtain w5 where fin2: "run_state ?finish w4 = ((), w5)"
    by (cases "run_state ?finish w4") simp
  have "overlap_steps env (w, []) (w5, [] @ [])"
    by (rule overlap_steps.finish [OF _ fin2]) (simp add: overlap_steps.operation [OF w1 method_step.stop_sv [OF stop]])
  then show "\<exists>w1 w2 w3. overlap_steps env (w, []) (w1, [(GetName v, GetNamespace v, vo_Spec v, interval)])
      \<and> run_state (StopSyncForSharedVolume v) w1 = ((), w2) \<and> overlap_steps env (w, []) (w3, [])
      \<and> run_state ?finish w2 = ((), w3) \<and> timers_for ?key w3 \<noteq> []"
    using w1 stop fin2 finish_adds_timer [OF fin2] by auto
qed

text \<open>A server whose store is always the ready volume.\<close>

definition constant_env :: "store env" where
  "constant_env = store_env\<lparr>e_api := (\<lambda>rq st. (RObject (OVolume ready_volume), st))\<rparr>"

theorem overlap_breaks_timers_witness:
  "\<exists>w2. overlap_steps constant_env (world_of [], []) (w2, []) \<and> length (timers_for (volume_key ''team'' ''vol'') w2) = 2"
proof -
  have "serves constant_env ready_volume"
    by (simp add: serves_def constant_env_def ready_volume_facts)
  from overlap_breaks_timers [THEN conjunct1, OF timers_ok_world_of ready_volume_facts(1,2) _ this]
  show ?thesis
    by (simp add: ready_volume_facts ParseDuration_60s)
qed

end
