(* ===== verification/Polling.thy ===== *)
theory Polling
  imports Retry
begin

text \<open>
  Loops that look, sleep and look again until a deadline. The code gives them no bound on the number
  of rounds, so a loop takes fuel; the locale \<open>polling\<close> says how much is enough when the clock goes
  on, and what is known when such a loop returns.
\<close>

section \<open>Clocks\<close>

text \<open>A clock that does not go back during a call and moves on by at least the time slept.\<close>

definition clock_ok :: "'w env \<Rightarrow> bool" where
  "clock_ok env \<longleftrightarrow>
     (\<forall>rq s. e_now env s \<le> e_now env (snd (e_api env rq s)))
     \<and> (\<forall>d s. 0 \<le> d \<longrightarrow> e_now env s + d \<le> e_now env (e_sleep env d s))"

definition not_back :: "'w env \<Rightarrow> 'w world \<Rightarrow> 'w world \<Rightarrow> bool" where
  "not_back env w w' \<longleftrightarrow> e_now env (w_srv w) \<le> e_now env (w_srv w')"

interpretation clock: step_preorder "not_back env :: 'w world \<Rightarrow> 'w world \<Rightarrow> bool" for env
  by unfold_locales (auto simp: not_back_def)

lemma clock_api_call: "clock_ok env \<Longrightarrow> keeps (not_back env) (api_call env rq)"
  by (simp add: keeps_def not_back_def run_api_call clock_ok_def)

lemma clock_Sleep:
  assumes "clock_ok env" and "0 \<le> d"
  shows "keeps (not_back env) (time_Sleep env d)"
proof -
  have "e_now env s \<le> e_now env (e_sleep env d s)" for s
    using assms unfolding clock_ok_def by (smt (verit))
  then show ?thesis
    by (simp add: keeps_def not_back_def time_Sleep_def)
qed

lemma clock_calls:
  assumes "clock_ok env"
  shows "keeps (not_back env) (Get_as dec env k ns n)" "keeps (not_back env) (List_as dec env k sel)"
    "keeps (not_back env) (Update env obj)" "keeps (not_back env) (Delete env obj)" "keeps (not_back env) (DeleteNow env obj)"
    "keeps (not_back env) (time_Now env)"
  unfolding Get_as_def List_as_def Update_def Delete_def DeleteNow_def time_Now_def
  by (intro clock.keeps_bind clock.keeps_ret clock_api_call clock.keeps_gets assms)+

section \<open>Polling loops\<close>

locale polling =
  fixes env :: "'w env"
    and deadline period :: int
    and look :: "'s \<Rightarrow> ('w, 's option) prog"
    and loop :: "nat \<Rightarrow> 's \<Rightarrow> ('w, error + unit) prog"
  assumes loop_0: "loop 0 s = ret (Inl Diverges)"
    and loop_Suc: "loop (Suc n) s = do {
      now \<leftarrow> time_Now env;
      if \<not> now < deadline then ret (Inr ())
      else do {
        r \<leftarrow> look s;
        case r of
          None \<Rightarrow> ret (Inr ())
        | Some s' \<Rightarrow> do { _ \<leftarrow> time_Sleep env period; loop n s' }
      }
    }"
    and period: "0 \<le> period"
    and look_clock: "clock_ok env \<Longrightarrow> keeps (not_back env) (look s)"
begin

text \<open>A round takes one period, so the time left bounds the number of rounds.\<close>

lemma enough_fuel:
  assumes "clock_ok env" and "deadline - e_now env (w_srv w) \<le> period * int n"
  shows "fst (run_state (loop (Suc n) s) w) = Inr ()"
  using assms(2)
proof (induction n arbitrary: w s)
  case 0
  then show ?case by (simp add: loop_Suc time_Now_def)
next
  case (Suc n)
  obtain r w1 where look: "run_state (look s) w = (r, w1)" by fastforce
  let ?w2 = "w1\<lparr>w_srv := e_sleep env period (w_srv w1), w_hist := w_hist w1 @ [ESleep period]\<rparr>"
  have "e_now env (w_srv w) \<le> e_now env (w_srv w1)"
    using keepsD [OF look_clock [OF assms(1)] look] by (simp add: not_back_def)
  moreover have "e_now env (w_srv w1) + period \<le> e_now env (w_srv ?w2)"
    using assms(1) period by (simp add: clock_ok_def)
  ultimately have "deadline - e_now env (w_srv ?w2) \<le> period * int n"
    using Suc.prems by (simp add: algebra_simps)
  from Suc.IH [OF this] look show ?case
    by (subst loop_Suc) (simp add: time_Now_def time_Sleep_def split: option.split)
qed

lemma returns_because:
  assumes "run_state (loop n s) w = (Inr (), w')"
  shows "deadline \<le> e_now env (w_srv w') \<or> (\<exists>s0 w0. run_state (look s0) w0 = (None, w'))"
  using assms
proof (induction n arbitrary: w s)
  case 0
  then show ?case by (simp add: loop_0)
next
  case (Suc n)
  obtain r w1 where look: "run_state (look s) w = (r, w1)" by fastforce
  show ?case
  proof (cases "e_now env (w_srv w) < deadline")
    case True
    with Suc.prems look show ?thesis
      by (cases r) (auto simp: loop_Suc time_Now_def time_Sleep_def dest: Suc.IH)
  next
    case False
    with Suc.prems show ?thesis by (simp add: loop_Suc time_Now_def)
  qed
qed

lemma keeps_loop:
  assumes "step_preorder R" and "\<And>s. keeps R (look s)" and "keeps R (time_Sleep env period)"
  shows "keeps R (loop n s)"
proof (induction n arbitrary: s)
  case 0
  show ?case unfolding loop_0 by (rule step_preorder.keeps_ret [OF assms(1)])
next
  case (Suc n)
  show ?case
    unfolding loop_Suc time_Now_def
    by (intro step_preorder.keeps_bind [OF assms(1)] step_preorder.keeps_ret [OF assms(1)]
        step_preorder.keeps_gets [OF assms(1)] keeps_if keeps_case_option assms(2,3) Suc.IH)
qed

end

end
