(* ===== verification/Cleanup.thy ===== *)
theory Cleanup
  imports Resources Sync_Timers Polling
begin

text \<open>
  Removing everything a volume owns (volume_controller_base.go): forced deletion of pods,
  claims and volumes, the passes over each kind of object, the wait for the persistent
  volumes to go, and the order in which \<open>CleanupResources\<close> runs them. Passes log their errors and
  go on, so they return nothing; the wait loop is the one that can fail to return.
\<close>

section \<open>Forced deletion\<close>

definition ForceDeletePVC :: "'w env \<Rightarrow> PersistentVolumeClaim \<Rightarrow> ('w, error + unit) prog" where
  "ForceDeletePVC env pvc = do {
     _ \<leftarrow> (if om_Finalizers (pvc_Meta pvc) \<noteq> [] then RemovePVCFinalizersWithRetry env pvc else ret (Inr ()));
     bindE (Delete env (OPersistentVolumeClaim pvc)) (\<lambda>_. do {
     r \<leftarrow> GetPVC env (om_Namespace (pvc_Meta pvc)) (om_Name (pvc_Meta pvc));
     case r of
       Inl err \<Rightarrow> if IsNotFound err then ret (Inr ()) else ret (Inl err)
     | Inr updatedPVC \<Rightarrow>
         if om_DeletionTimestamp (pvc_Meta updatedPVC) \<noteq> None \<and> om_Finalizers (pvc_Meta updatedPVC) \<noteq> []
         then RemovePVCFinalizersWithRetry env updatedPVC
         else ret (Inr ()) })
   }"

definition ForceDeletePV :: "'w env \<Rightarrow> PersistentVolume \<Rightarrow> ('w, error + unit) prog" where
  "ForceDeletePV env pv = do {
     _ \<leftarrow> (if om_Finalizers (pv_Meta pv) \<noteq> [] then RemovePVFinalizersWithRetry env pv else ret (Inr ()));
     r \<leftarrow> Delete env (OPersistentVolume pv);
     if (case r of Inl err \<Rightarrow> IsNotFound err | Inr _ \<Rightarrow> False) then ret (Inr ())
     else do {
       _ \<leftarrow> time_Sleep env second;
       r \<leftarrow> GetPV env (om_Name (pv_Meta pv));
       case r of
         Inl err \<Rightarrow> if IsNotFound err then ret (Inr ()) else ret (Inl err)
       | Inr updatedPV \<Rightarrow>
           if om_Finalizers (pv_Meta updatedPV) \<noteq> [] \<or> om_DeletionTimestamp (pv_Meta updatedPV) \<noteq> None
           then forceRemovePVFinalizersWithPatch env (om_Name (pv_Meta pv))
           else ret (Inr ())
     }
   }"

definition ForceDeletePod :: "'w env \<Rightarrow> Pod \<Rightarrow> ('w, error + unit) prog" where
  "ForceDeletePod env pod =
     bindE (Delete env (OPod pod)) (\<lambda>_. do {
     _ \<leftarrow> time_Sleep env (500 * millisecond);
     r \<leftarrow> GetPod env (om_Namespace (pod_Meta pod)) (om_Name (pod_Meta pod));
     case r of
       Inl err \<Rightarrow> if IsNotFound err then ret (Inr ()) else ret (Inl err)
     | Inr updatedPod \<Rightarrow>
         bindE (if om_DeletionTimestamp (pod_Meta updatedPod) \<noteq> None \<and> om_Finalizers (pod_Meta updatedPod) \<noteq> []
                then Update env (set_finalizers [] (OPod updatedPod))
                else ret (Inr (OPod updatedPod))) (\<lambda>updatedPod.
         if om_DeletionTimestamp (meta_of updatedPod) \<noteq> None then DeleteNow env updatedPod
         else ret (Inr ())) })"

section \<open>The passes\<close>

text \<open>The volume an annotation of the old format refers to.\<close>

definition annotation_prefix :: string where
  "annotation_prefix = ''sharedvolume.sv/''"

definition annotation_volume :: "Pod \<Rightarrow> string \<Rightarrow> string \<times> string" where
  "annotation_volume pod key =
     (let refPart = strings_TrimPrefix key annotation_prefix
      in if strings_Contains refPart ''__''
         then (case strings_SplitFirst refPart ''__'' of Some parts \<Rightarrow> parts | None \<Rightarrow> (refPart, []))
         else (om_Namespace (pod_Meta pod), refPart))"

definition CleanupAllPodsUsingVolumeInNamespace :: "'w env \<Rightarrow> VolumeObject \<Rightarrow> string \<Rightarrow> ('w, unit) prog" where
  "CleanupAllPodsUsingVolumeInNamespace env v operationalNamespace = do {
     r \<leftarrow> ListPods env AllNamespaces;
     case r of
       Inl err \<Rightarrow> ret ()
     | Inr pods \<Rightarrow>
         for_each pods (\<lambda>pod. for_each (om_Annotations (pod_Meta pod)) (\<lambda>(key, value).
           if strings_HasPrefix key annotation_prefix \<and> value = ''true''
             \<and> annotation_volume pod key = (operationalNamespace, GetName v)
           then do { _ \<leftarrow> ForceDeletePod env pod; ret () } else ret ()))
   }"

definition force_delete_pods :: "'w env \<Rightarrow> Pod list \<Rightarrow> ('w, unit) prog" where
  "force_delete_pods env pods = for_each pods (\<lambda>pod. do { _ \<leftarrow> ForceDeletePod env pod; ret () })"

definition CleanupReplicaSetInNamespace :: "'w env \<Rightarrow> string \<Rightarrow> string \<Rightarrow> ('w, unit) prog" where
  "CleanupReplicaSetInNamespace env referenceValue operationalNamespace = do {
     r \<leftarrow> GetReplicaSet env operationalNamespace referenceValue;
     case r of
       Inl err \<Rightarrow> ret ()
     | Inr rs \<Rightarrow> do {
         l \<leftarrow> ListPods env (InNamespaceMatching operationalNamespace [(''app'', referenceValue)]);
         _ \<leftarrow> (case l of Inl err \<Rightarrow> ret () | Inr pods \<Rightarrow> force_delete_pods env pods);
         _ \<leftarrow> Delete env (OReplicaSet rs);
         ret ()
       }
   }"

definition ForceCleanupAllResourcesInNamespace :: "'w env \<Rightarrow> string \<Rightarrow> string \<Rightarrow> ('w, unit) prog" where
  "ForceCleanupAllResourcesInNamespace env referenceValue operationalNamespace = do {
     l \<leftarrow> ListPods env (InNamespaceMatching operationalNamespace [(''app'', referenceValue)]);
     case l of
       Inl err \<Rightarrow> ret ()
     | Inr pods \<Rightarrow>
         for_each pods (\<lambda>pod. do {
           let pod = set_finalizers [] (OPod pod);
           r \<leftarrow> Update env pod;
           _ \<leftarrow> DeleteNow env (case r of Inl err \<Rightarrow> pod | Inr updated \<Rightarrow> updated);
           ret ()
         })
   }"

definition CleanupAllPVCsInNamespace :: "'w env \<Rightarrow> string \<Rightarrow> string \<Rightarrow> ('w, unit) prog" where
  "CleanupAllPVCsInNamespace env referenceValue operationalNamespace = do {
     r \<leftarrow> GetPVC env operationalNamespace referenceValue;
     _ \<leftarrow> (case r of
            Inl err \<Rightarrow> ret ()
          | Inr pvc \<Rightarrow> do { _ \<leftarrow> ForceDeletePVC env pvc; ret () });
     l \<leftarrow> ListPVCs env;
     case l of
       Inl err \<Rightarrow> ret ()
     | Inr pvcs \<Rightarrow>
         for_each pvcs (\<lambda>pvcItem.
           if strings_HasPrefix (om_Name (pvc_Meta pvcItem)) (referenceValue @ ''-'')
           then do { _ \<leftarrow> ForceDeletePVC env pvcItem; ret () } else ret ())
   }"

definition related_pv :: "VolumeObject \<Rightarrow> string \<Rightarrow> PersistentVolume \<Rightarrow> bool" where
  "related_pv v referenceValue pv \<longleftrightarrow>
     map_of (om_Labels (pv_Meta pv)) ''shared-volume.io/reference'' = Some referenceValue
     \<or> map_of (om_Labels (pv_Meta pv)) ''shared-volume.io/owner'' = Some (GetName v @ ''.'' @ GetNamespace v)
     \<or> strings_HasPrefix (om_Name (pv_Meta pv)) (referenceValue @ ''-'')
     \<or> strings_HasPrefix (om_Name (pv_Meta pv)) (''pv-'' @ referenceValue @ ''-'')"

definition CleanupAllPVs :: "'w env \<Rightarrow> VolumeObject \<Rightarrow> string \<Rightarrow> ('w, unit) prog" where
  "CleanupAllPVs env v referenceValue = (let pvName = ''pv-'' @ referenceValue in do {
     r \<leftarrow> GetPV env pvName;
     _ \<leftarrow> (case r of
            Inl err \<Rightarrow> ret ()
          | Inr pv \<Rightarrow> do { _ \<leftarrow> ForceDeletePV env pv; ret () });
     l \<leftarrow> ListPVs env;
     case l of
       Inl err \<Rightarrow> ret ()
     | Inr pvs \<Rightarrow>
         for_each pvs (\<lambda>pvItem.
           if related_pv v referenceValue pvItem \<and> om_Name (pv_Meta pvItem) \<noteq> pvName
           then do { _ \<leftarrow> ForceDeletePV env pvItem; ret () } else ret ())
   })"

text \<open>One look of the wait loop, and the loop with the rounds left.\<close>

definition pvs_still_exist :: "'w env \<Rightarrow> string \<Rightarrow> ('w, bool) prog" where
  "pvs_still_exist env referenceValue = do {
     r \<leftarrow> GetPV env (''pv-'' @ referenceValue);
     l \<leftarrow> ListPVs env;
     ret ((case r of Inl err \<Rightarrow> False | Inr pv \<Rightarrow> True)
       \<or> (case l of Inl err \<Rightarrow> False
          | Inr pvs \<Rightarrow> list_ex (\<lambda>pv. strings_HasPrefix (om_Name (pv_Meta pv)) (referenceValue @ ''-'')) pvs))
   }"

fun wait_for_pvs :: "'w env \<Rightarrow> string \<Rightarrow> int \<Rightarrow> nat \<Rightarrow> ('w, error + unit) prog" where
  "wait_for_pvs env referenceValue deadline 0 = ret (Inl Diverges)"
| "wait_for_pvs env referenceValue deadline (Suc fuel) = do {
     now \<leftarrow> time_Now env;
     if \<not> now < deadline then ret (Inr ())
     else do {
       stillExists \<leftarrow> pvs_still_exist env referenceValue;
       if \<not> stillExists then ret (Inr ())
       else do {
         _ \<leftarrow> time_Sleep env (5 * second);
         wait_for_pvs env referenceValue deadline fuel
       }
     }
   }"

definition CleanupAllPVsWithWait :: "'w env \<Rightarrow> VolumeObject \<Rightarrow> string \<Rightarrow> ('w, error + unit) prog" where
  "CleanupAllPVsWithWait env v referenceValue = do {
     _ \<leftarrow> CleanupAllPVs env v referenceValue;
     now \<leftarrow> time_Now env;
     wait_for_pvs env referenceValue (now + 2 * minute) (e_fuel env)
   }"

definition CleanupServiceInNamespace :: "'w env \<Rightarrow> string \<Rightarrow> string \<Rightarrow> ('w, unit) prog" where
  "CleanupServiceInNamespace env referenceValue operationalNamespace = do {
     r \<leftarrow> GetService env operationalNamespace referenceValue;
     case r of
       Inl err \<Rightarrow> ret ()
     | Inr svc \<Rightarrow> do { _ \<leftarrow> Delete env (OService svc); ret () }
   }"

definition CleanupNFSServerInNamespace :: "'w env \<Rightarrow> VolumeObject \<Rightarrow> string \<Rightarrow> ('w, unit) prog" where
  "CleanupNFSServerInNamespace env v operationalNamespace =
     (case NfsServer (GetVolumeSpec v) of
        None \<Rightarrow> ret ()
      | Some nfs \<Rightarrow>
          if IsExternalNfsServer (Some nfs) then ret ()
          else if nfs_Name nfs \<noteq> [] then do {
            r \<leftarrow> GetNfsServer env operationalNamespace (nfs_Name nfs);
            case r of
              Inl err \<Rightarrow> ret ()
            | Inr nfsServer \<Rightarrow> do { _ \<leftarrow> Delete env (ONfsServer nfsServer); ret () }
          }
          else ret ())"

section \<open>The whole cleanup\<close>

definition StopSync :: "VolumeControllerBase \<Rightarrow> VolumeObject \<Rightarrow> ('w, unit) prog" where
  "StopSync b v =
     (if has_SyncController b
      then (case vo_type v of
              SharedVolume \<Rightarrow> StopSyncForSharedVolume v
            | ClusterSharedVolume \<Rightarrow> StopSyncForClusterSharedVolume v)
      else ret ())"

definition CleanupResourcesInNamespace ::
  "'w env \<Rightarrow> VolumeControllerBase \<Rightarrow> VolumeObject \<Rightarrow> string \<Rightarrow> ('w, error + unit) prog" where
  "CleanupResourcesInNamespace env b v operationalNamespace = do {
     _ \<leftarrow> StopSync b v;
     let referenceValue = ReferenceValue (GetVolumeSpec v);
     if referenceValue = [] then ret (Inr ())
     else do {
       _ \<leftarrow> CleanupAllPodsUsingVolumeInNamespace env v operationalNamespace;
       _ \<leftarrow> CleanupReplicaSetInNamespace env referenceValue operationalNamespace;
       _ \<leftarrow> ForceCleanupAllResourcesInNamespace env referenceValue operationalNamespace;
       _ \<leftarrow> CleanupAllPVCsInNamespace env referenceValue operationalNamespace;
       bindE (CleanupAllPVsWithWait env v referenceValue) (\<lambda>_. do {
       _ \<leftarrow> CleanupServiceInNamespace env referenceValue operationalNamespace;
       _ \<leftarrow> CleanupNFSServerInNamespace env v operationalNamespace;
       ret (Inr ()) })
     }
   }"

definition operational_namespace :: "VolumeObject \<Rightarrow> string" where
  "operational_namespace v =
     (case vo_type v of ClusterSharedVolume \<Rightarrow> ''shared-volume-controller'' | SharedVolume \<Rightarrow> GetNamespace v)"

definition CleanupResources :: "'w env \<Rightarrow> VolumeControllerBase \<Rightarrow> VolumeObject \<Rightarrow> ('w, error + unit) prog" where
  "CleanupResources env b v = CleanupResourcesInNamespace env b v (operational_namespace v)"

section \<open>What each pass writes\<close>

text \<open>\<open>writes_kind k\<close>: every write is to an object of kind \<open>k\<close>.\<close>

abbreviation writes_kind :: "kind \<Rightarrow> event \<Rightarrow> bool" where
  "writes_kind k \<equiv> writes_in (\<lambda>key. fst key = k)"

lemma strips_writes: "strips k e \<Longrightarrow> writes_kind k e"
  by (cases "(k, e)" rule: strips.cases) (auto simp: key_of_def)

lemma results_Update: "Inr x \<in> results (Update env obj) \<Longrightarrow> kind_of x = kind_of obj"
  unfolding Update_def by (auto dest!: results_bindD simp: results_api_call) (metis as_object_Inr the_kind_Some)

lemma strip_loops_write:
  "emits (writes_kind KPersistentVolumeClaim) (RemovePVCFinalizersWithRetry env pvc)"
  "emits (writes_kind KPersistentVolume) (RemovePVFinalizersWithRetry env pv)"
  "emits (writes_kind KPersistentVolume) (forceRemovePVFinalizersWithPatch env n)"
  unfolding RemovePVCFinalizersWithRetry_def RemovePVFinalizersWithRetry_def
    forceRemovePVFinalizersWithPatch_def force_remove_finalizers_with_patch_def
  by (rule emits_weaken [OF strip_pvc_loop_emits], erule strips_writes,
      rule emits_weaken [OF strip_loop_emits], erule strips_writes, intro keeps_intro) simp

lemma ForceDeletePVC_writes: "emits (writes_kind KPersistentVolumeClaim) (ForceDeletePVC env pvc)"
  unfolding ForceDeletePVC_def by (intro keeps_intro strip_loops_write) simp_all

lemma ForceDeletePV_writes: "emits (writes_kind KPersistentVolume) (ForceDeletePV env pv)"
  unfolding ForceDeletePV_def by (intro keeps_intro strip_loops_write) simp_all

lemma ForceDeletePod_writes: "emits (writes_kind KPod) (ForceDeletePod env pod)"
  unfolding ForceDeletePod_def
  by (intro keeps_intro) (auto dest: results_Update simp: key_of_def split: if_splits)

lemma pod_passes_write:
  "emits (writes_in (\<lambda>key. fst key = KPod \<or> fst key = KReplicaSet)) (CleanupAllPodsUsingVolumeInNamespace env v ns)"
  "emits (writes_in (\<lambda>key. fst key = KPod \<or> fst key = KReplicaSet)) (CleanupReplicaSetInNamespace env ref ns)"
  "emits (writes_in (\<lambda>key. fst key = KPod \<or> fst key = KReplicaSet)) (ForceCleanupAllResourcesInNamespace env ref ns)"
proof -
  let ?P = "writes_in (\<lambda>key. fst key = KPod \<or> fst key = KReplicaSet)"
  have pod: "emits ?P (ForceDeletePod env pod)" for pod
    by (rule emits_weaken [OF ForceDeletePod_writes]) (auto elim: writes_in_mono)
  show "emits ?P (CleanupAllPodsUsingVolumeInNamespace env v ns)"
    unfolding CleanupAllPodsUsingVolumeInNamespace_def by (intro keeps_intro pod) simp
  show "emits ?P (CleanupReplicaSetInNamespace env ref ns)"
    unfolding CleanupReplicaSetInNamespace_def force_delete_pods_def by (intro keeps_intro pod) simp_all
  show "emits ?P (ForceCleanupAllResourcesInNamespace env ref ns)"
    unfolding ForceCleanupAllResourcesInNamespace_def
    by (intro keeps_intro) (auto dest: results_Update simp: key_of_def split: sum.split)
qed

lemma pvc_pass_writes: "emits (writes_kind KPersistentVolumeClaim) (CleanupAllPVCsInNamespace env ref ns)"
  unfolding CleanupAllPVCsInNamespace_def by (intro keeps_intro ForceDeletePVC_writes) simp_all

lemma pv_pass_writes: "emits (writes_kind KPersistentVolume) (CleanupAllPVs env v ref)"
  unfolding CleanupAllPVs_def by (intro keeps_intro ForceDeletePV_writes) simp_all

text \<open>The wait is a polling loop; a look goes on while there are volumes.\<close>

definition pv_look :: "'w env \<Rightarrow> string \<Rightarrow> unit \<Rightarrow> ('w, unit option) prog" where
  "pv_look env ref s = do { stillExists \<leftarrow> pvs_still_exist env ref; ret (if stillExists then Some () else None) }"

lemma pvs_still_exist_clock: "clock_ok env \<Longrightarrow> keeps (not_back env) (pvs_still_exist env ref)"
  unfolding pvs_still_exist_def by (intro clock.keeps_bind clock.keeps_ret clock_calls)

interpretation pv_wait: polling env deadline "5 * second" "pv_look env ref" "\<lambda>n s. wait_for_pvs env ref deadline n"
  for env :: "'w env" and deadline ref
proof
  show "wait_for_pvs env ref deadline (Suc n) = do {
      now \<leftarrow> time_Now env;
      if \<not> now < deadline then ret (Inr ())
      else do {
        r \<leftarrow> pv_look env ref s;
        case r of
          None \<Rightarrow> ret (Inr ())
        | Some s' \<Rightarrow> do { _ \<leftarrow> time_Sleep env (5 * second); wait_for_pvs env ref deadline n }
      }
    }" for n s
    by (auto simp: pv_look_def intro!: state.expand cong: if_cong) (auto simp: fun_eq_iff split: prod.split)
qed (auto simp: pv_look_def second_def millisecond_def intro!: clock.keeps_bind clock.keeps_ret pvs_still_exist_clock)

lemma keeps_wait:
  assumes "step_preorder R" and "keeps R (pvs_still_exist env ref)" and "keeps R (time_Sleep env (5 * second))"
  shows "keeps R (wait_for_pvs env ref deadline n)"
  by (rule pv_wait.keeps_loop [OF assms(1) _ assms(3)])
     (simp add: pv_look_def step_preorder.keeps_bind [OF assms(1)] step_preorder.keeps_ret [OF assms(1)] assms(2))

lemma wait_reads: "emits reads_only (wait_for_pvs env ref deadline n)"
  by (rule keeps_wait [OF grows.step_preorder_axioms]) (auto simp: pvs_still_exist_def intro!: keeps_intro)

lemma reads_only_writes_in: "reads_only e \<Longrightarrow> writes_in K e"
  by (cases e) (auto split: option.split elim: write_key.elims)

lemma pv_wait_writes: "emits (writes_kind KPersistentVolume) (CleanupAllPVsWithWait env v ref)"
  unfolding CleanupAllPVsWithWait_def
  by (intro keeps_intro pv_pass_writes emits_weaken [OF wait_reads]) (erule reads_only_writes_in)

lemma service_pass_writes: "emits (writes_kind KService) (CleanupServiceInNamespace env ref ns)"
  unfolding CleanupServiceInNamespace_def by (intro keeps_intro) simp_all

lemma nfs_pass_writes: "emits (writes_kind KNfsServer) (CleanupNFSServerInNamespace env v ns)"
  unfolding CleanupNFSServerInNamespace_def by (intro keeps_intro) simp_all

lemma stop_emits: "emits P (stopSyncTimer key)"
  by (simp add: keeps_def grows_def run_stopSyncTimer)

lemma StopSync_emits: "emits P (StopSync b v)"
  unfolding StopSync_def StopSyncForSharedVolume_def StopSyncForClusterSharedVolume_def
  by (cases "vo_type v") (auto intro!: keeps_intro stop_emits)

section \<open>The order of deletion\<close>

fun deletion_rank :: "key \<Rightarrow> nat" where
  "deletion_rank (KPod, _) = 0"
| "deletion_rank (KReplicaSet, _) = 0"
| "deletion_rank (KPersistentVolumeClaim, _) = 1"
| "deletion_rank (KPersistentVolume, _) = 2"
| "deletion_rank (KService, _) = 3"
| "deletion_rank (KNfsServer, _) = 4"
| "deletion_rank (KNamespace, _) = 0"
| "deletion_rank _ = 5"

lemma ranked_kind:
  assumes "emits (writes_in K) m" and "\<And>key. K key \<Longrightarrow> deletion_rank key = a"
  shows "ranked deletion_rank a a m"
  by (rule ranked_level [OF emits_weaken [OF assms(1)]]) (auto elim: writes_in_mono dest: assms(2))

lemma rank_simps:
  "fst key = KPod \<or> fst key = KReplicaSet \<Longrightarrow> deletion_rank key = 0"
  "fst key = KPersistentVolumeClaim \<Longrightarrow> deletion_rank key = 1"
  "fst key = KPersistentVolume \<Longrightarrow> deletion_rank key = 2"
  "fst key = KService \<Longrightarrow> deletion_rank key = 3" "fst key = KNfsServer \<Longrightarrow> deletion_rank key = 4"
  by (cases key; auto)+

lemma cleanup_ranked: "ranked deletion_rank 0 4 (CleanupResourcesInNamespace env b v ns)"
proof -
  let ?ref = "ReferenceValue (GetVolumeSpec v)"
  have nfs: "ranked deletion_rank 4 4 (do { _ \<leftarrow> CleanupNFSServerInNamespace env v ns; ret (Inr ()) })"
    by (rule ranked_bind [OF ranked_kind [OF nfs_pass_writes rank_simps(5)]]) (simp_all add: ranked_ret)
  have svc: "ranked deletion_rank 3 4 (do { _ \<leftarrow> CleanupServiceInNamespace env ?ref ns;
      _ \<leftarrow> CleanupNFSServerInNamespace env v ns; ret (Inr ()) })"
    by (rule ranked_bind [OF ranked_kind [OF service_pass_writes rank_simps(4)] ranked_weaken [OF nfs]]) simp_all
  have pvs: "ranked deletion_rank 2 4 (bindE (CleanupAllPVsWithWait env v ?ref) (\<lambda>_. do {
      _ \<leftarrow> CleanupServiceInNamespace env ?ref ns; _ \<leftarrow> CleanupNFSServerInNamespace env v ns; ret (Inr ()) }))"
    by (rule ranked_bindE [OF ranked_kind [OF pv_wait_writes rank_simps(3)] ranked_weaken [OF svc]]) simp_all
  have pvcs: "ranked deletion_rank 1 4 (do { _ \<leftarrow> CleanupAllPVCsInNamespace env ?ref ns;
      bindE (CleanupAllPVsWithWait env v ?ref) (\<lambda>_. do {
        _ \<leftarrow> CleanupServiceInNamespace env ?ref ns; _ \<leftarrow> CleanupNFSServerInNamespace env v ns; ret (Inr ()) }) })"
    by (rule ranked_bind [OF ranked_kind [OF pvc_pass_writes rank_simps(2)] ranked_weaken [OF pvs]]) simp_all
  note pods = pod_passes_write [THEN ranked_kind [OF _ rank_simps(1)]]
  show ?thesis
    unfolding CleanupResourcesInNamespace_def Let_def
    by (rule ranked_bind [OF ranked_kind [OF StopSync_emits [of "writes_in (\<lambda>_. False)"]]])
       (auto intro!: ranked_ret ranked_bind [OF pods(1)] ranked_bind [OF pods(2)] ranked_bind [OF pods(3)]
         ranked_weaken [OF pvcs])
qed

text \<open>
  C3. The cleanup of a volume deletes in this order and never goes back: pods and ReplicaSet,
  claims, persistent volumes, the service, the NFS server. The storage a persistent volume
  needs to be unmounted is therefore still there when the volume is deleted. This holds
  whatever the server answers.
\<close>

theorem cleanup_order: "sorted (write_ranks deletion_rank (emitted (CleanupResources env b v) w))"
  unfolding CleanupResources_def by (rule ranked_emitted [OF cleanup_ranked])

section \<open>Which NFS server is deleted\<close>

lemma nfs_pass_target:
  assumes "honest env"
  shows "emits (writes_in (\<lambda>key. \<exists>nfs. NfsServer (vo_Spec v) = Some nfs \<and> \<not> IsExternalNfsServer (Some nfs)
    \<and> key = (KNfsServer, ns, nfs_Name nfs))) (CleanupNFSServerInNamespace env v ns)"
  unfolding CleanupNFSServerInNamespace_def GetVolumeSpec_def
  by (intro keeps_intro) (auto dest: honest_decoded(6) [OF assms] simp: key_of_def)

definition nfs_target :: "VolumeObject \<Rightarrow> string \<Rightarrow> key \<Rightarrow> bool" where
  "nfs_target v ns key \<longleftrightarrow> (fst key = KNfsServer \<longrightarrow>
     (\<exists>nfs. NfsServer (vo_Spec v) = Some nfs \<and> \<not> IsExternalNfsServer (Some nfs) \<and> key = (KNfsServer, ns, nfs_Name nfs)))"

lemma nfs_target_other: "emits (writes_in K) m \<Longrightarrow> (\<And>key. K key \<Longrightarrow> fst key \<noteq> KNfsServer)
    \<Longrightarrow> emits (writes_in (nfs_target v ns)) m"
  by (erule emits_weaken) (auto elim!: writes_in_mono simp: nfs_target_def)

text \<open>
  With a server that answers for the object asked for, the only NFS server a cleanup can touch is
  the managed one of the volume, in the namespace its resources live in; an external server is
  never touched.
\<close>

theorem cleanup_nfs_target:
  assumes "honest env"
  shows "emits (writes_in (nfs_target v (operational_namespace v))) (CleanupResources env b v)"
proof -
  let ?ns = "operational_namespace v" and ?ref = "ReferenceValue (GetVolumeSpec v)"
  have nfs: "emits (writes_in (nfs_target v ?ns)) (CleanupNFSServerInNamespace env v ?ns)"
    by (rule emits_weaken [OF nfs_pass_target [OF assms]]) (auto elim!: writes_in_mono simp: nfs_target_def)
  note others = nfs_target_other [OF pod_passes_write(1)] nfs_target_other [OF pod_passes_write(2)]
    nfs_target_other [OF pod_passes_write(3)] nfs_target_other [OF pvc_pass_writes]
    nfs_target_other [OF pv_wait_writes] nfs_target_other [OF service_pass_writes]
  show ?thesis
    unfolding CleanupResources_def CleanupResourcesInNamespace_def
    by (intro keeps_intro StopSync_emits nfs others) auto
qed

theorem cleanup_nfs_target_witness:
  "\<forall>b. emits (writes_in (nfs_target sample_volume ''team'')) (CleanupResources store_env b sample_volume)"
proof -
  have "operational_namespace sample_volume = ''team''"
    by (simp add: operational_namespace_def sample_volume_simps)
  then show ?thesis
    using cleanup_nfs_target [OF honest_store_env, of sample_volume] by simp
qed

section \<open>The wait for the persistent volumes\<close>

text \<open>An event that shows a look at the persistent volumes found none.\<close>

definition no_pvs_seen :: "string \<Rightarrow> event list \<Rightarrow> bool" where
  "no_pvs_seen ref es \<longleftrightarrow> (\<exists>h rp rl. es = h @ [EApi (GetReq KPersistentVolume [] (''pv-'' @ ref)) rp,
       EApi (ListReq KPersistentVolume AllNamespaces) rl]
     \<and> (\<exists>e. as_object the_pv rp = Inl e)
     \<and> (\<forall>pvs. as_list the_pv rl = Inr pvs
          \<longrightarrow> (\<forall>pv \<in> set pvs. \<not> strings_HasPrefix (om_Name (pv_Meta pv)) (ref @ ''-''))))"

lemma pvs_gone:
  assumes "run_state (pvs_still_exist env ref) w = (False, w')"
  shows "no_pvs_seen ref (w_hist w')"
  using assms unfolding no_pvs_seen_def
  by (auto simp: pvs_still_exist_def Get_as_def List_as_def run_api_call list_ex_iff split: sum.splits)

lemma wait_result:
  assumes "run_state (wait_for_pvs env ref deadline n) w = (Inr (), w')"
  shows "no_pvs_seen ref (w_hist w') \<or> deadline \<le> e_now env (w_srv w')"
proof -
  have "run_state (pvs_still_exist env ref) w0 = (False, w')" if "run_state (pv_look env ref s0) w0 = (None, w')" for s0 w0
    using that by (cases "run_state (pvs_still_exist env ref) w0") (auto simp: pv_look_def split: if_splits)
  with pv_wait.returns_because [OF assms] pvs_gone show ?thesis by blast
qed


text \<open>A store with a clock: the state is the time and the objects.\<close>

definition clock_env :: "(int \<times> store) env" where
  "clock_env = \<lparr>e_api = (\<lambda>rq (t, st). let (rp, st') = store_api rq st in (rp, (t, st'))),
     e_post = (\<lambda>u r s. (Inr (200, []), s)), e_now = fst, e_sleep = (\<lambda>d (t, st). (t + d, st)),
     e_rand = (\<lambda>n s. (0, s)), e_ParseQuantity = (\<lambda>s. Inr (Quantity s)), e_getenv = (\<lambda>s. []),
     e_has_APIVersion_accessors = False, e_has_Kind_accessors = False,
     e_GroupVersion = (\<lambda>s. s), e_fuel = 100\<rparr>"


section \<open>The claims a cleanup deletes\<close>

definition delete_called :: "kind \<Rightarrow> ObjectMeta \<Rightarrow> event list \<Rightarrow> bool" where
  "delete_called k m h \<longleftrightarrow> (\<exists>rp. EApi (DeleteReq k (om_Namespace m) (om_Name m) None) rp \<in> set h)"

lemma emits_anything: "emits (\<lambda>_. True) m \<Longrightarrow> run_state m w = (x, w') \<Longrightarrow> set (w_hist w) \<subseteq> set (w_hist w')"
  by (drule keepsD) (auto simp: grows_def)

lemma for_each_reaches:
  assumes "\<And>x w w'. x \<in> set xs \<Longrightarrow> Q x \<Longrightarrow> run_state (body x) w = ((), w') \<Longrightarrow> C x (w_hist w')"
    and "\<And>x h h'. C x h \<Longrightarrow> set h \<subseteq> set h' \<Longrightarrow> C x h'"
    and "\<And>x. x \<in> set xs \<Longrightarrow> emits (\<lambda>_. True) (body x)"
    and "run_state (for_each xs body) w = ((), w')" and "x \<in> set xs" and "Q x"
  shows "C x (w_hist w')"
  using assms(1,3,4,5)
proof (induction xs arbitrary: w)
  case (Cons y ys)
  obtain w1 where y: "run_state (body y) w = ((), w1)"
    by (cases "run_state (body y) w") simp
  with Cons.prems(3) have rest: "run_state (for_each ys body) w1 = ((), w')" by simp
  show ?case
  proof (cases "x = y")
    case True
    have "emits (\<lambda>_. True) (for_each ys body)"
      using Cons.prems(2) by (intro keeps_intro) simp
    from emits_anything [OF this rest] Cons.prems(1) [OF _ _ y] True assms(6) show ?thesis
      using assms(2) by auto
  next
    case False
    show ?thesis
      by (rule Cons.IH [OF _ _ rest]) (use Cons.prems False in auto)
  qed
qed simp

lemma ForceDeletePVC_any: "emits (\<lambda>_. True) (ForceDeletePVC env pvc)"
  by (rule emits_weaken [OF ForceDeletePVC_writes]) simp

lemma ForceDeletePVC_deletes:
  assumes "run_state (ForceDeletePVC env pvc) w = (r, w')"
  shows "delete_called KPersistentVolumeClaim (pvc_Meta pvc) (w_hist w')"
proof -
  let ?strip = "if om_Finalizers (pvc_Meta pvc) \<noteq> [] then RemovePVCFinalizersWithRetry env pvc else ret (Inr ())"
  let ?rest = "\<lambda>_::unit. do {
     r \<leftarrow> GetPVC env (om_Namespace (pvc_Meta pvc)) (om_Name (pvc_Meta pvc));
     case r of
       Inl err \<Rightarrow> if IsNotFound err then ret (Inr ()) else ret (Inl err)
     | Inr updatedPVC \<Rightarrow>
         if om_DeletionTimestamp (pvc_Meta updatedPVC) \<noteq> None \<and> om_Finalizers (pvc_Meta updatedPVC) \<noteq> []
         then RemovePVCFinalizersWithRetry env updatedPVC else ret (Inr ()) }"
  obtain x w1 where "run_state ?strip w = (x, w1)" by fastforce
  moreover obtain d w2 where d: "run_state (Delete env (OPersistentVolumeClaim pvc)) w1 = (d, w2)" by fastforce
  ultimately have "(d = r \<and> w' = w2) \<or> (\<exists>u. run_state (?rest u) w2 = (r, w'))"
    using assms by (cases d) (auto simp: ForceDeletePVC_def simp del: not_None_eq split del: if_split cong: if_cong)
  moreover have "emits (\<lambda>_. True) (?rest u)" for u
    by (intro keeps_intro) (auto intro: emits_weaken [OF strip_loops_write(1)])
  moreover have "delete_called KPersistentVolumeClaim (pvc_Meta pvc) (w_hist w2)"
    using d by (auto simp: Delete_def run_api_call delete_called_def)
  ultimately show ?thesis
    using emits_anything by (fastforce simp: delete_called_def)
qed

text \<open>
  The claim pass asks for the deletion of every claim of the cluster, in any namespace, whose
  name begins with the reference value and a dash. That covers the claims made for pods in
  other namespaces, and also the claims of another volume whose reference value happens to
  begin that way.
\<close>

theorem claims_with_prefix_deleted:
  assumes "\<And>s. fst (e_api env (ListReq KPersistentVolumeClaim AllNamespaces) s) = RObjects (map OPersistentVolumeClaim pvcs)"
    and "pvc \<in> set pvcs" and "om_Name (pvc_Meta pvc) = ref @ ''-'' @ suffix"
    and "run_state (CleanupAllPVCsInNamespace env ref ns) w = ((), w')"
  shows "delete_called KPersistentVolumeClaim (pvc_Meta pvc) (w_hist w')"
proof -
  let ?body = "\<lambda>pvcItem. if strings_HasPrefix (om_Name (pvc_Meta pvcItem)) (ref @ ''-'')
    then do { _ \<leftarrow> ForceDeletePVC env pvcItem; ret () } else ret ()"
  have "as_list the_pvc (RObjects (map OPersistentVolumeClaim xs)) = Inr xs" for xs
    by (induction xs) (auto simp: as_list_def split: option.splits)
  then obtain w1 where loop: "run_state (for_each pvcs ?body) w1 = ((), w')"
    using assms(4) by (auto simp: CleanupAllPVCsInNamespace_def List_as_def run_api_call assms(1) split: prod.splits)
  show ?thesis
  proof (rule for_each_reaches [OF _ _ _ loop assms(2), where Q = "\<lambda>p. strings_HasPrefix (om_Name (pvc_Meta p)) (ref @ ''-'')"
        and C = "\<lambda>p. delete_called KPersistentVolumeClaim (pvc_Meta p)"])
    show "delete_called KPersistentVolumeClaim (pvc_Meta p) (w_hist v')"
      if "strings_HasPrefix (om_Name (pvc_Meta p)) (ref @ ''-'')" "run_state (?body p) v = ((), v')" for p v v'
      using that ForceDeletePVC_deletes [of env p v] by (auto split: prod.splits)
    show "emits (\<lambda>_. True) (?body p)" for p
      by (intro keeps_intro ForceDeletePVC_any)
    show "strings_HasPrefix (om_Name (pvc_Meta pvc)) (ref @ ''-'')"
      using strings_HasPrefix_append [of "ref @ ''-''" suffix] by (simp add: assms(3))
  qed (auto simp: delete_called_def)
qed

text \<open>The claim \<open>data-2\<close> belongs to a volume with that reference value in another namespace.\<close>

definition other_claim :: PersistentVolumeClaim where
  "other_claim = \<lparr>pvc_Meta = empty_meta\<lparr>om_Name := ''data-2'', om_Namespace := ''other'',
     om_Labels := [(''shared-volume.io/reference'', ''data-2'')]\<rparr>, pvc_AccessModes = [],
     pvc_Request = Quantity ''1Gi'', pvc_VolumeName = ''pv-data-2'', pvc_StorageClassName = None, pvc_Phase = ''Bound''\<rparr>"

definition claims_env :: "store env" where
  "claims_env = store_env\<lparr>e_api := (\<lambda>rq st. case rq of
     ListReq k sel \<Rightarrow> (RObjects [OPersistentVolumeClaim other_claim], st) | _ \<Rightarrow> store_api rq st)\<rparr>"

theorem claims_with_prefix_deleted_witness:
  "delete_called KPersistentVolumeClaim (pvc_Meta other_claim)
     (w_hist (snd (run_state (CleanupAllPVCsInNamespace claims_env ''data'' ''team'') (world_of []))))"
proof (rule claims_with_prefix_deleted [where pvcs = "[other_claim]" and suffix = "''2''"])
  show "run_state (CleanupAllPVCsInNamespace claims_env ''data'' ''team'') (world_of []) =
      ((), snd (run_state (CleanupAllPVCsInNamespace claims_env ''data'' ''team'') (world_of [])))"
    by (simp add: prod_eq_iff)
qed (simp_all add: claims_env_def other_claim_def empty_meta_def)

section \<open>Pods are looked up by a format that is no longer written\<close>

text \<open>
  Pods that name their volumes in the annotations \<open>sharedvolume.sv\<close> and \<open>sharedvolume.csv\<close>, the
  format of the pod webhook, are never found by the first pass of the cleanup: it looks for one
  annotation \<open>sharedvolume.sv/<name>\<close> per volume and only reads.
\<close>

theorem current_annotations_ignored:
  assumes "\<And>s objs p kv. fst (e_api env (ListReq KPod AllNamespaces) s) = RObjects objs \<Longrightarrow> OPod p \<in> set objs
    \<Longrightarrow> kv \<in> set (om_Annotations (pod_Meta p)) \<Longrightarrow> fst kv \<in> {''sharedvolume.sv'', ''sharedvolume.csv''}"
  shows "emits reads_only (CleanupAllPodsUsingVolumeInNamespace env v ns)"
proof -
  have "\<not> strings_HasPrefix key annotation_prefix"
    if "Inr pods \<in> results (ListPods env AllNamespaces)" "p \<in> set pods" "(key, val) \<in> set (om_Annotations (pod_Meta p))"
    for pods p key val
    using assms results_List_as [OF that(1,2)] that(3)
    by (fastforce simp: decoded strings_HasPrefix_def annotation_prefix_def)
  then show ?thesis
    unfolding CleanupAllPodsUsingVolumeInNamespace_def
    by (intro keeps_intro) auto
qed

definition current_pod :: Pod where
  "current_pod = \<lparr>pod_Meta = empty_meta\<lparr>om_Name := ''app'', om_Namespace := ''team'',
     om_Annotations := [(''sharedvolume.sv'', ''vol'')]\<rparr>,
     pod_Spec = \<lparr>ps_InitContainers = [], ps_Containers = [], ps_Volumes = []\<rparr>\<rparr>"

definition pods_env :: "store env" where
  "pods_env = store_env\<lparr>e_api := (\<lambda>rq st. (RObjects [OPod current_pod], st))\<rparr>"

theorem current_annotations_ignored_witness:
  "emits reads_only (CleanupAllPodsUsingVolumeInNamespace pods_env sample_volume ''team'')"
  by (rule current_annotations_ignored) (auto simp: pods_env_def current_pod_def empty_meta_def)

section \<open>The sync stops with the cleanup\<close>

lemma same_timers_strip:
  "keeps same_timers (RemovePVCFinalizersWithRetry env pvc)" "keeps same_timers (RemovePVFinalizersWithRetry env pv)"
  "keeps same_timers (force_remove_finalizers_with_patch env k n1 n)"
proof -
  show patch: "keeps same_timers (force_remove_finalizers_with_patch env k n1 n)" for k n1 n
    unfolding force_remove_finalizers_with_patch_def by (intro keeps_intro)
  have "keeps same_timers (strip_once env k ns n rc)" for k ns n rc
    unfolding strip_once_def by (intro keeps_intro patch)
  then show "keeps same_timers (RemovePVFinalizersWithRetry env pv)"
    unfolding RemovePVFinalizersWithRetry_def by (intro strip.keeps_loop same_timers.step_preorder_axioms)
  have "keeps same_timers (strip_pvc_once env pvc rc)" for rc
    unfolding strip_pvc_once_def by (intro keeps_intro)
  then show "keeps same_timers (RemovePVCFinalizersWithRetry env pvc)"
    unfolding RemovePVCFinalizersWithRetry_def by (intro strip_pvc.keeps_loop same_timers.step_preorder_axioms)
qed

lemma same_timers_force:
  "keeps same_timers (ForceDeletePVC env pvc)" "keeps same_timers (ForceDeletePV env pv)"
  "keeps same_timers (ForceDeletePod env pod)"
  unfolding ForceDeletePVC_def ForceDeletePV_def ForceDeletePod_def forceRemovePVFinalizersWithPatch_def
  by (intro keeps_intro same_timers_strip)+

lemma same_timers_wait: "keeps same_timers (wait_for_pvs env ref deadline n)"
  by (rule keeps_wait [OF same_timers.step_preorder_axioms]) (auto simp: pvs_still_exist_def intro!: keeps_intro)

lemma same_timers_passes:
  "keeps same_timers (CleanupAllPodsUsingVolumeInNamespace env v ns)"
  "keeps same_timers (CleanupReplicaSetInNamespace env ref ns)"
  "keeps same_timers (ForceCleanupAllResourcesInNamespace env ref ns)"
  "keeps same_timers (CleanupAllPVCsInNamespace env ref ns)"
  "keeps same_timers (CleanupAllPVsWithWait env v ref)"
  "keeps same_timers (CleanupServiceInNamespace env ref ns)"
  "keeps same_timers (CleanupNFSServerInNamespace env v ns)"
  unfolding CleanupAllPodsUsingVolumeInNamespace_def CleanupReplicaSetInNamespace_def force_delete_pods_def
    ForceCleanupAllResourcesInNamespace_def CleanupAllPVCsInNamespace_def CleanupAllPVsWithWait_def
    CleanupAllPVs_def CleanupServiceInNamespace_def CleanupNFSServerInNamespace_def
  by (intro keeps_intro same_timers_force same_timers_wait)+

lemma StopSync_settles:
  "has_SyncController b \<Longrightarrow> settles_timer {} (sync_key v) (\<lambda>ts. ts = []) (StopSync b v)"
  by (cases "vo_type v")
     (simp_all add: StopSync_def StopSyncForSharedVolume_def StopSyncForClusterSharedVolume_def settles_stop)

lemma CleanupResources_settles:
  "has_SyncController b \<Longrightarrow> settles_timer {} (sync_key v) (\<lambda>ts. ts = []) (CleanupResources env b v)"
  unfolding CleanupResources_def CleanupResourcesInNamespace_def
  by (rule settles_then_same [OF StopSync_settles], assumption) (intro keeps_intro same_timers_passes)

text \<open>The namespace in the key of a volume's timer.\<close>

definition key_namespace :: "VolumeObject \<Rightarrow> string" where
  "key_namespace v = (case vo_type v of SharedVolume \<Rightarrow> GetNamespace v | ClusterSharedVolume \<Rightarrow> ResourceNamespace (vo_Spec v))"

lemma sync_key_eq: "sync_key v = volume_key (key_namespace v) (GetName v)"
  by (simp add: key_namespace_def split: volume_type.split)

text \<open>
  C35. A cleanup stops the timers under the volume's key, whatever happens to its other passes, and no
  timer under another key. Keys are made of a namespace and a name: every volume, of either kind,
  whose namespace and name are those of the volume's key loses its timer, and no other does. The
  key is the one of the volume as it is stored: a timer started for the filled-in specification is
  stopped with it unless the volume is a cluster volume stored without a resource namespace; then
  the timer of its sync stays.
\<close>

theorem cleanup_stops_sync:
  assumes "timers_ok w" and "has_SyncController b" and "run_state (CleanupResources env b v) w = (r, w')"
    and "CHR ''/'' \<notin> set (key_namespace v)" and "full = fst (FillAndValidateSpec v g (operational_namespace v))"
  shows "timers_ok w' \<and> timers_for (sync_key v) w' = []
    \<and> (\<forall>key. key \<noteq> sync_key v \<longrightarrow> timers_for key w' = timers_for key w)
    \<and> (\<forall>u. CHR ''/'' \<notin> set (key_namespace u) \<longrightarrow> timers_for (sync_key u) w' =
         (if key_namespace u = key_namespace v \<and> GetName u = GetName v then [] else timers_for (sync_key u) w))
    \<and> timers_for (sync_key full) w' =
         (if vo_type v = ClusterSharedVolume \<and> ResourceNamespace (vo_Spec v) = [] then timers_for (sync_key full) w else [])"
proof -
  note stop = settles_timerD [OF CleanupResources_settles [OF assms(2)] assms(1,3)]
  have other: "timers_for (sync_key u) w' =
      (if key_namespace u = key_namespace v \<and> GetName u = GetName v then [] else timers_for (sync_key u) w)"
    if "CHR ''/'' \<notin> set (key_namespace u)" for u
    using stop volume_key_inj [OF _ that assms(4)] unfolding sync_key_eq by auto
  have full: "vo_type full = vo_type v" "GetName full = GetName v" "GetNamespace full = GetNamespace v"
      "ResourceNamespace (vo_Spec full) = (if ResourceNamespace (vo_Spec v) = [] then operational_namespace v else ResourceNamespace (vo_Spec v))"
    by (simp_all add: assms(5) FillAndValidateSpec_keeps)
  have "timers_for (sync_key full) w' =
      (if vo_type v = ClusterSharedVolume \<and> ResourceNamespace (vo_Spec v) = [] then timers_for (sync_key full) w else [])"
    using other [of full] stop assms(4) full
    by (cases "vo_type v") (auto simp: key_namespace_def operational_namespace_def)
  with stop other show ?thesis by blast
qed

definition sample_base :: VolumeControllerBase where
  "sample_base = \<lparr>ControllerNamespace = ''shared-volume-controller'', has_SyncController = True\<rparr>"

theorem cleanup_stops_sync_witness:
  "timers_for (sync_key sample_volume) (snd (run_state (CleanupResources store_env sample_base sample_volume)
     (snd (run_state (StartSyncForSharedVolume ready_volume) (world_of []))))) = []"
proof -
  have "timers_ok (snd (run_state (StartSyncForSharedVolume ready_volume) (world_of ([] :: store))))"
    by (rule method_step_ok [OF method_step.start_sv [OF surjective_pairing] timers_ok_world_of])
  moreover have "has_SyncController sample_base" "CHR ''/'' \<notin> set (key_namespace sample_volume)"
    by (simp_all add: sample_base_def key_namespace_def sample_volume_simps)
  ultimately show ?thesis
    using cleanup_stops_sync [OF _ _ surjective_pairing _ HOL.refl] by blast
qed

end
