(* ===== verification/Reconcile.thy ===== *)
theory Reconcile
  imports Cleanup
begin

text \<open>
  The reconciliation of a volume (volume_controller_base.go), shared by the controllers of both
  kinds: readiness and status, the life cycle of the NFS server and of the resources, the
  finalizer, and the two entry points (sharedvolume_controller.go,
  clustersharedvolume_controller.go). A method that changes the volume it is given returns the
  changed volume; \<open>ctrl.Result\<close> is its \<open>RequeueAfter\<close>, which the runtime reads only without an
  error.
\<close>

section \<open>Readiness\<close>

type_synonym 'w volume_callback = "VolumeObject \<Rightarrow> ('w, error + unit) prog"

text \<open>
  A call whose error is logged and dropped; a run that does not return stays one.
\<close>

definition logged :: "('w, error + unit) prog \<Rightarrow> ('w, error + unit) prog" where
  "logged m = do {
     r \<leftarrow> m;
     case r of Inl err \<Rightarrow> if is_abort err then ret (Inl err) else ret (Inr ()) | Inr _ \<Rightarrow> ret (Inr ())
   }"

text \<open>The update function of \<open>UpdateReadinessStatus\<close> on any object, and the volume read back.\<close>

fun on_volume :: "(VolumeObject \<Rightarrow> VolumeObject) \<Rightarrow> kobj \<Rightarrow> kobj" where
  "on_volume f (OVolume v) = OVolume (f v)"
| "on_volume f obj = obj"

definition volume_or :: "VolumeObject \<Rightarrow> kobj \<Rightarrow> VolumeObject" where
  "volume_or v obj = (case obj of OVolume u \<Rightarrow> u | _ \<Rightarrow> v)"

definition copy_latest :: "VolumeObject \<Rightarrow> VolumeObject \<Rightarrow> VolumeObject" where
  "copy_latest latestObj v =
     SetMessage (GetMessage latestObj) (SetPhase (GetPhase latestObj)
       (v\<lparr>vo_Meta := (vo_Meta v)\<lparr>om_ResourceVersion := om_ResourceVersion (vo_Meta latestObj)\<rparr>\<rparr>))"

definition UpdateReadinessStatus ::
  "'w env \<Rightarrow> VolumeObject \<Rightarrow> bool \<Rightarrow> bool \<Rightarrow> 'w volume_callback option \<Rightarrow> 'w volume_callback option
     \<Rightarrow> ('w, error + VolumeObject) prog" where
  "UpdateReadinessStatus env v nfsReady replicaSetReady onReady onNotReady =
     (let phase = DeterminePhase nfsReady replicaSetReady;
          overallReady = (phase = ''Ready'')
      in bindE (UpdateStatusWithRetry env (OVolume v)
                  (on_volume (readiness_update (GetVolumeSpec v) nfsReady phase))) (\<lambda>obj.
         let v = volume_or v obj
         in bindE (GetVolume env (vo_type v) (GetNamespace v) (GetName v)) (\<lambda>latestObj.
         let v = copy_latest latestObj v
         in bindE (case (if overallReady then onReady else onNotReady) of
                     None \<Rightarrow> ret (Inr ())
                   | Some callback \<Rightarrow> logged (callback v)) (\<lambda>_.
         ret (Inr v)))))"

definition update_if_needed ::
  "'w env \<Rightarrow> VolumeObject \<Rightarrow> bool \<Rightarrow> bool \<Rightarrow> 'w volume_callback option \<Rightarrow> 'w volume_callback option
     \<Rightarrow> ('w, error + VolumeObject) prog" where
  "update_if_needed env v nfsReady replicaSetReady onReady onNotReady =
     (if ShouldUpdateReadinessStatus v nfsReady replicaSetReady
      then UpdateReadinessStatus env v nfsReady replicaSetReady onReady onNotReady
      else ret (Inr v))"

definition CheckResourceReadiness ::
  "'w env \<Rightarrow> VolumeObject \<Rightarrow> string \<Rightarrow> 'w volume_callback option \<Rightarrow> 'w volume_callback option
     \<Rightarrow> ('w, error + VolumeObject) prog" where
  "CheckResourceReadiness env v namespace onReady onNotReady =
     (if ReferenceValue (GetVolumeSpec v) = [] then ret (Inr v)
      else bindE (CheckNfsServerStatus env v namespace) (\<lambda>(nfsReady, _, _).
        if \<not> nfsReady then update_if_needed env v False False onReady onNotReady
        else bindE (IsPVCReady env v namespace) (\<lambda>pvcReady.
        if \<not> pvcReady then update_if_needed env v nfsReady False onReady onNotReady
        else bindE (IsReplicaSetReady env v namespace) (\<lambda>replicaSetReady.
        update_if_needed env v nfsReady replicaSetReady onReady onNotReady))))"

section \<open>The life cycle of the NFS server and the resources\<close>

text \<open>Starting the sync of a volume, by its type; and the callbacks of the controllers.\<close>

definition StartSync :: "VolumeControllerBase \<Rightarrow> VolumeObject \<Rightarrow> ('w, error + unit) prog" where
  "StartSync b v =
     (if has_SyncController b
      then (case vo_type v of
              SharedVolume \<Rightarrow> StartSyncForSharedVolume v
            | ClusterSharedVolume \<Rightarrow> StartSyncForClusterSharedVolume v)
      else ret (Inr ()))"

definition CreateSyncReadyCallback :: "VolumeControllerBase \<Rightarrow> 'w volume_callback" where
  "CreateSyncReadyCallback b = (\<lambda>v. StartSync b v)"

definition CreateSyncNotReadyCallback :: "VolumeControllerBase \<Rightarrow> 'w volume_callback" where
  "CreateSyncNotReadyCallback b = (\<lambda>v. do { _ \<leftarrow> StopSync b v; ret (Inr ()) })"

definition CreateNoOpReadyCallback :: "'w volume_callback" where
  "CreateNoOpReadyCallback = (\<lambda>v. ret (Inr ()))"

definition CreateNoOpNotReadyCallback :: "'w volume_callback" where
  "CreateNoOpNotReadyCallback = (\<lambda>v. ret (Inr ()))"

text \<open>The part of \<open>ReconcileNfsServerComplete\<close> that follows once the server is there.\<close>

definition reconcile_with_server ::
  "'w env \<Rightarrow> VolumeControllerBase \<Rightarrow> VolumeObject \<Rightarrow> string \<Rightarrow> string \<Rightarrow> 'w volume_callback option
     \<Rightarrow> 'w volume_callback option \<Rightarrow> ('w, error + RequeueAfter) prog" where
  "reconcile_with_server env b v namespace resourcePrefix onReady onNotReady =
     (if ReferenceValue (GetVolumeSpec v) = [] then do {
        s \<leftarrow> RandString env 12;
        bindE (UpdateVolume env (set_spec ((GetVolumeSpec v)\<lparr>ReferenceValue := resourcePrefix @ ''-'' @ s\<rparr>) v)) (\<lambda>_.
        ret (Inr (1 * second)))
      }
      else bindE (ReconcileRequiredResources env v namespace) (\<lambda>_.
           bindE (if GetPhase v = ''Ready'' then logged (StartSync b v) else ret (Inr ())) (\<lambda>_.
           bindE (CheckResourceReadiness env v namespace onReady onNotReady) (\<lambda>v.
           if GetPhase v \<noteq> ''Ready'' then ret (Inr (30 * second)) else ret (Inr 0)))))"

definition ReconcileNfsServerComplete ::
  "'w env \<Rightarrow> VolumeControllerBase \<Rightarrow> VolumeObject \<Rightarrow> string \<Rightarrow> bool \<Rightarrow> string \<Rightarrow> 'w volume_callback option
     \<Rightarrow> 'w volume_callback option \<Rightarrow> ('w, error + RequeueAfter) prog" where
  "ReconcileNfsServerComplete env b v namespace generateNfsServer resourcePrefix onReady onNotReady =
     bindE (if generateNfsServer then GenerateAndCreateNfsServer env v resourcePrefix namespace
            else ret (Inr (0, v))) (\<lambda>(result, v).
     if result > 0 then ret (Inr result)
     else bindE (ReconcileNfsServer env v False namespace) (\<lambda>(result, v).
     if result > 0 then ret (Inr result)
     else reconcile_with_server env b v namespace resourcePrefix onReady onNotReady))"

section \<open>Finalizers\<close>

text \<open>
  The answers \<open>(shouldContinue, err)\<close> of the code: \<open>Inl err\<close> is \<open>(false, err)\<close>, \<open>Inr None\<close> is
  \<open>(false, nil)\<close> and \<open>Inr (Some v)\<close> is \<open>(true, nil)\<close> with the volume as it is then.
\<close>

definition handleDeletion ::
  "'w env \<Rightarrow> VolumeControllerBase \<Rightarrow> VolumeObject \<Rightarrow> string \<Rightarrow> ('w, error + VolumeObject option) prog" where
  "handleDeletion env b v finalizerName =
     (if \<not> ContainsString (om_Finalizers (vo_Meta v)) finalizerName then ret (Inr None)
      else bindE (CleanupResources env b v) (\<lambda>_.
           bindE (RemoveFinalizerWithRetry env (OVolume v) finalizerName) (\<lambda>_.
           ret (Inr None))))"

definition ensureFinalizer ::
  "'w env \<Rightarrow> VolumeObject \<Rightarrow> string \<Rightarrow> ('w, error + VolumeObject option) prog" where
  "ensureFinalizer env v finalizerName =
     (if ContainsString (om_Finalizers (vo_Meta v)) finalizerName then ret (Inr (Some v))
      else bindE (UpdateVolume env
                    (v\<lparr>vo_Meta := (vo_Meta v)\<lparr>om_Finalizers := om_Finalizers (vo_Meta v) @ [finalizerName]\<rparr>\<rparr>)) (\<lambda>v.
           ret (Inr (Some v))))"

definition HandleFinalizerLogic ::
  "'w env \<Rightarrow> VolumeControllerBase \<Rightarrow> VolumeObject \<Rightarrow> string \<Rightarrow> ('w, error + VolumeObject option) prog" where
  "HandleFinalizerLogic env b v finalizerName =
     (if om_DeletionTimestamp (vo_Meta v) \<noteq> None then handleDeletion env b v finalizerName
      else ensureFinalizer env v finalizerName)"

section \<open>Reconcilers\<close>

definition reconcile_filled ::
  "'w env \<Rightarrow> VolumeControllerBase \<Rightarrow> VolumeObject \<Rightarrow> string \<Rightarrow> 'w volume_callback option
     \<Rightarrow> 'w volume_callback option \<Rightarrow> ('w, error + RequeueAfter) prog" where
  "reconcile_filled env b v namespace onReady onNotReady =
     (let generateNfsServer = (NfsServer (GetVolumeSpec v) = None)
      in case FillAndValidateSpec v generateNfsServer namespace of
           (v, Some err) \<Rightarrow> ret (case IgnoreNotFound err of None \<Rightarrow> Inr 0 | Some err \<Rightarrow> Inl err)
         | (v, None) \<Rightarrow> ReconcileNfsServerComplete env b v namespace generateNfsServer ''sv'' onReady onNotReady)"

definition ReconcileVolume ::
  "'w env \<Rightarrow> VolumeControllerBase \<Rightarrow> VolumeObject \<Rightarrow> string \<Rightarrow> string \<Rightarrow> 'w volume_callback option
     \<Rightarrow> 'w volume_callback option \<Rightarrow> ('w, error + RequeueAfter) prog" where
  "ReconcileVolume env b v finalizerName namespace onReady onNotReady =
     bindE (EnsureControllerNamespace env b) (\<lambda>_.
     bindE (HandleFinalizerLogic env b v finalizerName) (\<lambda>r.
     case r of
       None \<Rightarrow> ret (Inr 0)
     | Some v \<Rightarrow> reconcile_filled env b v namespace onReady onNotReady))"

text \<open>The fields of the configuration; the callbacks are those of the sync for both kinds.\<close>

record VolumeReconcileConfig =
  VolumeObjFactory :: volume_type
  APIVersion :: string
  Kind :: string
  FinalizerName :: string
  Namespace :: string

definition ReconcileGeneric ::
  "'w env \<Rightarrow> VolumeControllerBase \<Rightarrow> string \<Rightarrow> string \<Rightarrow> VolumeReconcileConfig \<Rightarrow> ('w, error + RequeueAfter) prog" where
  "ReconcileGeneric env b req_ns req_name config = do {
     r \<leftarrow> GetVolume env (VolumeObjFactory config) req_ns req_name;
     case r of
       Inl err \<Rightarrow> ret (case IgnoreNotFound err of None \<Rightarrow> Inr 0 | Some err \<Rightarrow> Inl err)
     | Inr v \<Rightarrow>
         ReconcileVolume env b (EnsureAPIVersionAndKind env v (APIVersion config) (Kind config))
           (FinalizerName config) (Namespace config)
           (Some (CreateSyncReadyCallback b)) (Some (CreateSyncNotReadyCallback b))
   }"

definition sv_config :: "string \<Rightarrow> VolumeReconcileConfig" where
  "sv_config req_ns = \<lparr>VolumeObjFactory = SharedVolume, APIVersion = ''sv.sharedvolume.io/v1alpha1'',
     Kind = ''SharedVolume'', FinalizerName = ''shared-volume-controller.sharedvolume.io/finalizer'',
     Namespace = req_ns\<rparr>"

definition csv_config :: VolumeReconcileConfig where
  "csv_config = \<lparr>VolumeObjFactory = ClusterSharedVolume, APIVersion = ''sv.sharedvolume.io/v1alpha1'',
     Kind = ''ClusterSharedVolume'',
     FinalizerName = ''shared-volume-controller.sharedvolume.io/clustersharedvolume-finalizer'',
     Namespace = ''shared-volume-controller''\<rparr>"

definition Reconcile_SharedVolume ::
  "'w env \<Rightarrow> VolumeControllerBase \<Rightarrow> string \<Rightarrow> string \<Rightarrow> ('w, error + RequeueAfter) prog" where
  "Reconcile_SharedVolume env b req_ns req_name = ReconcileGeneric env b req_ns req_name (sv_config req_ns)"

definition Reconcile_ClusterSharedVolume ::
  "'w env \<Rightarrow> VolumeControllerBase \<Rightarrow> string \<Rightarrow> string \<Rightarrow> ('w, error + RequeueAfter) prog" where
  "Reconcile_ClusterSharedVolume env b req_ns req_name = ReconcileGeneric env b req_ns req_name csv_config"

section \<open>Recovery after a restart\<close>

text \<open>
  \<open>OneTimeRecoveryRunnable\<close>; \<open>cancelled\<close> is whether the context was done before the five
  seconds were over. The recovery function of both controllers is \<open>RecoverSyncOperations\<close>.
\<close>

record OneTimeRecoveryRunnable =
  recovered :: bool
  needsLeader :: bool

definition NewOneTimeRecoveryRunnable :: "bool \<Rightarrow> OneTimeRecoveryRunnable" where
  "NewOneTimeRecoveryRunnable leader = \<lparr>recovered = False, needsLeader = leader\<rparr>"

definition Start ::
  "'w env \<Rightarrow> ('w, error + unit) prog \<Rightarrow> bool \<Rightarrow> OneTimeRecoveryRunnable
     \<Rightarrow> ('w, (error + unit) \<times> OneTimeRecoveryRunnable) prog" where
  "Start env recoveryFunc cancelled r =
     (if recovered r then ret (Inr (), r)
      else if cancelled then ret (Inl (Errorf ''context canceled''), r)
      else do {
        _ \<leftarrow> time_Sleep env (5 * second);
        _ \<leftarrow> recoveryFunc;
        ret (Inr (), r\<lparr>recovered := True\<rparr>)
      })"

definition NeedLeaderElection :: "OneTimeRecoveryRunnable \<Rightarrow> bool" where
  "NeedLeaderElection r = needsLeader r"

definition recover_sync :: "'w env \<Rightarrow> VolumeControllerBase \<Rightarrow> ('w, error + unit) prog" where
  "recover_sync env b = (if has_SyncController b then RecoverSyncOperations env else ret (Inr ()))"

section \<open>What the parts of a reconciliation write\<close>

text \<open>Writes of the parts, as rules for any predicate that allows them.\<close>

lemma emits_logged [keeps_intro]: "emits P m \<Longrightarrow> emits P (logged m)"
  unfolding logged_def by (intro keeps_intro)

lemma RandString_emits [keeps_intro]: "emits P (RandString env n)"
  by (induction n) (auto intro!: keeps_intro)

lemma start_emits: "emits P (startSyncCommon name ns spec interval)"
  by (simp add: keeps_def grows_def startSyncCommon_def run_stopSyncTimer time_AfterFunc_def set_timer_def Let_def)

lemma StartSync_emits [keeps_intro]: "emits P (StartSync b v)"
  unfolding StartSync_def StartSyncForSharedVolume_def StartSyncForClusterSharedVolume_def
    StopSyncForSharedVolume_def StopSyncForClusterSharedVolume_def
  by (cases "vo_type v") (auto intro!: keeps_intro stop_emits start_emits)

lemma sync_callbacks_emit [keeps_intro]:
  "emits P (CreateSyncReadyCallback b v)" "emits P (CreateSyncNotReadyCallback b v)"
  unfolding CreateSyncReadyCallback_def CreateSyncNotReadyCallback_def
  by (intro keeps_intro StopSync_emits)+

lemma cleanup_writes: "emits (writes_in (\<lambda>key. fst key \<notin> {KNamespace, KSecret} \<and> (\<forall>t. fst key \<noteq> KVolume t)))
    (CleanupResourcesInNamespace env b v ns)"
  unfolding CleanupResourcesInNamespace_def
  by (intro keeps_intro StopSync_emits
      emits_weaken [OF pod_passes_write(1)] emits_weaken [OF pod_passes_write(2)] emits_weaken [OF pod_passes_write(3)]
      emits_weaken [OF pvc_pass_writes] emits_weaken [OF pv_wait_writes] emits_weaken [OF service_pass_writes]
      emits_weaken [OF nfs_pass_writes])
     (auto elim!: writes_in_mono)

lemma EnsureControllerNamespace_writes: "emits (writes_kind KNamespace) (EnsureControllerNamespace env b)"
  unfolding EnsureControllerNamespace_def by (intro keeps_intro) (auto simp: key_of_def)

text \<open>The cleanup creates nothing.\<close>

lemma strips_not_create: "strips k e \<Longrightarrow> \<not> is_create e"
  by (cases "(k, e)" rule: strips.cases) auto

lemma finalizer_write_props:
  "finalizer_write k f e \<Longrightarrow> \<not> is_create e" "finalizer_write k f e \<Longrightarrow> writes_kind k e"
  by (cases "(k, f, e)" rule: finalizer_write.cases; auto simp: key_of_def)+

lemma no_create_force:
  "emits (\<lambda>e. \<not> is_create e) (ForceDeletePVC env pvc)" "emits (\<lambda>e. \<not> is_create e) (ForceDeletePV env pv)"
  "emits (\<lambda>e. \<not> is_create e) (ForceDeletePod env pod)"
proof -
  have loops: "emits (\<lambda>e. \<not> is_create e) (RemovePVCFinalizersWithRetry env pvc)"
    "emits (\<lambda>e. \<not> is_create e) (RemovePVFinalizersWithRetry env pv)"
    "emits (\<lambda>e. \<not> is_create e) (forceRemovePVFinalizersWithPatch env n)" for pvc pv n
    unfolding RemovePVCFinalizersWithRetry_def RemovePVFinalizersWithRetry_def
      forceRemovePVFinalizersWithPatch_def force_remove_finalizers_with_patch_def
    by (rule emits_weaken [OF strip_pvc_loop_emits], erule strips_not_create,
        rule emits_weaken [OF strip_loop_emits], erule strips_not_create, intro keeps_intro) simp
  show "emits (\<lambda>e. \<not> is_create e) (ForceDeletePVC env pvc)" "emits (\<lambda>e. \<not> is_create e) (ForceDeletePV env pv)"
    "emits (\<lambda>e. \<not> is_create e) (ForceDeletePod env pod)"
    unfolding ForceDeletePVC_def ForceDeletePV_def ForceDeletePod_def
    by (intro keeps_intro loops; simp)+
qed

lemma reads_not_create: "reads_only e \<Longrightarrow> \<not> is_create e"
  by (cases e rule: is_create.cases) auto

lemma wait_not_create: "emits (\<lambda>e. \<not> is_create e) (wait_for_pvs env ref deadline n)"
  by (rule emits_weaken [OF wait_reads reads_not_create])

lemma cleanup_creates_nothing: "emits (\<lambda>e. \<not> is_create e) (CleanupResourcesInNamespace env b v ns)"
  unfolding CleanupResourcesInNamespace_def CleanupAllPodsUsingVolumeInNamespace_def CleanupReplicaSetInNamespace_def
    force_delete_pods_def ForceCleanupAllResourcesInNamespace_def CleanupAllPVCsInNamespace_def
    CleanupAllPVsWithWait_def CleanupAllPVs_def CleanupServiceInNamespace_def CleanupNFSServerInNamespace_def
  by (intro keeps_intro StopSync_emits no_create_force wait_not_create) simp_all

section \<open>Deleting a volume\<close>

lemma remove_finalizer_ranked:
  "ranked deletion_rank 5 5 (RemoveFinalizerWithRetry env (OVolume v) f)"
proof (rule ranked_kind)
  show "emits (writes_kind (KVolume (vo_type v))) (RemoveFinalizerWithRetry env (OVolume v) f)"
    unfolding RemoveFinalizerWithRetry_def
    by (rule emits_weaken [OF remove_finalizer.emits_loop [OF remove_finalizer_once_emits]])
       (auto dest: finalizer_write_props(2))
  show "fst key = KVolume (vo_type v) \<Longrightarrow> deletion_rank key = 5" for key
    by (cases key) auto
qed

lemma handleDeletion_None: "Inr x \<in> results (handleDeletion env b v f) \<Longrightarrow> x = None"
  unfolding handleDeletion_def by (auto dest!: results_bindED split: if_splits)

lemma handleDeletion_done:
  assumes "run_state (handleDeletion env b v f) w = (Inr x, w')" and "f \<in> set (om_Finalizers (vo_Meta v))"
  shows "\<exists>h e. w_hist w' = h @ [e] \<and> finalizer_gone f e"
proof -
  from assms obtain w1 obj where "run_state (RemoveFinalizerWithRetry env (OVolume v) f) w1 = (Inr obj, w')"
    by (auto simp: handleDeletion_def split: prod.splits sum.splits)
  then show ?thesis
    unfolding RemoveFinalizerWithRetry_def
    using remove_finalizer.loop_cases remove_finalizer_once_success by metis
qed

lemma handleDeletion_creates_nothing: "emits (\<lambda>e. \<not> is_create e) (handleDeletion env b v f)"
proof -
  have "emits (\<lambda>e. \<not> is_create e) (RemoveFinalizerWithRetry env (OVolume v) f)"
    unfolding RemoveFinalizerWithRetry_def
    by (rule emits_weaken [OF remove_finalizer.emits_loop [OF remove_finalizer_once_emits]])
       (auto dest: finalizer_write_props(1))
  then show ?thesis
    unfolding handleDeletion_def CleanupResources_def by (intro keeps_intro cleanup_creates_nothing)
qed

lemma deletion_ranked:
  assumes "om_DeletionTimestamp (vo_Meta v) \<noteq> None"
  shows "ranked deletion_rank 0 5 (ReconcileVolume env b v f ns on off)"
proof -
  have ns: "ranked deletion_rank 0 0 (EnsureControllerNamespace env b)"
  proof (rule ranked_kind [OF EnsureControllerNamespace_writes])
    show "fst key = KNamespace \<Longrightarrow> deletion_rank key = 0" for key by (cases key) auto
  qed
  have del: "ranked deletion_rank 0 5 (handleDeletion env b v f)"
    unfolding handleDeletion_def CleanupResources_def
    by (auto intro!: ranked_ret ranked_bindE [OF cleanup_ranked] ranked_weaken [OF ranked_bindE [OF remove_finalizer_ranked]])
  show ?thesis
    unfolding ReconcileVolume_def HandleFinalizerLogic_def if_P [OF assms]
    by (intro ranked_bindE [OF ns] ranked_bindE [OF del]) (simp_all, drule handleDeletion_None, simp add: ranked_ret)
qed

text \<open>
  C10. The reconciliation of a volume under deletion: its writes come in the order namespace and
  pods, claims, persistent volumes, service, NFS server, and last the volume itself, so the
  finalizer goes only after the cleanup; nothing but the controller's own namespace is created;
  without the controller's finalizer nothing else is written; the volume is not requeued, and
  when it is done and the volume had the finalizer, the last call has shown that it is gone.
\<close>

theorem deletion_reconciled:
  assumes "om_DeletionTimestamp (vo_Meta v) \<noteq> None"
    and "run_state (ReconcileVolume env b v f namespace onReady onNotReady) w = (r, w')"
  shows "sorted (write_ranks deletion_rank (emitted (ReconcileVolume env b v f namespace onReady onNotReady) w))
    \<and> list_all (\<lambda>e. is_create e \<longrightarrow> writes_kind KNamespace e)
        (emitted (ReconcileVolume env b v f namespace onReady onNotReady) w)
    \<and> (f \<notin> set (om_Finalizers (vo_Meta v)) \<longrightarrow>
        list_all (writes_kind KNamespace) (emitted (ReconcileVolume env b v f namespace onReady onNotReady) w))
    \<and> (\<forall>q. r = Inr q \<longrightarrow> q = 0 \<and> (f \<in> set (om_Finalizers (vo_Meta v)) \<longrightarrow>
        (\<exists>h e. w_hist w' = h @ [e] \<and> finalizer_gone f e)))"
proof (intro conjI)
  let ?m = "ReconcileVolume env b v f namespace onReady onNotReady"
  note del = assms(1) [THEN if_P]
  show "sorted (write_ranks deletion_rank (emitted ?m w))"
    by (rule ranked_emitted [OF deletion_ranked [OF assms(1)]])
  let ?P = "\<lambda>e. is_create e \<longrightarrow> writes_kind KNamespace e"
  have ns: "emits ?P (EnsureControllerNamespace env b)"
    by (rule emits_weaken [OF EnsureControllerNamespace_writes]) simp
  have hd: "emits ?P (handleDeletion env b v f)"
    by (rule emits_weaken [OF handleDeletion_creates_nothing]) simp
  show "list_all ?P (emitted ?m w)"
    unfolding ReconcileVolume_def HandleFinalizerLogic_def del
    by (intro emits_emitted keeps_intro ns hd) (auto dest: handleDeletion_None)
  show "f \<notin> set (om_Finalizers (vo_Meta v)) \<longrightarrow> list_all (writes_kind KNamespace) (emitted ?m w)"
  proof
    assume f: "f \<notin> set (om_Finalizers (vo_Meta v))"
    then have "emits (writes_kind KNamespace) (handleDeletion env b v f)"
      unfolding handleDeletion_def by (simp add: grows.keeps_ret)
    then show "list_all (writes_kind KNamespace) (emitted ?m w)"
      unfolding ReconcileVolume_def HandleFinalizerLogic_def del
      by (intro emits_emitted keeps_intro EnsureControllerNamespace_writes) (auto dest: handleDeletion_None)
  qed
  show "\<forall>q. r = Inr q \<longrightarrow> q = 0 \<and> (f \<in> set (om_Finalizers (vo_Meta v)) \<longrightarrow>
      (\<exists>h e. w_hist w' = h @ [e] \<and> finalizer_gone f e))"
  proof (intro allI impI)
    fix q assume "r = Inr q"
    with assms(2) obtain x w1 where "run_state (handleDeletion env b v f) w1 = (Inr x, w')" "q = 0"
      by (auto simp: ReconcileVolume_def HandleFinalizerLogic_def assms(1) split: prod.splits sum.splits option.splits
          dest: handleDeletion_None [OF resultsI])
    then show "q = 0 \<and> (f \<in> set (om_Finalizers (vo_Meta v)) \<longrightarrow>
        (\<exists>h e. w_hist w' = h @ [e] \<and> finalizer_gone f e))"
      using handleDeletion_done by blast
  qed
qed

definition deleted_volume :: VolumeObject where
  "deleted_volume = sample_volume\<lparr>vo_Meta := sample_meta\<lparr>om_DeletionTimestamp := Some 0,
     om_Finalizers := [''shared-volume-controller.sharedvolume.io/finalizer'']\<rparr>\<rparr>"

theorem deletion_reconciled_witness:
  "sorted (write_ranks deletion_rank (emitted (ReconcileVolume store_env sample_base deleted_volume
     ''shared-volume-controller.sharedvolume.io/finalizer'' ''team'' None None) (world_of [OVolume deleted_volume])))"
  by (rule deletion_reconciled [OF _ surjective_pairing, THEN conjunct1]) (simp add: deleted_volume_def)

section \<open>The finalizer comes first\<close>

text \<open>\<open>guarded A B m\<close>: in every run, an event in \<open>B\<close> comes after one in \<open>A\<close>.\<close>

definition preceded :: "(event \<Rightarrow> bool) \<Rightarrow> (event \<Rightarrow> bool) \<Rightarrow> event list \<Rightarrow> bool" where
  "preceded A B es \<longleftrightarrow> (\<forall>es1 e es2. es = es1 @ e # es2 \<longrightarrow> B e \<longrightarrow> (\<exists>a \<in> set es1. A a))"

definition guarded :: "(event \<Rightarrow> bool) \<Rightarrow> (event \<Rightarrow> bool) \<Rightarrow> ('w, 'a) prog \<Rightarrow> bool" where
  "guarded A B m \<longleftrightarrow> (\<forall>w. \<exists>es. w_hist (snd (run_state m w)) = w_hist w @ es \<and> preceded A B es)"

lemma guarded_emitted: "guarded A B m \<Longrightarrow> preceded A B (emitted m w)"
  unfolding guarded_def emitted_def by (metis append_eq_conv_conj)

lemma preceded_none: "list_all (\<lambda>e. \<not> B e) es \<Longrightarrow> preceded A B es"
  by (auto simp: preceded_def)

lemma guarded_none: "emits (\<lambda>e. \<not> B e) m \<Longrightarrow> guarded A B m"
  unfolding guarded_def keeps_def grows_def using preceded_none by blast

lemma preceded_append:
  assumes "list_all (\<lambda>e. \<not> B e) es" and "(\<exists>a \<in> set es. A a) \<or> preceded A B fs"
  shows "preceded A B (es @ fs)"
  unfolding preceded_def
proof (intro allI impI)
  fix es1 e es2 assume split: "es @ fs = es1 @ e # es2" and B: "B e"
  have "e \<notin> set es" using assms(1) B by (auto simp: list_all_iff)
  with split obtain fs1 where fs: "es1 = es @ fs1" "fs = fs1 @ e # es2"
    by (auto simp: append_eq_append_conv2 append_eq_Cons_conv)
  then show "\<exists>a \<in> set es1. A a"
    using assms(2) B unfolding preceded_def by auto
qed

lemma guarded_bind:
  assumes "emits (\<lambda>e. \<not> B e) m"
    and "\<And>w x w'. run_state m w = (x, w') \<Longrightarrow>
      (\<exists>es. w_hist w' = w_hist w @ es \<and> (\<exists>a \<in> set es. A a)) \<and> emits (\<lambda>_. True) (f x) \<or> guarded A B (f x)"
  shows "guarded A B (State_Monad.bind m f)"
  unfolding guarded_def
proof
  fix w
  obtain x w1 where m: "run_state m w = (x, w1)" by fastforce
  obtain es where es: "w_hist w1 = w_hist w @ es" "list_all (\<lambda>e. \<not> B e) es"
    using assms(1) m unfolding keeps_def grows_def by (metis snd_conv)
  have rest: "\<exists>fs. w_hist (snd (run_state (f x) w1)) = w_hist w1 @ fs"
    if "emits (\<lambda>_. True) (f x)"
    using that unfolding keeps_def grows_def by blast
  from assms(2) [OF m] obtain fs where
      "w_hist (snd (run_state (f x) w1)) = w_hist w1 @ fs" "(\<exists>a \<in> set es. A a) \<or> preceded A B fs"
    unfolding guarded_def using rest es(1) by (metis same_append_eq)
  then show "\<exists>es. w_hist (snd (run_state (State_Monad.bind m f) w)) = w_hist w @ es \<and> preceded A B es"
    using m es preceded_append [OF es(2)] by (intro exI [of _ "es @ fs"]) simp
qed

lemma guarded_bindE:
  assumes "emits (\<lambda>e. \<not> B e) m"
    and "\<And>w x w'. run_state m w = (Inr x, w') \<Longrightarrow>
      (\<exists>es. w_hist w' = w_hist w @ es \<and> (\<exists>a \<in> set es. A a)) \<and> emits (\<lambda>_. True) (f x) \<or> guarded A B (f x)"
  shows "guarded A B (bindE m f)"
  unfolding bindE_def
proof (rule guarded_bind [OF assms(1)])
  fix w r w' assume "run_state m w = (r, w')"
  then show "(\<exists>es. w_hist w' = w_hist w @ es \<and> (\<exists>a \<in> set es. A a))
        \<and> emits (\<lambda>_. True) (case r of Inl e \<Rightarrow> ret (Inl e) | Inr x \<Rightarrow> f x)
      \<or> guarded A B (case r of Inl e \<Rightarrow> ret (Inl e) | Inr x \<Rightarrow> f x)"
    using assms(2) by (cases r) (auto intro: guarded_none grows.keeps_ret)
qed

text \<open>A call that shows that the volume carries the finalizer.\<close>

fun finalizer_shown :: "string \<Rightarrow> event \<Rightarrow> bool" where
  "finalizer_shown f (EApi (GetReq (KVolume _) _ _) (RObject obj)) = (f \<in> set (om_Finalizers (meta_of obj)))"
| "finalizer_shown f (EApi (UpdateReq (OVolume v)) (RObject _)) = (f \<in> set (om_Finalizers (vo_Meta v)))"
| "finalizer_shown f _ = False"

fun creates_resource :: "event \<Rightarrow> bool" where
  "creates_resource (EApi (CreateReq obj) _) = (kind_of obj \<noteq> KNamespace)"
| "creates_resource _ = False"

text \<open>
  Predicates that allow every call of a reconciliation but the creation of some services and of namespaces; among
  them the trivial one, so that the parts of a reconciliation only add to the history.
\<close>

definition allows :: "'w env \<Rightarrow> string \<Rightarrow> (event \<Rightarrow> bool) \<Rightarrow> bool" where
  "allows env ns P \<longleftrightarrow> (\<forall>rq rp. (\<forall>svc. rq \<noteq> CreateReq (OService svc)) \<longrightarrow> (\<forall>m. rq \<noteq> CreateReq (ONamespace m)) \<longrightarrow> P (EApi rq rp))
     \<and> (\<forall>d. P (ESleep d))
     \<and> (\<forall>v rp. P (EApi (CreateReq (OService (service_object env v ns))) rp))"

lemma allowsD:
  assumes "allows env ns P"
  shows "(\<And>svc. rq \<noteq> CreateReq (OService svc)) \<Longrightarrow> (\<And>m. rq \<noteq> CreateReq (ONamespace m)) \<Longrightarrow> P (EApi rq rp)"
    "P (ESleep d)"
    "P (EApi (CreateReq (OService (service_object env v ns))) rp)"
  using assms unfolding allows_def by blast+

lemma allowed_status:
  assumes "allows env ns P"
  shows "emits P (UpdateStatusWithRetry env obj fn)"
proof -
  have "emits P (update_status_once env obj fn rc)" for rc
    unfolding update_status_once_def get_latest_def
    by (intro keeps_intro allowsD(1) [OF assms] allowsD(2) [OF assms]) simp_all
  then show ?thesis
    unfolding UpdateStatusWithRetry_def by (rule update_status.emits_loop)
qed

lemma allowed_readiness:
  assumes "allows env ns P" and "\<forall>cb v. onReady = Some cb \<or> onNotReady = Some cb \<longrightarrow> emits P (cb v)"
  shows "emits P (CheckResourceReadiness env v ns onReady onNotReady)"
proof -
  have update: "emits P (update_if_needed env v a c onReady onNotReady)" for v a c
    unfolding update_if_needed_def UpdateReadinessStatus_def
    by (intro keeps_intro allowed_status [OF assms(1)] assms(2) [rule_format] allowsD(1) [OF assms(1)])
       (simp_all split: if_splits)
  show ?thesis
    unfolding CheckResourceReadiness_def CheckNfsServerStatus_def IsPVCReady_def IsReplicaSetReady_def
    by (intro keeps_intro update allowsD(1) [OF assms(1)]) simp_all
qed

lemma allowed_parts:
  assumes "allows env ns P"
  shows "emits P (GenerateAndCreateNfsServer env v p ns)" "emits P (ReconcileNfsServer env v g ns)"
    "emits P (ReconcileRequiredResources env v ns)"
  unfolding GenerateAndCreateNfsServer_def reference_value_def CreateAndOwnNfsServer_def
    ReconcileNfsServer_def CheckAndUpdateNfsServerStatus_def CheckNfsServerStatus_def
    ReconcileRequiredResources_def ReconcilePersistentVolume_def ReconcilePersistentVolumeClaim_def
    ReconcileReplicaSet_def ReconcileService_def
  by (intro keeps_intro; (rule allowsD(3) [OF assms] | rule allowsD(1) [OF assms]; simp))+

lemma allowed_reconcile_filled:
  assumes "allows env ns P" and "\<forall>cb v. onReady = Some cb \<or> onNotReady = Some cb \<longrightarrow> emits P (cb v)"
  shows "emits P (reconcile_filled env b v ns onReady onNotReady)"
  unfolding reconcile_filled_def ReconcileNfsServerComplete_def reconcile_with_server_def
  by (intro keeps_intro allowed_parts [OF assms(1)] allowed_readiness [OF assms] allowsD(1) [OF assms(1)]) simp_all

lemma allowed_reconcile_sync:
  assumes "allows env ns P"
  shows "emits P (reconcile_filled env b v ns (Some (CreateSyncReadyCallback b)) (Some (CreateSyncNotReadyCallback b)))"
  using sync_callbacks_emit by (intro allowed_reconcile_filled [OF assms]) blast

lemma any_reconcile_sync:
  "emits (\<lambda>_. True) (reconcile_filled env b v ns (Some (CreateSyncReadyCallback b)) (Some (CreateSyncNotReadyCallback b)))"
  by (rule allowed_reconcile_sync) (simp add: allows_def)

lemma ensureFinalizer_shows:
  assumes "run_state (ensureFinalizer env v f) w = (Inr x, w')" and "f \<notin> set (om_Finalizers (vo_Meta v))"
  shows "\<exists>es. w_hist w' = w_hist w @ es \<and> (\<exists>a \<in> set es. finalizer_shown f a)"
  using assms by (auto simp: ensureFinalizer_def UpdateVolume_def run_api_call as_object_Inr split: sum.splits)

lemma creates_resource_weaken: "\<not> is_create e \<Longrightarrow> \<not> creates_resource e"
  by (cases e rule: creates_resource.cases) auto

lemma finalizer_logic_creates_nothing: "emits (\<lambda>e. \<not> creates_resource e) (HandleFinalizerLogic env b v f)"
proof -
  have "emits (\<lambda>e. \<not> creates_resource e) (handleDeletion env b v f)"
    by (rule emits_weaken [OF handleDeletion_creates_nothing creates_resource_weaken])
  moreover have "emits (\<lambda>e. \<not> creates_resource e) (ensureFinalizer env v f)"
    unfolding ensureFinalizer_def by (intro keeps_intro) simp
  ultimately show ?thesis
    unfolding HandleFinalizerLogic_def by (intro keeps_intro)
qed

lemma namespace_creates_no_resource: "emits (\<lambda>e. \<not> creates_resource e) (EnsureControllerNamespace env b)"
  unfolding EnsureControllerNamespace_def by (intro keeps_intro) simp_all

lemma ReconcileVolume_guarded:
  assumes "f \<notin> set (om_Finalizers (vo_Meta v))"
  shows "guarded (finalizer_shown f) creates_resource
    (ReconcileVolume env b v f ns (Some (CreateSyncReadyCallback b)) (Some (CreateSyncNotReadyCallback b)))"
proof -
  let ?rest = "\<lambda>r. case r of None \<Rightarrow> ret (Inr 0)
    | Some v \<Rightarrow> reconcile_filled env b v ns (Some (CreateSyncReadyCallback b)) (Some (CreateSyncNotReadyCallback b))"
  have "guarded (finalizer_shown f) creates_resource (bindE (HandleFinalizerLogic env b v f) ?rest)"
  proof (rule guarded_bindE [OF finalizer_logic_creates_nothing])
    fix w x w' assume r: "run_state (HandleFinalizerLogic env b v f) w = (Inr x, w')"
    show "(\<exists>es. w_hist w' = w_hist w @ es \<and> (\<exists>a \<in> set es. finalizer_shown f a)) \<and> emits (\<lambda>_. True) (?rest x)
        \<or> guarded (finalizer_shown f) creates_resource (?rest x)"
    proof (cases x)
      case None
      then show ?thesis by (simp add: guarded_none grows.keeps_ret)
    next
      case (Some u)
      then have "om_DeletionTimestamp (vo_Meta v) = None"
        using r handleDeletion_None [OF resultsI] unfolding HandleFinalizerLogic_def by fastforce
      with r have "run_state (ensureFinalizer env v f) w = (Inr x, w')"
        by (simp add: HandleFinalizerLogic_def)
      from ensureFinalizer_shows [OF this assms] any_reconcile_sync show ?thesis
        unfolding Some option.case by (intro disjI1 conjI)
    qed
  qed
  then show ?thesis
    unfolding ReconcileVolume_def by (intro guarded_bindE [OF namespace_creates_no_resource] disjI2)
qed

text \<open>
  C4. A reconciliation creates a resource (anything but the controller's own namespace) only after a
  call of the same reconciliation has shown that the volume carries the controller's finalizer:
  either the volume was read with it, or the server accepted the update that adds it. So no
  resource is ever created for a volume whose deletion would skip the cleanup. This holds
  whatever the server answers.
\<close>

theorem finalizer_before_resources:
  "preceded (finalizer_shown (FinalizerName config)) creates_resource
     (emitted (ReconcileGeneric env b ns n config) w)"
proof (rule guarded_emitted)
  let ?f = "FinalizerName config"
  show "guarded (finalizer_shown ?f) creates_resource (ReconcileGeneric env b ns n config)"
    unfolding ReconcileGeneric_def
  proof (rule guarded_bind, goal_cases)
    case 1
    show ?case by (intro keeps_intro) simp
  next
    case (2 w r w')
    show ?case
    proof (cases r)
      case (Inl e)
      then show ?thesis by (simp add: guarded_none grows.keeps_ret)
    next
      case (Inr v)
      let ?v = "EnsureAPIVersionAndKind env v (APIVersion config) (Kind config)"
      have meta: "vo_Meta ?v = vo_Meta v" by (simp add: EnsureAPIVersionAndKind_def Let_def)
      show ?thesis
      proof (cases "?f \<in> set (om_Finalizers (vo_Meta v))")
        case True
        have "emits (\<lambda>_. True) (HandleFinalizerLogic env b ?v ?f)" "emits (\<lambda>_. True) (EnsureControllerNamespace env b)"
          by (rule emits_weaken [OF finalizer_logic_creates_nothing], simp)
             (rule emits_weaken [OF namespace_creates_no_resource], simp)
        then have "emits (\<lambda>_. True) (ReconcileVolume env b ?v ?f (Namespace config)
            (Some (CreateSyncReadyCallback b)) (Some (CreateSyncNotReadyCallback b)))"
          unfolding ReconcileVolume_def by (intro keeps_intro any_reconcile_sync)
        moreover have "\<exists>es. w_hist w' = w_hist w @ es \<and> (\<exists>a \<in> set es. finalizer_shown ?f a)"
          using 2 Inr True by (auto simp: GetVolume_def Get_as_def run_api_call as_object_Inr the_volume_Some)
        ultimately show ?thesis unfolding Inr sum.case by (intro disjI1 conjI)
      next
        case False
        then show ?thesis unfolding Inr sum.case by (intro disjI2 ReconcileVolume_guarded) (simp add: meta)
      qed
    qed
  qed
qed

end
