(* ===== verification/Reconcile_Safety.thy ===== *)
theory Reconcile_Safety
  imports Reconcile
begin

text \<open>
  What holds of whole reconciliations: they do not panic, they keep at most one sync timer per
  volume together with the recovery and the timer callbacks, and what differs between the
  namespace of a cluster volume's resources and that of its sync.
\<close>

section \<open>A reconciliation does not panic\<close>

text \<open>
  A server and a parser of quantities that return, and a server that does not drop the pointer
  fields the code dereferences when it stores an update of the volume.
\<close>

definition answers :: "'w env \<Rightarrow> bool" where
  "answers env \<longleftrightarrow> (\<forall>rq s e. fst (e_api env rq s) = RError e \<longrightarrow> \<not> is_Panic e)
     \<and> (\<forall>s e. e_ParseQuantity env s = Inl e \<longrightarrow> \<not> is_Panic e)"

definition pointers_set :: "VolumeObject \<Rightarrow> bool" where
  "pointers_set v \<longleftrightarrow> NfsServer (vo_Spec v) \<noteq> None \<and> Storage (vo_Spec v) \<noteq> None"

definition keeps_pointers :: "'w env \<Rightarrow> bool" where
  "keeps_pointers env \<longleftrightarrow> (\<forall>v s v'. fst (e_api env (UpdateReq (OVolume v)) s) = RObject (OVolume v')
     \<longrightarrow> pointers_set v \<longrightarrow> pointers_set v')"

definition safe :: "('w, error + 'a) prog \<Rightarrow> bool" where
  "safe m \<longleftrightarrow> (\<forall>e. Inl e \<in> results m \<longrightarrow> \<not> is_Panic e)"

named_theorems safe_intro \<open>composition rules for the judgement safe\<close>

lemma safeD: "safe m \<Longrightarrow> Inl e \<in> results m \<Longrightarrow> \<not> is_Panic e"
  by (simp add: safe_def)

lemma safe_ret [safe_intro]: "(\<And>e. r = Inl e \<Longrightarrow> \<not> is_Panic e) \<Longrightarrow> safe (ret r)"
  by (simp add: safe_def)

lemma safe_bind [safe_intro]: "(\<And>x. x \<in> results m \<Longrightarrow> safe (f x)) \<Longrightarrow> safe (State_Monad.bind m f)"
  unfolding safe_def by (blast dest: results_bindD)

lemma safe_bindE [safe_intro]:
  "safe m \<Longrightarrow> (\<And>x. Inr x \<in> results m \<Longrightarrow> safe (f x)) \<Longrightarrow> safe (bindE m f)"
  unfolding safe_def by (blast dest: results_bindED)

lemma safe_if [safe_intro]: "(b \<Longrightarrow> safe m) \<Longrightarrow> (\<not> b \<Longrightarrow> safe n) \<Longrightarrow> safe (if b then m else n)"
  by simp

lemma safe_case_sum [safe_intro]:
  "(\<And>e. r = Inl e \<Longrightarrow> safe (f e)) \<Longrightarrow> (\<And>x. r = Inr x \<Longrightarrow> safe (g x))
     \<Longrightarrow> safe (case r of Inl e \<Rightarrow> f e | Inr x \<Rightarrow> g x)"
  by (simp split: sum.split)

lemma safe_case_option [safe_intro]:
  "(r = None \<Longrightarrow> safe n) \<Longrightarrow> (\<And>x. r = Some x \<Longrightarrow> safe (g x)) \<Longrightarrow> safe (case r of None \<Rightarrow> n | Some x \<Rightarrow> g x)"
  by (simp split: option.split)

lemma safe_case_prod [safe_intro]:
  "(\<And>a b. p = (a, b) \<Longrightarrow> safe (f a b)) \<Longrightarrow> safe (case p of (a, b) \<Rightarrow> f a b)"
  by (simp split: prod.split)

lemma safe_Let [safe_intro]: "(\<And>x. x = t \<Longrightarrow> safe (f x)) \<Longrightarrow> safe (Let t f)"
  by simp

lemma as_object_Inl: "as_object dec rp = Inl e \<Longrightarrow> e = decode_error \<or> rp = RError e"
  by (auto simp: as_object_def split: response.splits option.splits)

lemma as_done_Inl: "as_done rp = Inl e \<Longrightarrow> rp = RError e"
  by (auto simp: as_done_def split: response.splits)

lemma decode_error_not_Panic [simp]: "\<not> is_Panic decode_error"
  by (simp add: decode_error_def)

lemma safe_client:
  assumes "answers env"
  shows "safe (Get_as dec env k ns n)" "safe (GetVolume env t ns n)" "safe (Create env obj)" "safe (Update env obj)"
    "safe (UpdateVolume env v)" "safe (StatusUpdate env obj)" "safe (Delete env obj)"
proof -
  have err: "rp \<in> results (api_call env rq) \<Longrightarrow> rp = RError e \<Longrightarrow> \<not> is_Panic e" for rp rq e
    using assms by (auto simp: results_api_call answers_def)
  show get: "safe (Get_as dec env k ns n)" for dec :: "kobj \<Rightarrow> 'z option" and k ns n
    unfolding Get_as_def by (intro safe_intro) (auto dest!: as_object_Inl err)
  show "safe (GetVolume env t ns n)"
    unfolding GetVolume_def by (rule get)
  show "safe (Create env obj)" "safe (Delete env obj)"
    unfolding Create_def Delete_def by (intro safe_intro; auto dest!: as_done_Inl err)+
  show "safe (Update env obj)" "safe (UpdateVolume env v)" "safe (StatusUpdate env obj)"
    unfolding Update_def UpdateVolume_def StatusUpdate_def by (intro safe_intro; auto dest!: as_object_Inl err)+
qed

lemma IgnoreNotFound_Some: "IgnoreNotFound e = Some e' \<longleftrightarrow> e' = e \<and> \<not> IsNotFound e"
  by (auto simp: IgnoreNotFound_def)

lemma safe_resources:
  assumes "answers env" and "pointers_set v"
  shows "safe (ReconcileRequiredResources env v ns)"
proof -
  note client = safe_client [OF assms(1)]
  have "e_ParseQuantity env s = Inl e \<Longrightarrow> \<not> is_Panic e" for s e
    using assms(1) by (simp add: answers_def)
  then have "safe (ReconcilePersistentVolume env v ns)" "safe (ReconcilePersistentVolumeClaim env v ns)"
    unfolding ReconcilePersistentVolume_def ReconcilePersistentVolumeClaim_def
    using assms(2) by (intro safe_intro client; auto simp: pointers_set_def GetVolumeSpec_def)+
  moreover have "safe (ReconcileReplicaSet env v ns)" "safe (ReconcileService env v ns)"
    unfolding ReconcileReplicaSet_def ReconcileService_def by (intro safe_intro client; simp)+
  ultimately show ?thesis
    unfolding ReconcileRequiredResources_def by (intro safe_intro) auto
qed

lemma safe_check_server:
  assumes "answers env" and "NfsServer (vo_Spec v) \<noteq> None"
  shows "safe (CheckNfsServerStatus env v ns)"
  unfolding CheckNfsServerStatus_def
  using assms(2)
  by (intro safe_intro safe_client(1) [OF assms(1)])
     (auto simp: GetVolumeSpec_def IgnoreNotFound_Some dest: safe_client(1) [OF assms(1), THEN safeD])

lemma UpdateVolumeStatus_pointers:
  "pointers_set v \<Longrightarrow> pointers_set (fst (UpdateVolumeStatus v ready phase message))"
  by (auto simp: UpdateVolumeStatus_def pointers_set_def volume_accessors Let_def split: prod.split option.split)

lemma safe_reconcile_server:
  assumes "answers env" and "pointers_set v"
  shows "safe (ReconcileNfsServer env v False ns)"
    and "Inr (q, v') \<in> results (ReconcileNfsServer env v False ns) \<Longrightarrow> pointers_set v'"
proof -
  have "safe (CheckAndUpdateNfsServerStatus env v ns)"
    using safe_check_server [OF assms(1)] assms(2) unfolding CheckAndUpdateNfsServerStatus_def
    by (intro safe_intro) (auto simp: pointers_set_def)
  then show "safe (ReconcileNfsServer env v False ns)"
    unfolding ReconcileNfsServer_def by (intro safe_intro) auto
  have "pointers_set v'" if "Inr (q, v') \<in> results (CheckAndUpdateNfsServerStatus env v ns)"
    using that UpdateVolumeStatus_pointers [OF assms(2)] unfolding CheckAndUpdateNfsServerStatus_def
    by (auto dest!: results_bindED split: prod.splits if_splits) (metis fst_conv)+
  then show "Inr (q, v') \<in> results (ReconcileNfsServer env v False ns) \<Longrightarrow> pointers_set v'"
    using assms(2) by (auto simp: ReconcileNfsServer_def split: option.splits if_splits)
qed

lemma safe_generate:
  assumes "answers env" and "keeps_pointers env" and "Storage (vo_Spec v) \<noteq> None"
  shows "safe (GenerateAndCreateNfsServer env v p ns)"
    and "Inr (q, v') \<in> results (GenerateAndCreateNfsServer env v p ns) \<Longrightarrow> pointers_set v'"
proof -
  let ?v = "\<lambda>ref. set_spec ((GetVolumeSpec v)\<lparr>ReferenceValue := ref, NfsServer := Some (generated_server ref ns)\<rparr>) v"
  have set: "pointers_set u" if "Inr u \<in> results (UpdateVolume env (?v ref))" for u ref
  proof -
    have "pointers_set (?v ref)" using assms(3) by (simp add: pointers_set_def GetVolumeSpec_def)
    with results_UpdateVolume [OF that] assms(2) show ?thesis
      unfolding keeps_pointers_def by blast
  qed
  note client = safe_client [OF assms(1)]
  have "safe (CreateAndOwnNfsServer env u ns)" if "pointers_set u" for u
    using that unfolding CreateAndOwnNfsServer_def
    by (intro safe_intro client; auto simp: pointers_set_def GetVolumeSpec_def dest: client(1) [THEN safeD])
  then show "safe (GenerateAndCreateNfsServer env v p ns)"
    unfolding GenerateAndCreateNfsServer_def by (intro safe_intro client) (auto dest: set)
  show "Inr (q, v') \<in> results (GenerateAndCreateNfsServer env v p ns) \<Longrightarrow> pointers_set v'"
    unfolding GenerateAndCreateNfsServer_def by (auto dest!: results_bindD results_bindED set)
qed

lemma safe_retry:
  assumes "answers env"
  shows "safe (UpdateStatusWithRetry env obj fn)" "safe (RemoveFinalizerWithRetry env obj f)"
proof -
  note errors = safe_client [OF assms, THEN safeD]
  have "Some (Inl e) \<in> results (update_status_once env obj fn rc) \<Longrightarrow> \<not> is_Panic e" for rc e
    unfolding update_status_once_def get_latest_def
    using errors(6) errors(1) [of _ "the_kind (kind_of obj)"] by (auto dest!: results_bindD split: sum.splits if_splits)
  then show "safe (UpdateStatusWithRetry env obj fn)"
    unfolding safe_def UpdateStatusWithRetry_def by (blast dest: update_status.results_loop)
  have "Some (Inl e) \<in> results (remove_finalizer_once env obj f rc) \<Longrightarrow> \<not> is_Panic e" for rc e
    unfolding remove_finalizer_once_def get_latest_def
    using errors(4) errors(1) [of _ "the_kind (kind_of obj)"] by (auto dest!: results_bindD split: sum.splits if_splits)
  then show "safe (RemoveFinalizerWithRetry env obj f)"
    unfolding safe_def RemoveFinalizerWithRetry_def by (blast dest: remove_finalizer.results_loop)
qed

lemma safe_logged [safe_intro]: "safe m \<Longrightarrow> safe (logged m)"
  unfolding logged_def by (intro safe_intro) (auto dest: safeD)

lemma safe_StartSync: "safe (StartSync b v)"
proof -
  have start: "safe (startSyncCommon name ns spec interval)" for name ns spec interval
    unfolding startSyncCommon_def by (intro safe_intro) simp_all
  show ?thesis
    unfolding StartSync_def StartSyncForSharedVolume_def StartSyncForClusterSharedVolume_def
    by (cases "vo_type v") (auto intro!: safe_intro start dest: ParseDuration_not_panic)
qed

lemma safe_readiness:
  assumes "answers env" and "NfsServer (vo_Spec v) \<noteq> None"
    and "\<forall>cb v. onReady = Some cb \<or> onNotReady = Some cb \<longrightarrow> safe (cb v)"
  shows "safe (CheckResourceReadiness env v ns onReady onNotReady)"
proof -
  note client = safe_client [OF assms(1)]
  have "safe (IsPVCReady env v ns)" "safe (IsReplicaSetReady env v ns)"
    unfolding IsPVCReady_def IsReplicaSetReady_def
    by (intro safe_intro; auto simp: IgnoreNotFound_Some dest: client(1) [THEN safeD])+
  moreover have "safe (update_if_needed env v a c onReady onNotReady)" for a c
    unfolding update_if_needed_def UpdateReadinessStatus_def
    by (intro safe_intro safe_retry [OF assms(1)] client assms(3) [rule_format]; simp split: if_splits)
  ultimately show ?thesis
    unfolding CheckResourceReadiness_def
    by (intro safe_intro safe_check_server [OF assms(1,2)]) simp_all
qed

lemma safe_cleanup: "safe (CleanupResources env b v)"
proof -
  have "safe (wait_for_pvs env ref deadline n)" for ref deadline n
    by (induction n) (auto intro!: safe_intro)
  then have "safe (CleanupAllPVsWithWait env v ref)" for ref
    unfolding CleanupAllPVsWithWait_def by (intro safe_intro)
  then show ?thesis
    unfolding CleanupResources_def CleanupResourcesInNamespace_def by (intro safe_intro) simp_all
qed

lemma safe_finalizer:
  assumes "answers env"
  shows "safe (HandleFinalizerLogic env b v f)" "safe (EnsureControllerNamespace env b)"
  unfolding HandleFinalizerLogic_def handleDeletion_def ensureFinalizer_def EnsureControllerNamespace_def
  by (intro safe_intro safe_cleanup safe_retry [OF assms] safe_client [OF assms];
      auto dest: safe_client(1) [OF assms, THEN safeD])+

lemma filled_pointers:
  assumes "FillAndValidateSpec v g ns = (v', None)"
  shows "Storage (vo_Spec v') \<noteq> None" and "NfsServer (vo_Spec v) \<noteq> None \<Longrightarrow> NfsServer (vo_Spec v') \<noteq> None"
  using assms unfolding FillAndValidateSpec_def fill_namespace_def fill_sync_def fill_nfs_path_def GetVolumeSpec_def
  by (auto simp: Let_def split: option.splits if_splits)

lemma safe_reconcile_filled:
  assumes "answers env" and "keeps_pointers env"
    and "\<forall>cb v. onReady = Some cb \<or> onNotReady = Some cb \<longrightarrow> safe (cb v)"
  shows "safe (reconcile_filled env b v ns onReady onNotReady)"
proof -
  note client = safe_client [OF assms(1)]
  have server: "safe (reconcile_with_server env b v ns p onReady onNotReady)" if "pointers_set v" for v p
    unfolding reconcile_with_server_def using that
    by (intro safe_intro client safe_resources [OF assms(1)] safe_StartSync safe_readiness [OF assms(1) _ assms(3)])
       (auto simp: pointers_set_def)
  have complete: "safe (ReconcileNfsServerComplete env b v ns g p onReady onNotReady)"
    if "Storage (vo_Spec v) \<noteq> None" "\<not> g \<Longrightarrow> NfsServer (vo_Spec v) \<noteq> None" for v g p
  proof -
    have "safe (if g then GenerateAndCreateNfsServer env v p ns else ret (Inr (0, v)))"
      using safe_generate(1) [OF assms(1,2)] that(1) by (auto intro: safe_ret)
    moreover have "pointers_set u"
      if "Inr (q, u) \<in> results (if g then GenerateAndCreateNfsServer env v p ns else ret (Inr (0, v)))" for q u
    proof (cases g)
      case True
      with that show ?thesis
        using safe_generate(2) [OF assms(1,2) \<open>Storage (vo_Spec v) \<noteq> None\<close>] by simp
    next
      case False
      with that \<open>Storage (vo_Spec v) \<noteq> None\<close> \<open>\<not> g \<Longrightarrow> NfsServer (vo_Spec v) \<noteq> None\<close> show ?thesis
        by (simp add: pointers_set_def)
    qed
    ultimately show ?thesis
      unfolding ReconcileNfsServerComplete_def
      by (intro safe_intro safe_reconcile_server(1) [OF assms(1)] server)
         (auto dest: safe_reconcile_server(2) [OF assms(1)])
  qed
  have fill: "snd (FillAndValidateSpec v g ns) = Some err \<Longrightarrow> \<not> is_Panic err" for g err
    unfolding FillAndValidateSpec_def by (auto simp: Let_def split: option.splits if_splits)
  show ?thesis
    unfolding reconcile_filled_def Let_def
  proof (intro safe_intro)
    fix u o1 err e
    assume "FillAndValidateSpec v (NfsServer (GetVolumeSpec v) = None) ns = (u, o1)" "o1 = Some err"
      "(case IgnoreNotFound err of None \<Rightarrow> Inr 0 | Some err \<Rightarrow> Inl err) = Inl e"
    with fill [of _ err] show "\<not> is_Panic e"
      by (auto simp: IgnoreNotFound_Some split: option.splits) (metis snd_conv)
  next
    fix u o1
    assume "FillAndValidateSpec v (NfsServer (GetVolumeSpec v) = None) ns = (u, o1)" "o1 = None"
    then show "safe (ReconcileNfsServerComplete env b u ns (NfsServer (GetVolumeSpec v) = None) ''sv'' onReady onNotReady)"
      by (intro complete) (auto dest: filled_pointers simp: GetVolumeSpec_def)
  qed
qed

text \<open>
  C8. A reconciliation never panics: if the server and the quantity parser return, and the server
  stores the NFS server and the storage of an updated volume, the pointers the code
  dereferences without a test are set whenever it gets there, on every path.
\<close>

theorem reconcile_panic_free:
  assumes "answers env" and "keeps_pointers env"
    and "run_state (ReconcileGeneric env b ns n config) w = (Inl e, w')"
  shows "\<not> is_Panic e"
proof -
  have callbacks: "\<forall>cb v. Some (CreateSyncReadyCallback b) = Some cb \<or> Some (CreateSyncNotReadyCallback b) = Some cb
      \<longrightarrow> safe (cb v)"
    using safe_StartSync [of b]
    by (auto simp: CreateSyncReadyCallback_def CreateSyncNotReadyCallback_def intro!: safe_intro)
  have "safe (ReconcileGeneric env b ns n config)"
    unfolding ReconcileGeneric_def ReconcileVolume_def
    by (intro safe_intro safe_finalizer [OF assms(1)] safe_reconcile_filled [OF assms(1,2)] callbacks)
       (auto simp: IgnoreNotFound_Some split: option.splits dest: safe_client(2) [OF assms(1), THEN safeD])
  then show ?thesis
    using assms(3) resultsI by (metis safeD)
qed

text \<open>A volume without a mount path, which the API server may still hold.\<close>

definition unfilled_volume :: VolumeObject where
  "unfilled_volume = set_spec (sample_spec\<lparr>MountPath := []\<rparr>) sample_volume"

lemma answers_store_env: "answers store_env"
proof -
  have "fst (store_api rq s) = RError e \<Longrightarrow> \<not> is_Panic e" for rq s e
    by (cases rq) (auto split: if_splits option.splits)
  then show ?thesis by (simp add: answers_def store_env_def)
qed

lemma keeps_pointers_store_env: "keeps_pointers store_env"
  by (auto simp: keeps_pointers_def store_env_def split: if_splits)

theorem reconcile_panic_free_witness:
  "\<exists>e w'. run_state (ReconcileGeneric store_env sample_base ''team'' ''vol'' (sv_config ''team'')) (world_of [OVolume unfilled_volume])
      = (Inl e, w') \<and> \<not> is_Panic e"
proof -
  have "\<exists>e w'. run_state (ReconcileGeneric store_env sample_base ''team'' ''vol'' (sv_config ''team''))
      (world_of [OVolume unfilled_volume]) = (Inl e, w')"
    by (simp add: ReconcileGeneric_def ReconcileVolume_def sv_config_def GetVolume_def UpdateVolume_def client_simps
        store_simps unfilled_volume_def sample_volume_simps EnsureAPIVersionAndKind_def EnsureControllerNamespace_def
        sample_base_def HandleFinalizerLogic_def ensureFinalizer_def reconcile_filled_def FillAndValidateSpec_def
        fill_namespace_def GetVolumeSpec_def IgnoreNotFound_def Let_def)
  then show ?thesis
    using reconcile_panic_free [OF answers_store_env keeps_pointers_store_env] by blast
qed

section \<open>The timers of a running system\<close>

text \<open>Programs that keep the timers in order.\<close>

definition timers_kept :: "'w world \<Rightarrow> 'w world \<Rightarrow> bool" where
  "timers_kept w w' \<longleftrightarrow> (timers_ok w \<longrightarrow> timers_ok w')"

lemma same_timers_kept: "keeps same_timers m \<Longrightarrow> keeps timers_kept m"
  by (rule keeps_mono, assumption) (simp add: timers_kept_def same_timers_ok)

interpretation timers_kept: world_preorder "timers_kept :: 'w world \<Rightarrow> 'w world \<Rightarrow> bool"
  by unfold_locales
     (auto simp: timers_kept_def intro: same_timers_kept same_timers.keeps_api_call same_timers.keeps_http_post
       same_timers.keeps_time_Sleep same_timers.keeps_rand_Intn)

lemma settles_kept:
  assumes "settles_timer {} key P m"
  shows "keeps timers_kept m"
  unfolding keeps_def timers_kept_def
  using settles_timerD [OF assms _ surjective_pairing] by blast

lemma start_stop_kept [keeps_intro]:
  "keeps timers_kept (StartSyncForSharedVolume v)" "keeps timers_kept (StartSyncForClusterSharedVolume v)"
  "keeps timers_kept (StopSyncForSharedVolume v)" "keeps timers_kept (StopSyncForClusterSharedVolume v)"
  using settles_kept [OF StartSyncForSharedVolume_settles [OF empty_subsetI]]
    settles_kept [OF StartSyncForClusterSharedVolume_settles] settles_kept [OF settles_stop [OF empty_subsetI]]
  by (auto simp: StopSyncForSharedVolume_def StopSyncForClusterSharedVolume_def)

lemma kept_sync [keeps_intro]:
  "keeps timers_kept (StartSync b v)" "keeps timers_kept (StopSync b v)"
  "keeps timers_kept (CreateSyncReadyCallback b v)" "keeps timers_kept (CreateSyncNotReadyCallback b v)"
proof -
  show "keeps timers_kept (StartSync b v)" "keeps timers_kept (StopSync b v)"
    unfolding StartSync_def StopSync_def by (cases "vo_type v"; auto intro!: keeps_intro)+
  then show "keeps timers_kept (CreateSyncReadyCallback b v)" "keeps timers_kept (CreateSyncNotReadyCallback b v)"
    unfolding CreateSyncReadyCallback_def CreateSyncNotReadyCallback_def by (auto intro!: keeps_intro)
qed

lemma kept_retry [keeps_intro]:
  "keeps timers_kept (UpdateStatusWithRetry env obj fn)" "keeps timers_kept (RemoveFinalizerWithRetry env obj f)"
  unfolding UpdateStatusWithRetry_def RemoveFinalizerWithRetry_def
    update_status_once_def remove_finalizer_once_def get_latest_def
  by (rule update_status.keeps_loop [OF timers_kept.step_preorder_axioms],
      unfold update_status_once_def get_latest_def, intro keeps_intro)
     (rule remove_finalizer.keeps_loop [OF timers_kept.step_preorder_axioms],
      unfold remove_finalizer_once_def get_latest_def, intro keeps_intro)

lemma kept_logged [keeps_intro]: "keeps timers_kept m \<Longrightarrow> keeps timers_kept (logged m)"
  unfolding logged_def by (intro keeps_intro)

lemma kept_RandString [keeps_intro]: "keeps timers_kept (RandString env n)"
  by (induction n) (auto intro!: keeps_intro)

lemma kept_cleanup [keeps_intro]: "keeps timers_kept (CleanupResources env b v)"
  unfolding CleanupResources_def CleanupResourcesInNamespace_def
  by (intro keeps_intro same_timers_passes [THEN same_timers_kept])

lemma kept_readiness [keeps_intro]:
  "keeps timers_kept (CheckResourceReadiness env v ns (Some (CreateSyncReadyCallback b)) (Some (CreateSyncNotReadyCallback b)))"
  unfolding CheckResourceReadiness_def update_if_needed_def UpdateReadinessStatus_def CheckNfsServerStatus_def
    IsPVCReady_def IsReplicaSetReady_def
  by (intro keeps_intro) (auto split: if_splits intro: keeps_intro)

lemma kept_resources [keeps_intro]:
  "keeps timers_kept (ReconcileRequiredResources env v ns)" "keeps timers_kept (GenerateAndCreateNfsServer env v p ns)"
  "keeps timers_kept (ReconcileNfsServer env v g ns)" "keeps timers_kept (EnsureControllerNamespace env b)"
  unfolding ReconcileRequiredResources_def ReconcilePersistentVolume_def ReconcilePersistentVolumeClaim_def
    ReconcileReplicaSet_def ReconcileService_def GenerateAndCreateNfsServer_def reference_value_def
    CreateAndOwnNfsServer_def ReconcileNfsServer_def CheckAndUpdateNfsServerStatus_def CheckNfsServerStatus_def
    EnsureControllerNamespace_def
  by (intro keeps_intro)+

lemma kept_reconcile: "keeps timers_kept (ReconcileGeneric env b ns n config)"
  unfolding ReconcileGeneric_def ReconcileVolume_def HandleFinalizerLogic_def handleDeletion_def ensureFinalizer_def
    reconcile_filled_def ReconcileNfsServerComplete_def reconcile_with_server_def
  by (intro keeps_intro)

lemma kept_recovery: "keeps timers_kept (RecoverSyncOperations env)"
  unfolding RecoverSyncOperations_def by (intro keeps_intro)

text \<open>
  The steps of a running controller, each run to its end before the next: reconciliations of either
  kind, the recovery at the start, and the callback of a timer that fires.
\<close>

inductive system_steps :: "'w env \<Rightarrow> VolumeControllerBase \<Rightarrow> 'w world \<Rightarrow> 'w world \<Rightarrow> bool" for env b where
  none: "system_steps env b w w"
| shared: "system_steps env b w w1 \<Longrightarrow> run_state (Reconcile_SharedVolume env b ns n) w1 = (r, w')
     \<Longrightarrow> system_steps env b w w'"
| cluster: "system_steps env b w w1 \<Longrightarrow> run_state (Reconcile_ClusterSharedVolume env b ns n) w1 = (r, w')
     \<Longrightarrow> system_steps env b w w'"
| recovery: "system_steps env b w w1 \<Longrightarrow> run_state (Start env (recover_sync env b) cancelled rn) w1 = (q, w')
     \<Longrightarrow> system_steps env b w w'"
| fire: "system_steps env b w w1 \<Longrightarrow> w_pending w1 = xs @ (i, cl) # ys
     \<Longrightarrow> run_state (run_closure env cl) (w1\<lparr>w_pending := xs @ ys\<rparr>) = (u, w') \<Longrightarrow> system_steps env b w w'"

lemma kept_run: "keeps timers_kept m \<Longrightarrow> run_state m w = (r, w') \<Longrightarrow> timers_ok w \<Longrightarrow> timers_ok w'"
  using keepsD unfolding timers_kept_def by metis

lemma kept_Start: "keeps timers_kept (Start env (recover_sync env b) cancelled rn)"
  unfolding Start_def recover_sync_def by (intro keeps_intro kept_recovery)

text \<open>
  C9. Through any sequence of reconciliations of both kinds, recoveries and timer callbacks, each run to
  its end, and whatever the servers answer, every pending timer is the registered one of its
  volume and no volume has two.
\<close>

theorem system_keeps_one_timer:
  assumes "system_steps env b w w'" and "timers_ok w"
  shows "timers_ok w' \<and> length (timers_for key w') \<le> 1"
proof -
  have "timers_ok w'"
    using assms
  proof (induction rule: system_steps.induct)
    case (none w)
    then show ?case .
  next
    case (shared w w1 ns n r w')
    then show ?case
      using kept_run [OF kept_reconcile] unfolding Reconcile_SharedVolume_def by blast
  next
    case (cluster w w1 ns n r w')
    then show ?case
      using kept_run [OF kept_reconcile] unfolding Reconcile_ClusterSharedVolume_def by blast
  next
    case (recovery w w1 cancelled rn q w')
    then show ?case using kept_run [OF kept_Start] by blast
  next
    case (fire w w1 xs i cl ys u w')
    then show ?case using fire_step_ok by blast
  qed
  then show ?thesis using timers_for_unique by blast
qed

theorem system_keeps_one_timer_witness:
  "length (timers_for ''team/vol'' (snd (run_state (Reconcile_SharedVolume store_env sample_base ''team'' ''vol'')
     (world_of [OVolume ready_volume])))) \<le> 1"
  by (rule system_keeps_one_timer [THEN conjunct2, OF system_steps.shared [OF system_steps.none surjective_pairing]
        timers_ok_world_of])

section \<open>Cluster volumes and their namespace\<close>

fun posts_only_to :: "string \<Rightarrow> event \<Rightarrow> bool" where
  "posts_only_to url (EPost u rq rp) = (u = url)"
| "posts_only_to url _ = True"

fun creates_service_in :: "string \<Rightarrow> event \<Rightarrow> bool" where
  "creates_service_in ns (EApi (CreateReq (OService svc)) _) = (om_Namespace (svc_Meta svc) = ns)"
| "creates_service_in ns _ = True"

lemma sync_call_posts_only: "sync_call ns url e \<Longrightarrow> posts_only_to url e"
  by (cases "(ns, url, e)" rule: sync_call.cases) auto

lemma scheduled_posts_only: "emits (posts_only_to (sync_url (ReferenceValue spec) ns)) (scheduledSyncCommon env name ns spec interval)"
proof -
  let ?P = "posts_only_to (sync_url (ReferenceValue spec) ns)"
  have read: "emits ?P (plain_secret env f m d sel)" "emits ?P (private_key env f d sel)" for f m d sel
    unfolding plain_secret_def private_key_def wrap_err_def getSecretValue_def getPrivateKeyFromSecret_def
    by (intro keeps_intro; simp)+
  have "emits ?P (buildSyncRequestCommon env name ns spec)"
    unfolding buildSyncRequestCommon_def buildSSHSyncRequestCommon_def buildGitSyncRequestCommon_def
      buildS3SyncRequestCommon_def ssh_request_def http_request_def git_request_def s3_request_def
    by (intro keeps_intro read; simp)
  then have "emits ?P (triggerSyncCommon env name ns spec)"
    unfolding triggerSyncCommon_def wrap_err_def send_sync_def by (intro keeps_intro) simp_all
  then show ?thesis
    unfolding scheduledSyncCommon_def volume_still_exists_def finishScheduledSync_def sync_if_source_def reschedule_def
      time_AfterFunc_def set_timer_def
    by (intro keeps_intro stop_emits) (simp_all add: keeps_def grows_def)
qed

lemma service_calls_allowed: "allows env ns (creates_service_in ns)"
proof -
  have "creates_service_in ns (EApi rq rp)" if "\<And>svc. rq \<noteq> CreateReq (OService svc)" for rq rp
    using that by (cases "(ns, EApi rq rp)" rule: creates_service_in.cases) auto
  then show ?thesis
    by (simp add: allows_def service_object_def Let_def)
qed

lemma reconcile_creates_service_in: "emits (creates_service_in (Namespace config)) (ReconcileGeneric env b req_ns n config)"
proof -
  let ?P = "creates_service_in (Namespace config)"
  have weaken: "\<not> creates_resource e \<Longrightarrow> ?P e" for e
    by (cases "(Namespace config, e)" rule: creates_service_in.cases) auto
  have "emits ?P (reconcile_filled env b v (Namespace config) (Some (CreateSyncReadyCallback b)) (Some (CreateSyncNotReadyCallback b)))" for v
    by (rule allowed_reconcile_sync [OF service_calls_allowed])
  then show ?thesis
    unfolding ReconcileGeneric_def ReconcileVolume_def
    by (intro keeps_intro emits_weaken [OF finalizer_logic_creates_nothing weaken]
          emits_weaken [OF namespace_creates_no_resource weaken]) simp_all
qed

lemma sync_url_inject: "sync_url ref ns = sync_url ref ns' \<longleftrightarrow> ns = ns'"
  by (simp add: sync_url_def)

lemma sync_url_dot_free:
  assumes "CHR ''.'' \<notin> set ref" and "CHR ''.'' \<notin> set ref'" and "sync_url ref ns = sync_url ref' ns'"
  shows "ns = ns'"
proof -
  have "takeWhile (\<lambda>c. c \<noteq> CHR ''.'') (a @ ''.'' @ b) = a" if "CHR ''.'' \<notin> set a" for a b
    using that by (subst takeWhile_append2) auto
  moreover have "ref @ ''.'' @ ns @ rest = ref' @ ''.'' @ ns' @ rest" if "rest = ''.svc.cluster.local:8080/api/1.0/sync''" for rest
    using assms(3) that by (simp add: sync_url_def)
  ultimately have "ref = ref'"
    using assms(1,2) by metis
  with assms(3) show ?thesis by (simp add: sync_url_inject)
qed

text \<open>
  C39. The timer started for a cluster volume posts only to the service named after its reference value
  in the resource namespace of its specification, but every service that a reconciliation of a
  cluster volume creates, its own included, is in the namespace shared-volume-controller: for
  any other resource namespace the URL posted to is none of theirs. (A \<open>SharedVolume\<close> of that
  namespace with the same reference value would have such a service.)
\<close>

theorem cluster_sync_wrong_service:
  assumes "timers_ok w" and "run_state (StartSyncForClusterSharedVolume csv) w = (Inr (), w')"
    and "vo_type csv = ClusterSharedVolume" and "ResourceNamespace (vo_Spec csv) \<noteq> Namespace csv_config"
    and "(i, cl) \<in> set (timers_for (sync_key csv) w')"
    and "url = ''http://'' @ ReferenceValue (vo_Spec csv) @ ''.'' @ ResourceNamespace (vo_Spec csv)
       @ ''.svc.cluster.local:8080/api/1.0/sync''"
  shows "emits (posts_only_to url) (run_closure env cl)
    \<and> emits (creates_service_in ''shared-volume-controller'') (Reconcile_ClusterSharedVolume env b req_ns n)
    \<and> url \<noteq> sync_url (ReferenceValue (vo_Spec csv)) ''shared-volume-controller''
    \<and> (\<forall>ref. CHR ''.'' \<notin> set ref \<and> CHR ''.'' \<notin> set (ReferenceValue (vo_Spec csv)) \<longrightarrow> url \<noteq> sync_url ref ''shared-volume-controller'')"
proof -
  let ?ns = "ResourceNamespace (vo_Spec csv)"
  have key: "sync_key csv = volume_key ?ns (GetName csv)"
    by (simp add: assms(3))
  have "cl = RunScheduledSyncCommon (GetName csv) ?ns (vo_Spec csv) interval"
    if "run_state (do { _ \<leftarrow> stopSyncTimer (volume_key ?ns (GetName csv));
          startSyncCommon (GetName csv) ?ns (vo_Spec csv) interval }) w = (Inr (), w')" for interval
    using settles_timerD [OF startSync_after_stop [OF HOL.refl empty_subsetI] assms(1) that] assms(5) key by auto
  moreover have "timers_for (sync_key csv) w' = []"
    if "run_state (do { _ \<leftarrow> stopSyncTimer (volume_key ?ns (GetName csv)); ret (Inr () :: error + unit) }) w = (Inr (), w')"
    using settles_timerD [OF settles_then_same [OF settles_stop [OF empty_subsetI] same_timers.keeps_ret] assms(1) that] key
    by simp
  ultimately obtain interval where "cl = RunScheduledSyncCommon (GetName csv) ?ns (vo_Spec csv) interval"
    using assms(2,5) unfolding StartSyncForClusterSharedVolume_def StopSyncForClusterSharedVolume_def
    by (auto split: if_splits sum.splits)
  moreover have url: "url = sync_url (ReferenceValue (vo_Spec csv)) ?ns" and ns: "Namespace csv_config = ''shared-volume-controller''"
    by (simp_all add: assms(6) sync_url_def csv_config_def)
  ultimately have "emits (posts_only_to url) (run_closure env cl)"
    by (simp add: scheduled_posts_only)
  moreover have "url \<noteq> sync_url ref ''shared-volume-controller''"
    if "CHR ''.'' \<notin> set ref" "CHR ''.'' \<notin> set (ReferenceValue (vo_Spec csv))" for ref
    using sync_url_dot_free [OF that(2,1)] assms(4) by (auto simp: url ns)
  ultimately show ?thesis
    using reconcile_creates_service_in [of csv_config] assms(4)
    unfolding Reconcile_ClusterSharedVolume_def by (auto simp: ns url sync_url_inject)
qed

theorem cluster_sync_wrong_service_witness:
  "emits (posts_only_to (sync_url ''sv-a1'' ''team''))
       (run_closure store_env (RunScheduledSyncCommon ''vol'' ''team'' (vo_Spec cluster_volume) 60000000000))
   \<and> sync_url ''sv-a1'' ''team'' \<noteq> sync_url ''sv-a1'' ''shared-volume-controller''"
proof -
  have csv: "vo_type cluster_volume = ClusterSharedVolume" "ResourceNamespace (vo_Spec cluster_volume) = ''team''"
    "ReferenceValue (vo_Spec cluster_volume) = ''sv-a1''" "GetName cluster_volume = ''vol''"
    "SyncInterval (vo_Spec cluster_volume) = ''60s''" "hasValidSource (vo_Spec cluster_volume)"
    by (simp_all add: cluster_volume_def ready_volume_def sample_volume_simps volume_accessors hasValidSource_def)
  let ?r = "run_state (StartSyncForClusterSharedVolume cluster_volume) (world_of ([] :: store))"
  have fst: "fst ?r = Inr ()" and pending: "(0, RunScheduledSyncCommon ''vol'' ''team'' (vo_Spec cluster_volume) 60000000000)
      \<in> set (timers_for (sync_key cluster_volume) (snd ?r))"
    by (simp_all add: StartSyncForClusterSharedVolume_def StopSyncForClusterSharedVolume_def startSyncCommon_def Let_def
        run_stopSyncTimer time_AfterFunc_def set_timer_def csv ParseDuration_60s world_of_def timers_for_def)
  from fst have "?r = (Inr (), snd ?r)"
    by (simp add: prod_eq_iff)
  from cluster_sync_wrong_service [OF timers_ok_world_of this csv(1) _ pending HOL.refl, of store_env]
  show ?thesis by (simp add: csv csv_config_def sync_url_def)
qed

text \<open>
  A stored cluster volume without a resource namespace is started under the namespace filled in
  for the reconciliation, but its cleanup stops the key with the empty namespace.
\<close>

lemma cleanup_misses_filled_key:
  assumes "timers_ok w" and "has_SyncController b" and "vo_type csv = ClusterSharedVolume"
    and "ResourceNamespace (vo_Spec csv) = []" and "ns \<noteq> []" and "CHR ''/'' \<notin> set ns"
    and "run_state (CleanupResources env b csv) w = (r, w')"
  shows "timers_for (volume_key ns (GetName csv)) w' = timers_for (volume_key ns (GetName csv)) w"
proof -
  have "volume_key ns (GetName csv) \<noteq> sync_key csv"
    using volume_key_inj [of ns "GetName csv" "[]"] assms(3-6) by auto
  then show ?thesis
    using settles_timerD [OF CleanupResources_settles [OF assms(2)] assms(1,7)] by blast
qed

end
