(* ===== verification/Convergence.thy ===== *)
theory Convergence
  imports Reconcile
begin

text \<open>
  Progress: when everything a volume needs is there and ready, one reconciliation makes the volume
  ready, starts its sync and asks for no requeue. The calls that only read are described by the
  judgement \<open>finds\<close>, whose rules follow the code line by line.
\<close>

section \<open>Reads of a store\<close>

text \<open>\<open>finds s m x\<close>: from a server in state \<open>s\<close> the run of \<open>m\<close> returns \<open>x\<close> and only adds to the history.\<close>

definition finds :: "'w \<Rightarrow> ('w, 'a) prog \<Rightarrow> 'a \<Rightarrow> bool" where
  "finds s m x \<longleftrightarrow> (\<forall>w. w_srv w = s \<longrightarrow> (\<exists>h. run_state m w = (x, w\<lparr>w_hist := h\<rparr>)))"

named_theorems finds_intro \<open>rules of the judgement finds\<close>

lemma findsI: "(\<And>w. w_srv w = s \<Longrightarrow> \<exists>h. run_state m w = (x, w\<lparr>w_hist := h\<rparr>)) \<Longrightarrow> finds s m x"
  by (simp add: finds_def)

lemma findsD: "finds s m x \<Longrightarrow> w_srv w = s \<Longrightarrow> \<exists>h. run_state m w = (x, w\<lparr>w_hist := h\<rparr>)"
  by (simp add: finds_def)

lemma finds_ret [finds_intro]: "finds s (ret x) x"
proof (rule findsI)
  show "\<exists>h. run_state (ret x) w = (x, w\<lparr>w_hist := h\<rparr>)" for w :: "'a world"
    by (rule exI [of _ "w_hist w"]) simp
qed

lemma finds_bind:
  assumes "finds s m x" and "finds s (f x) y"
  shows "finds s (State_Monad.bind m f) y"
proof (rule findsI)
  fix w :: "'a world" assume w: "w_srv w = s"
  obtain h where h: "run_state m w = (x, w\<lparr>w_hist := h\<rparr>)"
    using findsD [OF assms(1) w] by blast
  obtain h' where "run_state (f x) (w\<lparr>w_hist := h\<rparr>) = (y, w\<lparr>w_hist := h'\<rparr>)"
    using findsD [OF assms(2), of "w\<lparr>w_hist := h\<rparr>"] w by auto
  with h have "run_state (State_Monad.bind m f) w = (y, w\<lparr>w_hist := h'\<rparr>)"
    by simp
  then show "\<exists>h. run_state (State_Monad.bind m f) w = (y, w\<lparr>w_hist := h\<rparr>)" ..
qed

lemma finds_bindE: "finds s m (Inr x) \<Longrightarrow> finds s (f x) y \<Longrightarrow> finds s (bindE m f) y"
  unfolding bindE_def by (rule finds_bind [where x = "Inr x"]) simp_all

lemma finds_Get:
  assumes "stores env objs" and "objs s (k, ns, n) = Some obj" and "dec obj = Some y"
  shows "finds s (Get_as dec env k ns n) (Inr y)"
  using assms(2,3) by (intro findsI) (auto simp: run_stored_Get [OF assms(1)] as_object_def)

lemma finds_GetVolume:
  "stores env objs \<Longrightarrow> objs s (KVolume t, ns, n) = Some (OVolume v) \<Longrightarrow> vo_type v = t
     \<Longrightarrow> finds s (GetVolume env t ns n) (Inr v)"
  unfolding GetVolume_def by (rule finds_Get [where objs = objs]) (simp_all add: the_volume_Some)

section \<open>Everything ready\<close>

text \<open>
  The server of a volume is external or stored and ready; its volume, claim, ReplicaSet and service
  are stored, the claim bound, the ReplicaSet with all its replicas, the ports as wanted.
\<close>

definition server_ready :: "(key \<Rightarrow> kobj option) \<Rightarrow> VolumeObject \<Rightarrow> string \<Rightarrow> bool" where
  "server_ready store v ns \<longleftrightarrow>
     (\<exists>nfs. NfsServer (vo_Spec v) = Some nfs
        \<and> (IsExternalNfsServer (Some nfs)
           \<or> (\<exists>srv. store (KNfsServer, if nfs_Namespace nfs \<noteq> [] then nfs_Namespace nfs else ns, nfs_Name nfs)
                = Some (ONfsServer srv) \<and> ns_Ready srv)))"

definition resources_ready :: "(key \<Rightarrow> kobj option) \<Rightarrow> string \<Rightarrow> string \<Rightarrow> bool" where
  "resources_ready store ref ns \<longleftrightarrow>
     store (KPersistentVolume, [], ''pv-'' @ ref) \<noteq> None
     \<and> (\<exists>pvc. store (KPersistentVolumeClaim, ns, ref) = Some (OPersistentVolumeClaim pvc) \<and> pvc_Phase pvc = ''Bound'')
     \<and> (\<exists>rs. store (KReplicaSet, ns, ref) = Some (OReplicaSet rs) \<and> \<not> replica_set_outdated rs
          \<and> rs_Replicas rs = Some (rs_ReadyReplicas rs))
     \<and> (\<exists>svc. store (KService, ns, ref) = Some (OService svc) \<and> \<not> service_outdated svc)"

lemma is_namespace: "kind_of obj = KNamespace \<Longrightarrow> \<exists>n. obj = ONamespace n"
  by (cases obj) auto

lemma finds_namespace:
  assumes "stores env objs" and "objs s (KNamespace, [], ControllerNamespace b) \<noteq> None"
  shows "finds s (EnsureControllerNamespace env b) (Inr ())"
proof -
  obtain n where "objs s (KNamespace, [], ControllerNamespace b) = Some (ONamespace n)"
    using assms(2) stored_kind [OF assms(1)] is_namespace by blast
  then have "finds s (GetNamespaceObj env (ControllerNamespace b)) (Inr n)"
    by (rule finds_Get [OF assms(1)]) simp
  then show ?thesis
    unfolding EnsureControllerNamespace_def by (rule finds_bind) (simp add: finds_ret)
qed

lemma finds_server:
  assumes "stores env objs" and "server_ready (objs s) v ns"
  shows "\<exists>msg. finds s (CheckNfsServerStatus env v ns) (Inr (True, [], msg))"
proof -
  obtain nfs where nfs: "NfsServer (vo_Spec v) = Some nfs"
    and or: "IsExternalNfsServer (Some nfs)
      \<or> (\<exists>srv. objs s (KNfsServer, if nfs_Namespace nfs \<noteq> [] then nfs_Namespace nfs else ns, nfs_Name nfs)
           = Some (ONfsServer srv) \<and> ns_Ready srv)"
    using assms(2) unfolding server_ready_def by blast
  show ?thesis
  proof (cases "IsExternalNfsServer (Some nfs)")
    case True
    with nfs show ?thesis
      by (auto simp: CheckNfsServerStatus_def GetVolumeSpec_def intro!: finds_ret)
  next
    case False
    with or obtain srv where srv: "ns_Ready srv"
      "objs s (KNfsServer, if nfs_Namespace nfs \<noteq> [] then nfs_Namespace nfs else ns, nfs_Name nfs) = Some (ONfsServer srv)"
      by blast
    have "finds s (GetNfsServer env (if nfs_Namespace nfs \<noteq> [] then nfs_Namespace nfs else ns) (nfs_Name nfs)) (Inr srv)"
      by (rule finds_Get [OF assms(1) srv(2)]) simp
    then have "finds s (CheckNfsServerStatus env v ns) (Inr (True, [], ''NfsServer is ready''))"
      using False srv(1) by (simp add: CheckNfsServerStatus_def GetVolumeSpec_def nfs finds_bind finds_ret)
    then show ?thesis ..
  qed
qed

lemma settled_finds:
  assumes "settles env objs k m" and "objs s k = Some x" and "up_to_date x"
  shows "finds s m (Inr ())"
  using assms(1) [unfolded settles_def, THEN conjunct2, rule_format, OF _ assms(3)] assms(2)
  by (intro findsI) blast

lemma finds_resources:
  assumes "stores env objs" and "resources_ready (objs s) (ReferenceValue (vo_Spec v)) ns" and "ReferenceValue (vo_Spec v) \<noteq> []"
  shows "finds s (ReconcileRequiredResources env v ns) (Inr ())"
    and "finds s (IsPVCReady env v ns) (Inr True)"
    and "finds s (IsReplicaSetReady env v ns) (Inr True)"
proof -
  obtain pv pvc rs svc where pv: "objs s (KPersistentVolume, [], ''pv-'' @ ReferenceValue (vo_Spec v)) = Some pv"
    and pvc: "objs s (KPersistentVolumeClaim, ns, ReferenceValue (vo_Spec v)) = Some (OPersistentVolumeClaim pvc)"
      "pvc_Phase pvc = ''Bound''"
    and rs: "objs s (KReplicaSet, ns, ReferenceValue (vo_Spec v)) = Some (OReplicaSet rs)" "\<not> replica_set_outdated rs"
      "rs_Replicas rs = Some (rs_ReadyReplicas rs)"
    and svc: "objs s (KService, ns, ReferenceValue (vo_Spec v)) = Some (OService svc)" "\<not> service_outdated svc"
    using assms(2) unfolding resources_ready_def by blast
  have "up_to_date pv"
    using is_the(1) [OF stored_kind [OF assms(1) pv]] by auto
  note settled = settled_finds [OF settles_PV [OF assms(1)], of s v pv ns]
    settled_finds [OF settles_PVC [OF assms(1)], of s ns v "OPersistentVolumeClaim pvc"]
    settled_finds [OF settles_RS [OF assms(1)], of s ns v "OReplicaSet rs"]
    settled_finds [OF settles_Service [OF assms(1)], of s ns v "OService svc"]
  show "finds s (ReconcileRequiredResources env v ns) (Inr ())"
    using assms(3) pv pvc rs svc \<open>up_to_date pv\<close>
    by (auto simp: ReconcileRequiredResources_def GetVolumeSpec_def pv_name_def intro!: finds_bindE settled finds_ret)
  have "finds s (GetPVC env ns (ReferenceValue (vo_Spec v))) (Inr pvc)"
    by (rule finds_Get [OF assms(1) pvc(1)]) simp
  then show "finds s (IsPVCReady env v ns) (Inr True)"
    using pvc(2) by (simp add: IsPVCReady_def GetVolumeSpec_def finds_bind finds_ret)
  have "finds s (GetReplicaSet env ns (ReferenceValue (vo_Spec v))) (Inr rs)"
    by (rule finds_Get [OF assms(1) rs(1)]) simp
  then show "finds s (IsReplicaSetReady env v ns) (Inr True)"
    using rs(3) by (simp add: IsReplicaSetReady_def GetVolumeSpec_def finds_bind finds_ret)
qed

section \<open>The steps of the last reconciliation\<close>

text \<open>
  The status update against a store: the object is replaced by one with the status given and a
  resource version of the server's choice.
\<close>

definition stores_status :: "'w env \<Rightarrow> ('w \<Rightarrow> key \<Rightarrow> kobj option) \<Rightarrow> bool" where
  "stores_status env objs \<longleftrightarrow>
     (\<forall>s v st. objs s (key_of (OVolume v)) = Some (OVolume v) \<longrightarrow>
        (\<exists>rv. fst (e_api env (StatusUpdateReq (OVolume (v\<lparr>vo_Status := st\<rparr>))) s)
                = RObject (OVolume (v\<lparr>vo_Status := st, vo_Meta := (vo_Meta v)\<lparr>om_ResourceVersion := rv\<rparr>\<rparr>))
            \<and> objs (snd (e_api env (StatusUpdateReq (OVolume (v\<lparr>vo_Status := st\<rparr>))) s))
                = (objs s)(key_of (OVolume v) \<mapsto>
                    OVolume (v\<lparr>vo_Status := st, vo_Meta := (vo_Meta v)\<lparr>om_ResourceVersion := rv\<rparr>\<rparr>))))"

text \<open>What the check of the server does to the volume in memory: its address, and the status but the phase.\<close>

definition seen :: "VolumeObject \<Rightarrow> VolumeObject \<Rightarrow> bool" where
  "seen u2 u \<longleftrightarrow> (\<exists>nfs url st. NfsServer (vo_Spec u) = Some nfs \<and> (IsExternalNfsServer (Some nfs) \<longrightarrow> url = nfs_URL nfs)
     \<and> u2 = u\<lparr>vo_Spec := (vo_Spec u)\<lparr>NfsServer := Some (nfs\<lparr>nfs_URL := url\<rparr>)\<rparr>, vo_Status := st\<rparr>
     \<and> Phase st = Phase (vo_Status u))"

lemma seen_refl: "NfsServer (vo_Spec u) = Some nfs \<Longrightarrow> seen u u"
  unfolding seen_def by (intro exI [of _ nfs] exI [of _ "nfs_URL nfs"] exI [of _ "vo_Status u"]) simp

lemma seen_ready: "seen u2 u \<Longrightarrow> server_ready store u ns \<Longrightarrow> server_ready store u2 ns"
  unfolding seen_def server_ready_def by auto

lemma seen_status: "NfsServer (vo_Spec u) = Some nfs \<Longrightarrow> Phase st = Phase (vo_Status u) \<Longrightarrow> seen (u\<lparr>vo_Status := st\<rparr>) u"
  unfolding seen_def by (intro exI [of _ nfs] exI [of _ "nfs_URL nfs"] exI [of _ st]) simp

lemma seen_address:
  "NfsServer (vo_Spec u) = Some nfs \<Longrightarrow> \<not> IsExternalNfsServer (Some nfs) \<Longrightarrow> Phase st = Phase (vo_Status u)
     \<Longrightarrow> seen (set_spec ((vo_Spec u)\<lparr>NfsServer := Some (nfs\<lparr>nfs_URL := url\<rparr>)\<rparr>) (u\<lparr>vo_Status := st\<rparr>)) u"
  unfolding seen_def by (intro exI [of _ nfs] exI [of _ url] exI [of _ st]) simp

lemma UpdateVolumeStatus_seen:
  assumes "NfsServer (vo_Spec u) = Some nfs"
  shows "seen (fst (UpdateVolumeStatus u True [] msg)) u"
proof -
  have message: "(if GetMessage u \<noteq> msg then (SetMessage msg u, True) else (u, False))
      = (u\<lparr>vo_Status := (vo_Status u)\<lparr>Message := msg\<rparr>\<rparr>, GetMessage u \<noteq> msg)"
    by (auto simp: volume_accessors)
  show ?thesis
    unfolding UpdateVolumeStatus_def Let_def
    by (auto simp: message assms GetVolumeSpec_def GetNfsServerAddress_def SetNfsServerAddress_def
        intro!: seen_status [OF assms] seen_address [OF assms])
qed

lemma finds_ReconcileNfsServer:
  assumes "stores env objs" and "server_ready (objs s) u ns"
  shows "\<exists>u2. finds s (ReconcileNfsServer env u False ns) (Inr (0, u2)) \<and> seen u2 u"
proof -
  obtain nfs where nfs: "NfsServer (vo_Spec u) = Some nfs"
    using assms(2) unfolding server_ready_def by blast
  obtain msg where "finds s (CheckNfsServerStatus env u ns) (Inr (True, [], msg))"
    using finds_server [OF assms] by blast
  then have check: "finds s (CheckAndUpdateNfsServerStatus env u ns) (Inr (0, fst (UpdateVolumeStatus u True [] msg)))"
    unfolding CheckAndUpdateNfsServerStatus_def
    by (rule finds_bindE) (simp add: Let_def split_beta finds_ret)
  show ?thesis
  proof (cases "\<not> IsExternalNfsServer (Some nfs) \<and> nfs_Name nfs \<noteq> []")
    case True
    with check UpdateVolumeStatus_seen [OF nfs] show ?thesis
      by (auto simp: ReconcileNfsServer_def GetVolumeSpec_def nfs)
  next
    case False
    then have "ReconcileNfsServer env u False ns = ret (Inr (0, u))"
      by (auto simp: ReconcileNfsServer_def GetVolumeSpec_def nfs)
    then show ?thesis
      using finds_ret [of s "Inr (0, u)"] seen_refl [OF nfs] by metis
  qed
qed

text \<open>Starting the sync of a volume that wants one leaves a timer for it.\<close>

definition wants_sync :: "VolumeControllerBase \<Rightarrow> VolumeSpecBase \<Rightarrow> bool" where
  "wants_sync b spec \<longleftrightarrow>
     has_SyncController b \<and> hasValidSource spec \<and> (\<exists>i. ParseDuration (SyncInterval spec) = Inr i)"

lemma run_startSyncCommon:
  "\<exists>w'. run_state (startSyncCommon name ns spec i) w = (Inr (), w') \<and> w_srv w' = w_srv w
     \<and> w_syncTimers w' (volume_key ns name) \<noteq> None"
  by (auto simp: startSyncCommon_def run_stopSyncTimer time_AfterFunc_def set_timer_def Let_def)

lemma stop_keeps_srv [simp]: "w_srv (snd (run_state (stopSyncTimer key) w)) = w_srv w"
  by (simp add: run_stopSyncTimer)

lemma run_logged_StartSync:
  "\<exists>w'. run_state (logged (StartSync b v)) w = (Inr (), w') \<and> w_srv w' = w_srv w
     \<and> (Phase (vo_Status v) = ''Ready'' \<and> wants_sync b (vo_Spec v) \<longrightarrow> w_syncTimers w' (sync_key v) \<noteq> None)"
proof -
  note defs = logged_def StartSync_def StartSyncForSharedVolume_def StartSyncForClusterSharedVolume_def
    StopSyncForSharedVolume_def StopSyncForClusterSharedVolume_def wants_sync_def
  let ?stopped = "snd (run_state (stopSyncTimer (sync_key v)) w)"
  show ?thesis
  proof (cases "ParseDuration (SyncInterval (vo_Spec v))")
    case (Inl e)
    then show ?thesis
      using ParseDuration_not_abort [OF Inl] by (cases "vo_type v") (auto simp: defs split_beta)
  next
    case (Inr i)
    obtain w1 w2 where
      1: "run_state (startSyncCommon (GetName v) (GetNamespace v) (vo_Spec v) i) ?stopped = (Inr (), w1)"
        "w_srv w1 = w_srv w" "w_syncTimers w1 (volume_key (GetNamespace v) (GetName v)) \<noteq> None" and
      2: "run_state (startSyncCommon (GetName v) (ResourceNamespace (vo_Spec v)) (vo_Spec v) i) ?stopped = (Inr (), w2)"
        "w_srv w2 = w_srv w" "w_syncTimers w2 (volume_key (ResourceNamespace (vo_Spec v)) (GetName v)) \<noteq> None"
      using run_startSyncCommon [of "GetName v" "GetNamespace v" "vo_Spec v" i ?stopped]
        run_startSyncCommon [of "GetName v" "ResourceNamespace (vo_Spec v)" "vo_Spec v" i ?stopped] by auto
    from 1 2 show ?thesis
      by (cases "vo_type v") (simp_all add: defs Inr split_beta, auto)
  qed
qed

text \<open>The readiness update of a stored volume, read back, with the callback that starts the sync.\<close>

lemma type_meta_kept:
  "vo_APIVersion (readiness_update spec n p v) = vo_APIVersion v" "vo_Kind (readiness_update spec n p v) = vo_Kind v"
proof -
  have message: "vo_APIVersion (readiness_message n p u) = vo_APIVersion u" "vo_Kind (readiness_message n p u) = vo_Kind u" for u
    by (simp_all add: readiness_message_def SetMessage_def)
  have address: "vo_APIVersion (record_address spec n u) = vo_APIVersion u" "vo_Kind (record_address spec n u) = vo_Kind u" for u
    by (simp_all add: record_address_def SetNfsServerAddress_def Let_def split: option.split)
  show "vo_APIVersion (readiness_update spec n p v) = vo_APIVersion v" "vo_Kind (readiness_update spec n p v) = vo_Kind v"
    by (simp_all add: readiness_update_def message address SetPhase_def)
qed

lemma readiness_update_status:
  "readiness_update spec n p v = v\<lparr>vo_Status := vo_Status (readiness_update spec n p v)\<rparr>"
  by (rule VolumeObject.equality) (simp_all add: type_meta_kept)

lemma run_UpdateStatus_stored:
  assumes "stores env objs" and "stores_status env objs"
    and stored: "objs (w_srv w) (key_of (OVolume v)) = Some (OVolume v)"
    and same: "key_of (OVolume u) = key_of (OVolume v)"
    and f: "f (OVolume v) = OVolume (v\<lparr>vo_Status := st\<rparr>)"
  shows "\<exists>rv w'. run_state (UpdateStatusWithRetry env (OVolume u) f) w
        = (Inr (OVolume (u\<lparr>vo_Meta := (vo_Meta u)\<lparr>om_ResourceVersion := rv\<rparr>\<rparr>)), w')
      \<and> objs (w_srv w') = (objs (w_srv w))(key_of (OVolume v) \<mapsto>
          OVolume (v\<lparr>vo_Status := st, vo_Meta := (vo_Meta v)\<lparr>om_ResourceVersion := rv\<rparr>\<rparr>))
      \<and> w_syncTimers w' = w_syncTimers w"
proof -
  let ?rq = "StatusUpdateReq (OVolume (v\<lparr>vo_Status := st\<rparr>))"
  from assms(2) stored obtain rv where
    rp: "fst (e_api env ?rq (w_srv w)) = RObject (OVolume (v\<lparr>vo_Status := st, vo_Meta := (vo_Meta v)\<lparr>om_ResourceVersion := rv\<rparr>\<rparr>))"
    and srv: "objs (snd (e_api env ?rq (w_srv w))) = (objs (w_srv w))(key_of (OVolume v) \<mapsto>
        OVolume (v\<lparr>vo_Status := st, vo_Meta := (vo_Meta v)\<lparr>om_ResourceVersion := rv\<rparr>\<rparr>))"
    unfolding stores_status_def by blast
  have "finds (w_srv w) (get_latest env (OVolume u)) (Inr (OVolume v))"
    unfolding get_latest_def using same stored
    by (intro finds_Get [OF assms(1), where obj = "OVolume v"]) (simp_all add: key_of_def)
  then obtain h where get: "run_state (get_latest env (OVolume u)) w = (Inr (OVolume v), w\<lparr>w_hist := h\<rparr>)"
    using findsD by fastforce
  have once: "run_state (update_status_once env (OVolume u) f 0) w
      = (Some (Inr (OVolume (u\<lparr>vo_Meta := (vo_Meta u)\<lparr>om_ResourceVersion := rv\<rparr>\<rparr>))),
         w\<lparr>w_srv := snd (e_api env ?rq (w_srv w)), w_hist := h @ [EApi ?rq (fst (e_api env ?rq (w_srv w)))]\<rparr>)"
    by (simp add: update_status_once_def get f StatusUpdate_def run_api_call rp as_object_def the_kind_def adopt_version_def)
  show ?thesis
    unfolding UpdateStatusWithRetry_def
    by (intro exI [of _ rv] exI [of _ "w\<lparr>w_srv := snd (e_api env ?rq (w_srv w)),
          w_hist := h @ [EApi ?rq (fst (e_api env ?rq (w_srv w)))]\<rparr>"] conjI, subst update_status_loop.simps)
       (simp_all add: once srv)
qed

text \<open>The update of the status up to its callback: the stored volume and the one in memory.\<close>

definition restatused :: "string \<Rightarrow> VolumeObject \<Rightarrow> VolumeObject \<Rightarrow> bool" where
  "restatused phase v v' \<longleftrightarrow> GetPhase v' = phase
     \<and> vo_type v' = vo_type v \<and> vo_APIVersion v' = vo_APIVersion v \<and> vo_Kind v' = vo_Kind v \<and> vo_Spec v' = vo_Spec v
     \<and> (\<exists>rv. vo_Meta v' = (vo_Meta v)\<lparr>om_ResourceVersion := rv\<rparr>)"

lemma restatused_fields:
  assumes "restatused phase v v'"
  shows "GetPhase v' = phase" "vo_Spec v' = vo_Spec v" "vo_type v' = vo_type v" "key_of (OVolume v') = key_of (OVolume v)"
    "om_Finalizers (vo_Meta v') = om_Finalizers (vo_Meta v)" "om_DeletionTimestamp (vo_Meta v') = om_DeletionTimestamp (vo_Meta v)"
  using assms by (auto simp: restatused_def key_of_def)

lemma run_UpdateReadinessStatus:
  assumes "stores env objs" and "stores_status env objs"
    and stored: "objs (w_srv w) (key_of (OVolume v)) = Some (OVolume v)"
    and same: "key_of (OVolume u) = key_of (OVolume v)"
  shows "\<exists>u' v' w'. run_state (UpdateReadinessStatus env u True r on off) w
        = run_state (bindE (case (if r then on else off) of None \<Rightarrow> ret (Inr ()) | Some callback \<Rightarrow> logged (callback u'))
            (\<lambda>_. ret (Inr u'))) w'
      \<and> restatused (DeterminePhase True r) v v' \<and> restatused (DeterminePhase True r) u u'
      \<and> objs (w_srv w') = (objs (w_srv w))(key_of (OVolume v) \<mapsto> OVolume v')"
proof -
  let ?phase = "DeterminePhase True r"
  let ?f = "on_volume (readiness_update (GetVolumeSpec u) True ?phase)"
  have f: "?f (OVolume v) = OVolume (v\<lparr>vo_Status := vo_Status (readiness_update (GetVolumeSpec u) True ?phase v)\<rparr>)"
    by (simp add: readiness_update_status [symmetric])
  let ?v1 = "\<lambda>rv. v\<lparr>vo_Status := vo_Status (readiness_update (GetVolumeSpec u) True ?phase v),
      vo_Meta := (vo_Meta v)\<lparr>om_ResourceVersion := rv\<rparr>\<rparr>"
  let ?u1 = "\<lambda>rv. u\<lparr>vo_Meta := (vo_Meta u)\<lparr>om_ResourceVersion := rv\<rparr>\<rparr>"
  obtain rv w1 where 1: "run_state (UpdateStatusWithRetry env (OVolume u) ?f) w = (Inr (OVolume (?u1 rv)), w1)"
    and srv: "objs (w_srv w1) = (objs (w_srv w))(key_of (OVolume v) \<mapsto> OVolume (?v1 rv))"
    using run_UpdateStatus_stored [where f = ?f, OF assms(1-3) same f] by metis
  have keys: "vo_type u = vo_type v" "GetNamespace u = GetNamespace v" "GetName u = GetName v"
    using same by (simp_all add: key_of_def)
  have "finds (w_srv w1) (GetVolume env (vo_type u) (GetNamespace u) (GetName u)) (Inr (?v1 rv))"
    using keys by (intro finds_GetVolume [OF assms(1)]) (simp_all add: srv key_of_def)
  then obtain h where 2: "run_state (GetVolume env (vo_type u) (GetNamespace u) (GetName u)) w1
      = (Inr (?v1 rv), w1\<lparr>w_hist := h\<rparr>)"
    using findsD by fastforce
  have "Phase (vo_Status (readiness_update (GetVolumeSpec u) True ?phase v)) = ?phase"
    using readiness_update_phase [of "GetVolumeSpec u" True ?phase v] by (simp add: GetPhase_def)
  then have "restatused ?phase v (?v1 rv)" "restatused ?phase u (copy_latest (?v1 rv) (?u1 rv))"
    by (auto simp: restatused_def copy_latest_def volume_accessors)
  moreover have "run_state (UpdateReadinessStatus env u True r on off) w
      = run_state (bindE (case (if r then on else off) of None \<Rightarrow> ret (Inr ())
          | Some callback \<Rightarrow> logged (callback (copy_latest (?v1 rv) (?u1 rv))))
            (\<lambda>_. ret (Inr (copy_latest (?v1 rv) (?u1 rv))))) (w1\<lparr>w_hist := h\<rparr>)"
    using 1 2 by (simp add: UpdateReadinessStatus_def Let_def volume_or_def if_distrib [of "case_option _ _"]
        cong: if_cong option.case_cong)
  ultimately show ?thesis
    using srv by (intro exI [of _ "copy_latest (?v1 rv) (?u1 rv)"] exI [of _ "?v1 rv"] exI [of _ "w1\<lparr>w_hist := h\<rparr>"]) simp
qed

lemma run_update_if_needed:
  assumes "stores env objs" and "stores_status env objs"
    and stored: "objs (w_srv w) (key_of (OVolume v)) = Some (OVolume v)"
    and same: "key_of (OVolume u) = key_of (OVolume v)" "GetPhase u = GetPhase v"
    and on: "w_syncTimers w (sync_key u) \<noteq> None \<or> GetPhase v \<noteq> ''Ready'' \<or> \<not> wants_sync b (vo_Spec u)"
  shows "\<exists>u' v' w'. run_state (update_if_needed env u True True (Some (CreateSyncReadyCallback b)) off) w = (Inr u', w')
      \<and> GetPhase u' = ''Ready'' \<and> GetPhase v' = ''Ready'' \<and> vo_Spec v' = vo_Spec v
      \<and> objs (w_srv w') = (objs (w_srv w))(key_of (OVolume v) \<mapsto> OVolume v')
      \<and> (wants_sync b (vo_Spec u) \<longrightarrow> w_syncTimers w' (sync_key u) \<noteq> None)"
proof (cases "ShouldUpdateReadinessStatus u True True")
  case False
  then have ready: "GetPhase u = ''Ready''"
    by (auto simp: ShouldUpdateReadinessStatus_def DeterminePhase_def split: if_splits)
  have "run_state (update_if_needed env u True True (Some (CreateSyncReadyCallback b)) off) w = (Inr u, w)"
    using False by (simp add: update_if_needed_def)
  then show ?thesis
    using ready same(2) stored on by (intro exI [of _ u] exI [of _ v] exI [of _ w]) auto
next
  case True
  have phase: "DeterminePhase True True = ''Ready''"
    by (simp add: DeterminePhase_def)
  obtain u' v' w1 where 1: "run_state (UpdateReadinessStatus env u True True (Some (CreateSyncReadyCallback b)) off) w
        = run_state (bindE (logged (CreateSyncReadyCallback b u')) (\<lambda>_. ret (Inr u'))) w1"
      and v': "restatused ''Ready'' v v'" and u': "restatused ''Ready'' u u'"
      and srv: "objs (w_srv w1) = (objs (w_srv w))(key_of (OVolume v) \<mapsto> OVolume v')"
    using run_UpdateReadinessStatus [OF assms(1-3) same(1), of True "Some (CreateSyncReadyCallback b)" off]
    by (auto simp: phase)
  obtain w2 where 2: "run_state (logged (StartSync b u')) w1 = (Inr (), w2)" "w_srv w2 = w_srv w1"
    "Phase (vo_Status u') = ''Ready'' \<and> wants_sync b (vo_Spec u') \<longrightarrow> w_syncTimers w2 (sync_key u') \<noteq> None"
    using run_logged_StartSync [of b u' w1] by auto
  have "run_state (update_if_needed env u True True (Some (CreateSyncReadyCallback b)) off) w = (Inr u', w2)"
    using True 1 2(1) by (simp add: update_if_needed_def CreateSyncReadyCallback_def)
  moreover have "sync_key u' = sync_key u"
    using restatused_fields(2-4) [OF u'] by (cases "vo_type u") (simp_all add: key_of_def)
  ultimately show ?thesis
    using restatused_fields [OF u'] restatused_fields [OF v'] srv 2(2,3)
    by (intro exI [of _ u'] exI [of _ v'] exI [of _ w2]) (simp add: GetPhase_def)
qed

section \<open>A ready volume converges\<close>

lemma run_CheckResourceReadiness:
  assumes "stores env objs" and "server_ready (objs (w_srv w)) u ns"
    and "resources_ready (objs (w_srv w)) (ReferenceValue (vo_Spec u)) ns" and "ReferenceValue (vo_Spec u) \<noteq> []"
  shows "\<exists>h. run_state (CheckResourceReadiness env u ns on off) w
    = run_state (update_if_needed env u True True on off) (w\<lparr>w_hist := h\<rparr>)"
proof -
  obtain msg where "finds (w_srv w) (CheckNfsServerStatus env u ns) (Inr (True, [], msg))"
    using finds_server [OF assms(1,2)] by blast
  then obtain h where "run_state (CheckNfsServerStatus env u ns) w = (Inr (True, [], msg), w\<lparr>w_hist := h\<rparr>)"
    using findsD by fastforce
  moreover obtain h1 where "run_state (IsPVCReady env u ns) (w\<lparr>w_hist := h\<rparr>) = (Inr True, w\<lparr>w_hist := h1\<rparr>)"
    using findsD [OF finds_resources(2) [OF assms(1,3,4)], of "w\<lparr>w_hist := h\<rparr>"] by auto
  moreover obtain h2 where "run_state (IsReplicaSetReady env u ns) (w\<lparr>w_hist := h1\<rparr>) = (Inr True, w\<lparr>w_hist := h2\<rparr>)"
    using findsD [OF finds_resources(3) [OF assms(1,3,4)], of "w\<lparr>w_hist := h1\<rparr>"] by auto
  ultimately have "run_state (CheckResourceReadiness env u ns on off) w
      = run_state (update_if_needed env u True True on off) (w\<lparr>w_hist := h2\<rparr>)"
    using assms(4) by (simp add: CheckResourceReadiness_def GetVolumeSpec_def)
  then show ?thesis ..
qed

text \<open>The state a successful pass reaches.\<close>

definition made_ready ::
  "('w \<Rightarrow> key \<Rightarrow> kobj option) \<Rightarrow> VolumeControllerBase \<Rightarrow> VolumeObject \<Rightarrow> VolumeObject \<Rightarrow> 'w world \<Rightarrow> 'w world \<Rightarrow> bool" where
  "made_ready objs b u v w w' \<longleftrightarrow>
     (\<exists>v'. GetPhase v' = ''Ready'' \<and> vo_Spec v' = vo_Spec v
        \<and> objs (w_srv w') = (objs (w_srv w))(key_of (OVolume v) \<mapsto> OVolume v'))
     \<and> (wants_sync b (vo_Spec u) \<longrightarrow> w_syncTimers w' (sync_key u) \<noteq> None)"

lemma run_reconcile_with_server:
  assumes "stores env objs" and "stores_status env objs"
    and "server_ready (objs (w_srv w)) u ns"
    and "resources_ready (objs (w_srv w)) (ReferenceValue (vo_Spec u)) ns" and "ReferenceValue (vo_Spec u) \<noteq> []"
    and stored: "objs (w_srv w) (key_of (OVolume v)) = Some (OVolume v)"
    and same: "key_of (OVolume u) = key_of (OVolume v)" "GetPhase u = GetPhase v"
  shows "\<exists>w'. run_state (reconcile_with_server env b u ns prefix (Some (CreateSyncReadyCallback b)) off) w = (Inr 0, w')
    \<and> made_ready objs b u v w w'"
proof -
  let ?start = "if GetPhase u = ''Ready'' then logged (StartSync b u) else ret (Inr ())"
  obtain h where 1: "run_state (ReconcileRequiredResources env u ns) w = (Inr (), w\<lparr>w_hist := h\<rparr>)"
    using findsD [OF finds_resources(1) [OF assms(1,4,5)]] by blast
  obtain w1 where 2: "run_state ?start (w\<lparr>w_hist := h\<rparr>) = (Inr (), w1)" "w_srv w1 = w_srv w"
    "w_syncTimers w1 (sync_key u) \<noteq> None \<or> GetPhase v \<noteq> ''Ready'' \<or> \<not> wants_sync b (vo_Spec u)"
    using run_logged_StartSync [of b u "w\<lparr>w_hist := h\<rparr>"] same(2)
    by (cases "GetPhase u = ''Ready''") (auto simp: GetPhase_def)
  obtain h1 where 3: "run_state (CheckResourceReadiness env u ns (Some (CreateSyncReadyCallback b)) off) w1
      = run_state (update_if_needed env u True True (Some (CreateSyncReadyCallback b)) off) (w1\<lparr>w_hist := h1\<rparr>)"
    using run_CheckResourceReadiness [OF assms(1), of w1 u ns] assms(3-5) 2(2) by metis
  obtain u' v' w2 where 4: "run_state (update_if_needed env u True True (Some (CreateSyncReadyCallback b)) off) (w1\<lparr>w_hist := h1\<rparr>)
      = (Inr u', w2)" "GetPhase u' = ''Ready''" "GetPhase v' = ''Ready''" "vo_Spec v' = vo_Spec v"
      "objs (w_srv w2) = (objs (w_srv w))(key_of (OVolume v) \<mapsto> OVolume v')"
      "wants_sync b (vo_Spec u) \<longrightarrow> w_syncTimers w2 (sync_key u) \<noteq> None"
    using run_update_if_needed [OF assms(1,2), of "w1\<lparr>w_hist := h1\<rparr>" v u b off] stored same 2(2,3) by auto
  have "run_state (reconcile_with_server env b u ns prefix (Some (CreateSyncReadyCallback b)) off) w = (Inr 0, w2)"
    using assms(5) 1 2(1) 3 4(1,2) by (simp add: reconcile_with_server_def GetVolumeSpec_def)
  then show ?thesis
    using 4(3-6) unfolding made_ready_def by blast
qed

text \<open>The volume in memory after the two steps before the server is looked at.\<close>

lemma fill_path_server:
  "nfs_Name (fill_path nfs) = nfs_Name nfs" "nfs_Namespace (fill_path nfs) = nfs_Namespace nfs"
  "nfs_URL (fill_path nfs) = nfs_URL nfs" "IsExternalNfsServer (Some (fill_path nfs)) = IsExternalNfsServer (Some nfs)"
  by (simp_all add: fill_path_def IsExternalNfsServer_Some)

lemma filled_ready:
  assumes "server_ready store v ns"
  shows "server_ready store (set_spec (filled_spec False ns' (vo_Spec v)) v) ns"
  using assms unfolding server_ready_def by (auto simp: filled_spec_nfs fill_path_server split: if_splits)

text \<open>
  A volume that is stored, carries the finalizer, is not under deletion and has a valid
  specification with a server that is external or ready, in the controller's namespace; its
  reconciliation comes down to \<open>reconcile_with_server\<close> for the volume in memory.
\<close>

definition served_in :: "(key \<Rightarrow> kobj option) \<Rightarrow> VolumeControllerBase \<Rightarrow> VolumeReconcileConfig \<Rightarrow> VolumeObject \<Rightarrow> bool" where
  "served_in store b config v \<longleftrightarrow>
     store (key_of (OVolume v)) = Some (OVolume v) \<and> vo_type v = VolumeObjFactory config
     \<and> om_DeletionTimestamp (vo_Meta v) = None \<and> FinalizerName config \<in> set (om_Finalizers (vo_Meta v))
     \<and> snd (FillAndValidateSpec v False (Namespace config)) = None \<and> ReferenceValue (vo_Spec v) \<noteq> []
     \<and> store (KNamespace, [], ControllerNamespace b) \<noteq> None
     \<and> server_ready store v (Namespace config)"

definition settled_in :: "(key \<Rightarrow> kobj option) \<Rightarrow> VolumeControllerBase \<Rightarrow> VolumeReconcileConfig \<Rightarrow> VolumeObject \<Rightarrow> bool" where
  "settled_in store b config v \<longleftrightarrow>
     served_in store b config v \<and> resources_ready store (ReferenceValue (vo_Spec v)) (Namespace config)"

definition in_memory :: "'w env \<Rightarrow> VolumeReconcileConfig \<Rightarrow> VolumeObject \<Rightarrow> VolumeObject" where
  "in_memory env config v = set_spec (filled_spec False (Namespace config) (vo_Spec v))
     (EnsureAPIVersionAndKind env v (APIVersion config) (Kind config))"

lemma in_memory_fields [simp]:
  "vo_Meta (in_memory env config v) = vo_Meta v" "vo_type (in_memory env config v) = vo_type v"
  "vo_Status (in_memory env config v) = vo_Status v"
  "vo_Spec (in_memory env config v) = filled_spec False (Namespace config) (vo_Spec v)"
  by (simp_all add: in_memory_def EnsureAPIVersionAndKind_def Let_def)

lemma in_memory_ready: "server_ready store v ns \<Longrightarrow> server_ready store (in_memory env config v) ns"
  using filled_ready [of store v ns "Namespace config"] by (simp add: server_ready_def)

lemma run_to_server:
  assumes "stores env objs" and "served_in (objs (w_srv w)) b config v"
    and "finds (w_srv w) (ReconcileNfsServer env (in_memory env config v) False (Namespace config)) (Inr (0, u))"
  shows "\<exists>h. run_state (ReconcileGeneric env b (GetNamespace v) (GetName v) config) w
    = run_state (reconcile_with_server env b u (Namespace config) ''sv'' (Some (CreateSyncReadyCallback b))
        (Some (CreateSyncNotReadyCallback b))) (w\<lparr>w_hist := h\<rparr>)"
proof -
  let ?ns = "Namespace config"
  let ?e = "EnsureAPIVersionAndKind env v (APIVersion config) (Kind config)"
  note settled = assms(2) [unfolded served_in_def]
  have e: "vo_Meta ?e = vo_Meta v" "vo_Spec ?e = vo_Spec v"
    by (simp_all add: EnsureAPIVersionAndKind_def Let_def)
  have get: "finds (w_srv w) (GetVolume env (VolumeObjFactory config) (GetNamespace v) (GetName v)) (Inr v)"
    using settled by (intro finds_GetVolume [OF assms(1)]) (auto simp: key_of_def)
  have ens: "finds (w_srv w) (EnsureControllerNamespace env b) (Inr ())"
    using finds_namespace [OF assms(1)] settled by blast
  have fill: "FillAndValidateSpec ?e False ?ns = (in_memory env config v, None)"
    using FillAndValidateSpec_ok [of ?e False ?ns] settled by (simp add: FillAndValidateSpec_ok_iff e in_memory_def)
  obtain nfs where nfs: "NfsServer (vo_Spec v) = Some nfs"
    using settled unfolding server_ready_def by blast
  obtain h1 where 1: "run_state (GetVolume env (VolumeObjFactory config) (GetNamespace v) (GetName v)) w = (Inr v, w\<lparr>w_hist := h1\<rparr>)"
    using findsD [OF get] by blast
  obtain h2 where 2: "run_state (EnsureControllerNamespace env b) (w\<lparr>w_hist := h1\<rparr>) = (Inr (), w\<lparr>w_hist := h2\<rparr>)"
    using findsD [OF ens, of "w\<lparr>w_hist := h1\<rparr>"] by auto
  obtain h3 where 3: "run_state (ReconcileNfsServer env (in_memory env config v) False ?ns) (w\<lparr>w_hist := h2\<rparr>)
      = (Inr (0, u), w\<lparr>w_hist := h3\<rparr>)"
    using findsD [OF assms(3), of "w\<lparr>w_hist := h2\<rparr>"] by auto
  show ?thesis
    using 1 2 3 settled nfs fill
    by (intro exI [of _ h3])
       (simp add: ReconcileGeneric_def ReconcileVolume_def HandleFinalizerLogic_def ensureFinalizer_def e
        reconcile_filled_def GetVolumeSpec_def ReconcileNfsServerComplete_def)
qed

lemma settled_converges:
  assumes "stores env objs" and "stores_status env objs" and "settled_in (objs (w_srv w)) b config v"
  shows "\<exists>w'. run_state (ReconcileGeneric env b (GetNamespace v) (GetName v) config) w = (Inr 0, w')
    \<and> made_ready objs b (in_memory env config v) v w w'"
proof -
  note settled = assms(3) [unfolded settled_in_def served_in_def]
  have ready: "server_ready (objs (w_srv w)) (in_memory env config v) (Namespace config)"
    using in_memory_ready settled by blast
  obtain u where u: "finds (w_srv w) (ReconcileNfsServer env (in_memory env config v) False (Namespace config)) (Inr (0, u))"
      "seen u (in_memory env config v)"
    using finds_ReconcileNfsServer [OF assms(1) ready] by blast
  from u(2) have fields: "key_of (OVolume u) = key_of (OVolume v)" "GetPhase u = GetPhase v"
      "ReferenceValue (vo_Spec u) = ReferenceValue (vo_Spec v)" "sync_key u = sync_key (in_memory env config v)"
      "wants_sync b (vo_Spec u) = wants_sync b (vo_Spec (in_memory env config v))"
    by (cases "vo_type v"; auto simp: seen_def key_of_def GetPhase_def wants_sync_def hasValidSource_def)+
  obtain h where 1: "run_state (ReconcileGeneric env b (GetNamespace v) (GetName v) config) w
      = run_state (reconcile_with_server env b u (Namespace config) ''sv'' (Some (CreateSyncReadyCallback b))
          (Some (CreateSyncNotReadyCallback b))) (w\<lparr>w_hist := h\<rparr>)"
    using run_to_server [OF assms(1) _ u(1)] assms(3) unfolding settled_in_def by blast
  with run_reconcile_with_server [OF assms(1,2), of "w\<lparr>w_hist := h\<rparr>" u "Namespace config" v b "''sv''"]
    seen_ready [OF u(2) ready] settled fields
  show ?thesis
    by (auto simp: made_ready_def)
qed

text \<open>
  C6. Progress. Let the API server store objects and accept status updates, and let everything a
  stored volume needs be there and ready (\<open>settled_in\<close>: finalizer, valid specification, namespace,
  server, persistent volume, bound claim, ReplicaSet with all replicas, service). Then one
  reconciliation ends without an error and without a requeue; the phase of the stored volume is
  then \<open>Ready\<close>, its specification and every other object are as before, and a timer is registered
  for its sync if it has a source and an interval that parses.
\<close>

theorem ready_volume_converges:
  assumes "stores env objs" and "stores_status env objs" and "settled_in (objs (w_srv w)) b config v"
  shows "\<exists>w'. run_state (ReconcileGeneric env b (GetNamespace v) (GetName v) config) w = (Inr 0, w')
    \<and> made_ready objs b (in_memory env config v) v w w'"
  by (rule settled_converges [OF assms])

section \<open>A ready volume stays as it is\<close>

definition with_message :: "string \<Rightarrow> VolumeObject \<Rightarrow> VolumeObject" where
  "with_message m v = v\<lparr>vo_Status := (vo_Status v)\<lparr>Message := m\<rparr>\<rparr>"

lemma with_message_fields [simp]:
  "vo_Meta (with_message m v) = vo_Meta v" "vo_type (with_message m v) = vo_type v" "vo_Spec (with_message m v) = vo_Spec v"
  "GetPhase (with_message m v) = GetPhase v" "GetNfsServerAddress (with_message m v) = GetNfsServerAddress v"
  by (simp_all add: with_message_def volume_accessors)

lemma with_own_message: "with_message (Message (vo_Status v)) v = v"
  by (simp add: with_message_def)

lemma UpdateVolumeStatus_recorded:
  "GetNfsServerAddress v \<noteq> [] \<Longrightarrow> fst (UpdateVolumeStatus v True [] m) = with_message m v"
  by (auto simp: UpdateVolumeStatus_def with_message_def volume_accessors Let_def split: option.split)

lemma finds_ReconcileNfsServer_recorded:
  assumes "stores env objs" and "server_ready (objs s) u ns" and "GetNfsServerAddress u \<noteq> []"
  shows "\<exists>m. finds s (ReconcileNfsServer env u False ns) (Inr (0, with_message m u))"
proof -
  obtain nfs where nfs: "NfsServer (vo_Spec u) = Some nfs"
    using assms(2) unfolding server_ready_def by blast
  obtain msg where "finds s (CheckNfsServerStatus env u ns) (Inr (True, [], msg))"
    using finds_server [OF assms(1,2)] by blast
  then have check: "finds s (CheckAndUpdateNfsServerStatus env u ns) (Inr (0, with_message msg u))"
    unfolding CheckAndUpdateNfsServerStatus_def
    by (rule finds_bindE) (simp add: Let_def split_beta UpdateVolumeStatus_recorded [OF assms(3)] finds_ret)
  show ?thesis
  proof (cases "\<not> IsExternalNfsServer (Some nfs) \<and> nfs_Name nfs \<noteq> []")
    case True
    with check show ?thesis by (auto simp: ReconcileNfsServer_def GetVolumeSpec_def nfs)
  next
    case False
    then have "ReconcileNfsServer env u False ns = ret (Inr (0, u))"
      by (auto simp: ReconcileNfsServer_def GetVolumeSpec_def nfs)
    then show ?thesis
      using finds_ret [of s "Inr (0, u)"] with_own_message [of u] by metis
  qed
qed

lemma desired_address_cong:
  "vo_type u = vo_type v \<Longrightarrow> GetNamespace u = GetNamespace v \<Longrightarrow> desired_address u (fill_path nfs) = desired_address v nfs"
  by (simp add: desired_address_def fill_path_server GetManagedNfsServerAddress_def Let_def)

text \<open>
  C7. Stability. When everything a volume needs is there and ready, its phase is \<open>Ready\<close> and the
  address of its server is the one recorded, a reconciliation ends without an error and without a
  requeue and leaves the state of the API server as it is; the timer of its sync is there if it
  has a source and an interval that parses.
\<close>

theorem ready_volume_stable:
  assumes "stores env objs" and "settled_in (objs (w_srv w)) b config v" and "GetPhase v = ''Ready''"
    and "NfsServer (vo_Spec v) = Some nfs" and "GetNfsServerAddress v = desired_address v nfs" and "GetNfsServerAddress v \<noteq> []"
  shows "\<exists>w'. run_state (ReconcileGeneric env b (GetNamespace v) (GetName v) config) w = (Inr 0, w') \<and> w_srv w' = w_srv w
    \<and> (wants_sync b (vo_Spec (in_memory env config v)) \<longrightarrow> w_syncTimers w' (sync_key (in_memory env config v)) \<noteq> None)"
proof -
  let ?ns = "Namespace config" and ?i = "in_memory env config v"
  let ?on = "Some (CreateSyncReadyCallback b)" and ?off = "Some (CreateSyncNotReadyCallback b)"
  note settled = assms(2) [unfolded settled_in_def served_in_def]
  have ready: "server_ready (objs (w_srv w)) ?i ?ns"
    using in_memory_ready settled by blast
  have same: "GetPhase ?i = ''Ready''" "GetNfsServerAddress ?i = GetNfsServerAddress v"
    using assms(3) by (simp_all add: GetPhase_def GetNfsServerAddress_def)
  obtain m where u: "finds (w_srv w) (ReconcileNfsServer env ?i False ?ns) (Inr (0, with_message m ?i))"
    using finds_ReconcileNfsServer_recorded [OF assms(1) ready] assms(6) same(2) by metis
  let ?u = "with_message m ?i"
  have u_ready: "server_ready (objs (w_srv w)) ?u ?ns" "resources_ready (objs (w_srv w)) (ReferenceValue (vo_Spec ?u)) ?ns"
      "ReferenceValue (vo_Spec ?u) \<noteq> []"
    using ready settled by (simp_all add: server_ready_def)
  have "GetManagedNfsServerAddress ?u (fill_path nfs) = GetNfsServerAddress ?u \<or> IsExternalNfsServer (Some (fill_path nfs))"
    using desired_address_cong [of ?u v nfs] assms(5) same(2) by (auto simp: desired_address_def)
  then have none: "\<not> ShouldUpdateReadinessStatus ?u True True"
    using same assms(4,6) by (auto simp: ShouldUpdateReadinessStatus_def GetVolumeSpec_def filled_spec_nfs DeterminePhase_def)
  obtain h where 1: "run_state (ReconcileGeneric env b (GetNamespace v) (GetName v) config) w
      = run_state (reconcile_with_server env b ?u ?ns ''sv'' ?on ?off) (w\<lparr>w_hist := h\<rparr>)"
    using run_to_server [OF assms(1) _ u] assms(2) unfolding settled_in_def by blast
  obtain h1 where 2: "run_state (ReconcileRequiredResources env ?u ?ns) (w\<lparr>w_hist := h\<rparr>) = (Inr (), w\<lparr>w_hist := h1\<rparr>)"
    using findsD [OF finds_resources(1) [OF assms(1) u_ready(2,3)], of "w\<lparr>w_hist := h\<rparr>"] by auto
  obtain w1 where 3: "run_state (logged (StartSync b ?u)) (w\<lparr>w_hist := h1\<rparr>) = (Inr (), w1)" "w_srv w1 = w_srv w"
      "Phase (vo_Status ?u) = ''Ready'' \<and> wants_sync b (vo_Spec ?u) \<longrightarrow> w_syncTimers w1 (sync_key ?u) \<noteq> None"
    using run_logged_StartSync [of b ?u "w\<lparr>w_hist := h1\<rparr>"] by auto
  obtain h2 where 4: "run_state (CheckResourceReadiness env ?u ?ns ?on ?off) w1
      = run_state (update_if_needed env ?u True True ?on ?off) (w1\<lparr>w_hist := h2\<rparr>)"
    using run_CheckResourceReadiness [OF assms(1), of w1 ?u ?ns] u_ready 3(2) by metis
  have "run_state (ReconcileGeneric env b (GetNamespace v) (GetName v) config) w = (Inr 0, w1\<lparr>w_hist := h2\<rparr>)"
    using 1 2 3(1) 4 none same(1) u_ready(3)
    by (simp add: reconcile_with_server_def GetVolumeSpec_def update_if_needed_def)
  moreover have "sync_key ?u = sync_key ?i" "Phase (vo_Status ?u) = ''Ready''"
    using same(1) by (cases "vo_type v"; simp add: with_message_def GetPhase_def)+
  ultimately show ?thesis
    using 3(2,3) by simp
qed

section \<open>A stored volume becomes ready\<close>

definition pending_volume :: VolumeObject where
  "pending_volume = sample_volume\<lparr>vo_Meta := sample_meta\<lparr>
     om_Finalizers := [''shared-volume-controller.sharedvolume.io/finalizer'']\<rparr>\<rparr>"

definition ready_store :: store where
  "ready_store =
     [OVolume pending_volume,
      ONamespace (empty_meta\<lparr>om_Name := ''shared-volume-controller''\<rparr>),
      ONfsServer ((nfs_server_object store_env pending_volume ''team'' sample_nfs sample_storage)\<lparr>ns_Ready := True\<rparr>),
      OPersistentVolume (volume_object pending_volume ''team'' (Quantity ''1Gi'') ''nfs-sv-a1.team.svc.cluster.local'' ''/''),
      OPersistentVolumeClaim ((claim_object store_env pending_volume ''team'' (Quantity ''1Gi''))\<lparr>pvc_Phase := ''Bound''\<rparr>),
      OReplicaSet ((replica_set_object store_env pending_volume ''team'')\<lparr>rs_ReadyReplicas := 1\<rparr>),
      OService (service_object store_env pending_volume ''team'')]"

lemma find_replace:
  assumes "find (\<lambda>x. key_of x = k) st \<noteq> None" and "key_of obj = k"
  shows "find (\<lambda>x. key_of x = k') (map (\<lambda>x. if key_of x = k then obj else x) st)
    = (if k' = k then Some obj else find (\<lambda>x. key_of x = k') st)"
proof (cases "k' = k")
  case True
  then show ?thesis using assms by (induction st) auto
next
  case False
  then have "find (\<lambda>x. key_of x = k') (map (\<lambda>x. if key_of x = k then obj else x) st) = find (\<lambda>x. key_of x = k') st"
    using assms(2) by (induction st) auto
  with False show ?thesis by simp
qed

lemma store_replaces:
  assumes "store_objs st (key_of obj) \<noteq> None" and "rq \<in> {UpdateReq obj, StatusUpdateReq obj}"
  shows "fst (store_api rq st) = RObject obj \<and> store_objs (snd (store_api rq st)) = (store_objs st)(key_of obj \<mapsto> obj)"
proof -
  have same: "same_key a = (\<lambda>x. key_of x = key_of a)" for a
    by (simp add: fun_eq_iff same_key_def has_key_key_of) (simp add: key_of_def)
  have "list_ex (\<lambda>x. key_of x = key_of obj) st"
    using assms(1) by (auto simp: store_objs_find find_None_iff list_ex_iff)
  then have "store_api rq st = (RObject obj, map (\<lambda>x. if key_of x = key_of obj then obj else x) st)"
    using assms(2) by (auto simp: same)
  moreover have "store_objs (map (\<lambda>x. if key_of x = key_of obj then obj else x) st) = (store_objs st)(key_of obj \<mapsto> obj)"
    using find_replace [of "key_of obj" st obj] assms(1) by (auto simp: store_objs_find fun_eq_iff)
  ultimately show ?thesis by simp
qed

lemma stores_status_store_env: "stores_status store_env store_objs"
  unfolding stores_status_def
proof (intro allI impI)
  fix s v st assume "store_objs s (key_of (OVolume v)) = Some (OVolume v)"
  moreover have key: "key_of (OVolume (v\<lparr>vo_Status := st\<rparr>)) = key_of (OVolume v)"
    by (simp add: key_of_def)
  ultimately have "store_objs s (key_of (OVolume (v\<lparr>vo_Status := st\<rparr>))) \<noteq> None"
    by simp
  from store_replaces [OF this, of "StatusUpdateReq (OVolume (v\<lparr>vo_Status := st\<rparr>))"]
  show "\<exists>rv. fst (e_api store_env (StatusUpdateReq (OVolume (v\<lparr>vo_Status := st\<rparr>))) s)
        = RObject (OVolume (v\<lparr>vo_Status := st, vo_Meta := (vo_Meta v)\<lparr>om_ResourceVersion := rv\<rparr>\<rparr>))
      \<and> store_objs (snd (e_api store_env (StatusUpdateReq (OVolume (v\<lparr>vo_Status := st\<rparr>))) s))
        = (store_objs s)(key_of (OVolume v) \<mapsto>
            OVolume (v\<lparr>vo_Status := st, vo_Meta := (vo_Meta v)\<lparr>om_ResourceVersion := rv\<rparr>\<rparr>))"
    unfolding key by (intro exI [of _ "om_ResourceVersion (vo_Meta v)"]) (simp add: store_env_def del: store_api.simps)
qed

lemma ready_store_settled:
  "settled_in (store_objs ready_store) sample_base (sv_config ''team'') pending_volume"
  by (simp add: settled_in_def served_in_def ready_store_def store_objs_def has_key_def pending_volume_def sample_volume_simps server_ready_def
      resources_ready_def nfs_server_object_def volume_object_def claim_object_def replica_set_object_def
      service_object_def pv_name_def GetVolumeSpec_def replica_set_outdated_def service_outdated_def Let_def
      key_of_def sv_config_def sample_base_def FillAndValidateSpec_ok_iff)

theorem ready_volume_converges_witness:
  "\<exists>w'. run_state (Reconcile_SharedVolume store_env sample_base ''team'' ''vol'') (world_of ready_store) = (Inr 0, w')
     \<and> (\<exists>v'. GetPhase v' = ''Ready'' \<and> store_objs (w_srv w') (KVolume SharedVolume, ''team'', ''vol'') = Some (OVolume v'))
     \<and> w_syncTimers w' ''team/vol'' \<noteq> None"
proof -
  let ?u = "in_memory store_env (sv_config ''team'') pending_volume"
  have fields: "key_of (OVolume pending_volume) = (KVolume SharedVolume, ''team'', ''vol'')"
      "GetNamespace pending_volume = ''team''" "GetName pending_volume = ''vol''"
      "sync_key ?u = ''team/vol''" "wants_sync sample_base (vo_Spec ?u)"
    using ParseDuration_60s
    by (simp_all add: pending_volume_def sample_volume_simps key_of_def volume_key_def wants_sync_def sample_base_def
        hasValidSource_def filled_spec_sync)
  have "settled_in (store_objs (w_srv (world_of ready_store))) sample_base (sv_config ''team'') pending_volume"
    using ready_store_settled by (simp add: world_of_def)
  from ready_volume_converges [OF store_objs_stores stores_status_store_env this] fields
  show ?thesis
    unfolding made_ready_def Reconcile_SharedVolume_def by auto
qed

definition ready_volume :: VolumeObject where
  "ready_volume = pending_volume\<lparr>vo_Status := sample_status\<lparr>Phase := ''Ready'',
     NfsServerAddress := ''nfs-sv-a1.team.svc.cluster.local''\<rparr>\<rparr>"

theorem ready_volume_stable_witness:
  "\<exists>w'. run_state (Reconcile_SharedVolume store_env sample_base ''team'' ''vol'') (world_of (OVolume ready_volume # tl ready_store)) = (Inr 0, w')
     \<and> w_srv w' = OVolume ready_volume # tl ready_store"
proof -
  have "settled_in (store_objs (w_srv (world_of (OVolume ready_volume # tl ready_store)))) sample_base (sv_config ''team'') ready_volume"
    by (simp add: settled_in_def served_in_def ready_store_def ready_volume_def world_of_def store_objs_def has_key_def pending_volume_def
      sample_volume_simps server_ready_def
      resources_ready_def nfs_server_object_def volume_object_def claim_object_def replica_set_object_def
      service_object_def pv_name_def GetVolumeSpec_def replica_set_outdated_def service_outdated_def Let_def
      key_of_def sv_config_def sample_base_def FillAndValidateSpec_ok_iff)
  moreover have "NfsServer (vo_Spec ready_volume) = Some sample_nfs" "GetPhase ready_volume = ''Ready''"
      "GetNfsServerAddress ready_volume = desired_address ready_volume sample_nfs" "GetNfsServerAddress ready_volume \<noteq> []"
      "GetNamespace ready_volume = ''team''" "GetName ready_volume = ''vol''"
    by (simp_all add: ready_volume_def pending_volume_def sample_volume_simps volume_accessors desired_address_def
        IsExternalNfsServer_Some GetManagedNfsServerAddress_def)
  ultimately show ?thesis
    using ready_volume_stable [OF store_objs_stores, of "world_of (OVolume ready_volume # tl ready_store)" sample_base
        "sv_config ''team''" ready_volume sample_nfs]
    by (auto simp: Reconcile_SharedVolume_def world_of_def)
qed

end
