(* ===== verification/Progress.thy ===== *)
theory Progress
  imports Convergence
begin

text \<open>
  The way of a new volume to readiness: three reconciliations, between which the other controllers
  of the cluster (the operator of the NFS servers, the binder of claims, the controller of
  ReplicaSets) do their part. The first adds the finalizer and generates the server, the second
  makes the resources, the third finds everything ready.
\<close>

section \<open>The rest of the cluster\<close>

text \<open>
  An update of a volume that changes the finalizers or the specification is stored when the
  admission webhook for updates accepts it; the server then chooses the resource version.
\<close>

definition new_version :: "string \<Rightarrow> VolumeObject \<Rightarrow> VolumeObject" where
  "new_version rv v = v\<lparr>vo_Meta := (vo_Meta v)\<lparr>om_ResourceVersion := rv\<rparr>\<rparr>"

definition stores_admitted :: "'w env \<Rightarrow> ('w \<Rightarrow> key \<Rightarrow> kobj option) \<Rightarrow> bool" where
  "stores_admitted env objs \<longleftrightarrow>
     (\<forall>s v0 v fs. objs s (key_of (OVolume v0)) = Some (OVolume v0) \<longrightarrow> vo_type v = vo_type v0
        \<longrightarrow> vo_Meta v = (vo_Meta v0)\<lparr>om_Finalizers := fs\<rparr> \<longrightarrow> vo_Status v = vo_Status v0
        \<longrightarrow> om_DeletionTimestamp (vo_Meta v0) = None \<longrightarrow> ValidateUpdate (vo_type v) (OVolume v0) (OVolume v) = Inr ()
        \<longrightarrow> (\<exists>rv. fst (e_api env (UpdateReq (OVolume v)) s) = RObject (OVolume (new_version rv v))
              \<and> objs (snd (e_api env (UpdateReq (OVolume v)) s)) = (objs s)(key_of (OVolume v0) \<mapsto> OVolume (new_version rv v))))"

definition rand_keeps :: "'w env \<Rightarrow> ('w \<Rightarrow> key \<Rightarrow> kobj option) \<Rightarrow> bool" where
  "rand_keeps env objs \<longleftrightarrow> (\<forall>n s. objs (snd (e_rand env n s)) = objs s)"

text \<open>What the other controllers make of the objects.\<close>

fun others_act :: "kobj \<Rightarrow> kobj" where
  "others_act (ONfsServer s) = ONfsServer (s\<lparr>ns_Ready := True\<rparr>)"
| "others_act (OPersistentVolumeClaim c) = OPersistentVolumeClaim (c\<lparr>pvc_Phase := ''Bound''\<rparr>)"
| "others_act (OReplicaSet rs) =
     OReplicaSet (case rs_Replicas rs of None \<Rightarrow> rs | Some n \<Rightarrow> rs\<lparr>rs_ReadyReplicas := n\<rparr>)"
| "others_act obj = obj"

definition after_others :: "('w \<Rightarrow> key \<Rightarrow> kobj option) \<Rightarrow> 'w world \<Rightarrow> 'w world \<Rightarrow> bool" where
  "after_others objs w w' \<longleftrightarrow> objs (w_srv w') = (\<lambda>k. map_option others_act (objs (w_srv w) k))"

text \<open>The API server fills in the number of replicas of a ReplicaSet.\<close>

definition replicas_set :: "(key \<Rightarrow> kobj option) \<Rightarrow> bool" where
  "replicas_set store \<longleftrightarrow> (\<forall>k rs. store k = Some (OReplicaSet rs) \<longrightarrow> rs_Replicas rs \<noteq> None)"

lemma replicas_set_upd: "replicas_set store \<Longrightarrow> (\<And>rs. x = OReplicaSet rs \<Longrightarrow> rs_Replicas rs \<noteq> None) \<Longrightarrow> replicas_set (store(k \<mapsto> x))"
  by (simp add: replicas_set_def)

section \<open>Calls that succeed\<close>

lemma run_stored_Create_ok:
  assumes "stores env objs" and "objs (w_srv w) (key_of obj) = None"
  shows "\<exists>w'. run_state (Create env obj) w = (Inr (), w') \<and> objs (w_srv w') = (objs (w_srv w))(key_of obj \<mapsto> obj)"
proof -
  have "fst (e_api env (CreateReq obj) (w_srv w)) = RObject obj
      \<and> objs (snd (e_api env (CreateReq obj) (w_srv w))) = (objs (w_srv w))(key_of obj \<mapsto> obj)"
    using assms unfolding stores_def by meson
  then show ?thesis by (simp add: Create_def run_api_call as_done_def)
qed

lemma run_UpdateVolume_admitted:
  assumes "stores_admitted env objs" and "objs (w_srv w) (key_of (OVolume v0)) = Some (OVolume v0)"
    and "vo_type v = vo_type v0" and "vo_Meta v = (vo_Meta v0)\<lparr>om_Finalizers := fs\<rparr>" and "vo_Status v = vo_Status v0"
    and "om_DeletionTimestamp (vo_Meta v0) = None" and "ValidateUpdate (vo_type v) (OVolume v0) (OVolume v) = Inr ()"
  shows "\<exists>rv w'. run_state (UpdateVolume env v) w = (Inr (new_version rv v), w')
    \<and> objs (w_srv w') = (objs (w_srv w))(key_of (OVolume v0) \<mapsto> OVolume (new_version rv v))"
proof -
  obtain rv where "fst (e_api env (UpdateReq (OVolume v)) (w_srv w)) = RObject (OVolume (new_version rv v))"
    "objs (snd (e_api env (UpdateReq (OVolume v)) (w_srv w))) = (objs (w_srv w))(key_of (OVolume v0) \<mapsto> OVolume (new_version rv v))"
    using assms unfolding stores_admitted_def by blast
  then show ?thesis
    by (intro exI [of _ rv]) (simp add: UpdateVolume_def run_api_call as_object_def the_volume_Some new_version_def)
qed

lemma run_EnsureControllerNamespace:
  assumes "stores env objs"
  shows "\<exists>w' x. run_state (EnsureControllerNamespace env b) w = (Inr (), w')
    \<and> objs (w_srv w') = (objs (w_srv w))((KNamespace, [], ControllerNamespace b) \<mapsto> x) \<and> kind_of x = KNamespace"
proof (cases "objs (w_srv w) (KNamespace, [], ControllerNamespace b)")
  case None
  let ?n = "ONamespace (empty_meta\<lparr>om_Name := ControllerNamespace b\<rparr>)"
  let ?w = "w\<lparr>w_hist := w_hist w @ [EApi (GetReq KNamespace [] (ControllerNamespace b)) (RError (NotFound (ControllerNamespace b)))]\<rparr>"
  have k: "key_of ?n = (KNamespace, [], ControllerNamespace b)"
    by (simp add: key_of_def empty_meta_def)
  obtain w' where w': "run_state (Create env ?n) ?w = (Inr (), w')" "objs (w_srv w') = (objs (w_srv w))(key_of ?n \<mapsto> ?n)"
    using run_stored_Create_ok [OF assms, of ?w ?n] None k by auto
  have "run_state (EnsureControllerNamespace env b) w = (Inr (), w')"
    using w'(1) by (simp add: EnsureControllerNamespace_def run_stored_Get [OF assms] None)
  with w'(2) k show ?thesis
    by (intro exI [of _ w'] exI [of _ ?n]) simp
next
  case (Some x)
  then have "kind_of x = KNamespace"
    using stored_kind [OF assms] by blast
  moreover obtain h where "run_state (EnsureControllerNamespace env b) w = (Inr (), w\<lparr>w_hist := h\<rparr>)"
    using findsD [OF finds_namespace [OF assms, of "w_srv w" b] HOL.refl] Some by auto
  ultimately show ?thesis
    using Some by (intro exI [of _ "w\<lparr>w_hist := h\<rparr>"] exI [of _ x]) (simp add: fun_upd_idem)
qed

lemma run_RandString:
  assumes "rand_keeps env objs"
  shows "\<exists>s w'. run_state (RandString env n) w = (s, w') \<and> objs (w_srv w') = objs (w_srv w) \<and> set s \<subseteq> set letters"
proof -
  have "objs (w_srv (snd (run_state (RandString env n) w))) = objs (w_srv w)"
    using assms by (induction n arbitrary: w) (simp_all add: rand_Intn_def rand_keeps_def split_beta)
  moreover have "set (fst (run_state (RandString env n) w)) \<subseteq> set letters"
    using yields_fst [OF RandString_letters] by blast
  ultimately show ?thesis
    by (intro exI [of _ "fst (run_state (RandString env n) w)"] exI [of _ "snd (run_state (RandString env n) w)"]) simp
qed

lemma run_reference_value:
  assumes "rand_keeps env objs" and "CHR ''.'' \<notin> set (ReferenceValue spec)"
  shows "\<exists>ref w'. run_state (reference_value env spec ''sv'') w = (ref, w') \<and> objs (w_srv w') = objs (w_srv w)
    \<and> ref \<noteq> [] \<and> CHR ''.'' \<notin> set ref \<and> (ReferenceValue spec \<noteq> [] \<longrightarrow> ref = ReferenceValue spec)"
proof -
  have no_dot: "CHR ''.'' \<notin> set letters"
    by (simp add: letters_def)
  show ?thesis
    using run_RandString [OF assms(1), of 12 w] assms(2) no_dot
    by (cases "ReferenceValue spec = []") (auto simp: reference_value_def)
qed

section \<open>The first reconciliation\<close>

text \<open>A new volume: admitted, valid for the controller, without a server.\<close>

definition fresh_in :: "(key \<Rightarrow> kobj option) \<Rightarrow> VolumeReconcileConfig \<Rightarrow> VolumeObject \<Rightarrow> bool" where
  "fresh_in store config v \<longleftrightarrow>
     store (key_of (OVolume v)) = Some (OVolume v) \<and> vo_type v = VolumeObjFactory config
     \<and> om_DeletionTimestamp (vo_Meta v) = None \<and> ValidateCreate (vo_type v) (OVolume v) = Inr ()
     \<and> NfsServer (vo_Spec v) = None \<and> snd (FillAndValidateSpec v True (Namespace config)) = None
     \<and> sync_ok (filled_spec True (Namespace config) (vo_Spec v)) \<and> CHR ''.'' \<notin> set (ReferenceValue (vo_Spec v))"

text \<open>The specification after the first reconciliation.\<close>

definition generated_spec :: "string \<Rightarrow> string \<Rightarrow> VolumeSpecBase \<Rightarrow> VolumeSpecBase" where
  "generated_spec ref ns spec =
     (filled_spec True ns spec)\<lparr>ReferenceValue := ref, NfsServer := Some (generated_server ref ns)\<rparr>"

lemma generated_admitted:
  assumes "ValidateCreate (vo_type v) (OVolume v) = Inr ()" and "NfsServer (vo_Spec v) = None"
    and "sync_ok (filled_spec True ns (vo_Spec v))" and "ReferenceValue (vo_Spec v) \<noteq> [] \<longrightarrow> ref = ReferenceValue (vo_Spec v)"
    and "vo_type u = vo_type v" and "vo_Spec u = vo_Spec v" and "vo_type x = vo_type v" and "vo_Spec x = generated_spec ref ns (vo_Spec v)"
  shows "ValidateUpdate (vo_type v) (OVolume u) (OVolume x) = Inr ()"
proof -
  have "spec_ok (vo_type v) (vo_Spec v)"
    using assms(1) by (simp add: ValidateCreate_cases split: if_splits)
  then show ?thesis
    using assms(2-8) by (auto simp: ValidateUpdate_iff updateErrors_iff spec_ok_def generated_spec_def sync_ok_def
        fill_storage_admitted compareNfsServerSpecsWithDefaults_def)
qed

lemma same_spec_admitted:
  assumes "ValidateCreate (vo_type v) (OVolume v) = Inr ()" and "vo_type u = vo_type v" and "vo_Spec u = vo_Spec v"
  shows "ValidateUpdate (vo_type v) (OVolume v) (OVolume u) = Inr ()"
proof -
  have storage: "compareStorageSpecsWithDefaults s s" for s
    by (cases s) (simp_all add: compareStorageSpecsWithDefaults_def)
  show ?thesis
    using assms by (simp add: ValidateCreate_cases ValidateUpdate_iff updateErrors_iff storage fill_nfs_admitted split: if_splits)
qed

definition has_finalizer :: "string \<Rightarrow> ObjectMeta \<Rightarrow> ObjectMeta \<Rightarrow> bool" where
  "has_finalizer f m m' \<longleftrightarrow> (\<exists>rv fs. m' = m\<lparr>om_Finalizers := fs, om_ResourceVersion := rv\<rparr> \<and> f \<in> set fs)"

lemma has_finalizerI: "f \<in> set fs \<Longrightarrow> has_finalizer f m (m\<lparr>om_Finalizers := fs, om_ResourceVersion := rv\<rparr>)"
  unfolding has_finalizer_def by blast

lemma has_finalizer_refl: "f \<in> set (om_Finalizers m) \<Longrightarrow> has_finalizer f m m"
  using has_finalizerI [of f "om_Finalizers m" m "om_ResourceVersion m"] by simp

lemma has_finalizer_version:
  assumes "has_finalizer f m m'"
  shows "has_finalizer f m (m'\<lparr>om_ResourceVersion := rv\<rparr>)"
proof -
  obtain rv' fs where "m' = m\<lparr>om_Finalizers := fs, om_ResourceVersion := rv'\<rparr>" "f \<in> set fs"
    using assms unfolding has_finalizer_def by blast
  then show ?thesis using has_finalizerI [of f fs m rv] by simp
qed

lemma run_ensureFinalizer:
  assumes "stores_admitted env objs" and "objs (w_srv w) (key_of (OVolume v)) = Some (OVolume v)"
    and "ValidateCreate (vo_type v) (OVolume v) = Inr ()" and "om_DeletionTimestamp (vo_Meta v) = None"
    and "e = v\<lparr>vo_APIVersion := a, vo_Kind := k\<rparr>"
  shows "\<exists>v1 v2 w'. run_state (ensureFinalizer env e f) w = (Inr (Some v1), w')
    \<and> objs (w_srv w') = (objs (w_srv w))(key_of (OVolume v) \<mapsto> OVolume v2)
    \<and> vo_type v1 = vo_type v \<and> vo_Spec v1 = vo_Spec v \<and> vo_Status v1 = vo_Status v
    \<and> vo_type v2 = vo_type v \<and> vo_Spec v2 = vo_Spec v \<and> vo_Status v2 = vo_Status v \<and> vo_Meta v2 = vo_Meta v1
    \<and> has_finalizer f (vo_Meta v) (vo_Meta v1)"
proof (cases "f \<in> set (om_Finalizers (vo_Meta v))")
  case True
  have "has_finalizer f (vo_Meta v) (vo_Meta v)"
    using True by (rule has_finalizer_refl)
  moreover have "run_state (ensureFinalizer env e f) w = (Inr (Some e), w)"
    using True assms(5) by (simp add: ensureFinalizer_def)
  moreover have "objs (w_srv w) = (objs (w_srv w))(key_of (OVolume v) \<mapsto> OVolume v)"
    using assms(2) by (simp add: fun_upd_idem)
  moreover have "vo_Meta e = vo_Meta v" "vo_type e = vo_type v" "vo_Spec e = vo_Spec v" "vo_Status e = vo_Status v"
    by (simp_all add: assms(5))
  ultimately show ?thesis by metis
next
  case False
  let ?fs = "om_Finalizers (vo_Meta v) @ [f]"
  let ?e = "e\<lparr>vo_Meta := (vo_Meta e)\<lparr>om_Finalizers := om_Finalizers (vo_Meta e) @ [f]\<rparr>\<rparr>"
  have e: "vo_type ?e = vo_type v" "vo_Meta ?e = (vo_Meta v)\<lparr>om_Finalizers := ?fs\<rparr>" "vo_Status ?e = vo_Status v" "vo_Spec ?e = vo_Spec v"
    by (simp_all add: assms(5))
  have "ValidateUpdate (vo_type ?e) (OVolume v) (OVolume ?e) = Inr ()"
    using same_spec_admitted [OF assms(3) e(1,4)] e(1) by simp
  from run_UpdateVolume_admitted [OF assms(1,2) e(1-3) assms(4) this] obtain rv w' where
      w': "run_state (UpdateVolume env ?e) w = (Inr (new_version rv ?e), w')"
      "objs (w_srv w') = (objs (w_srv w))(key_of (OVolume v) \<mapsto> OVolume (new_version rv ?e))"
    by blast
  have "run_state (ensureFinalizer env e f) w = (Inr (Some (new_version rv ?e)), w')"
    using False w'(1) by (simp add: ensureFinalizer_def assms(5))
  moreover have "has_finalizer f (vo_Meta v) (vo_Meta (new_version rv ?e))"
    using has_finalizerI [of f ?fs "vo_Meta v" rv] e(2) by (simp add: new_version_def)
  moreover have "vo_type (new_version rv ?e) = vo_type v" "vo_Spec (new_version rv ?e) = vo_Spec v"
      "vo_Status (new_version rv ?e) = vo_Status v"
    using e by (simp_all add: new_version_def)
  ultimately show ?thesis
    using w'(2) by metis
qed

lemma generated_not_external:
  "CHR ''.'' \<notin> set ref \<Longrightarrow> \<not> IsExternalNfsServer (Some (generated_server ref ns))"
  by (auto simp: IsExternalNfsServer_Some generated_server_def Let_def strings_HasPrefix_def)

lemma generated_spec_fields [simp]:
  "NfsServer (generated_spec ref ns s) = Some (generated_server ref ns)" "ReferenceValue (generated_spec ref ns s) = ref"
  "Storage (generated_spec ref ns s) = map_option fill_storage (Storage s)" "MountPath (generated_spec ref ns s) = MountPath s"
  "Source (generated_spec ref ns s) = Source s"
  by (simp_all add: generated_spec_def)

lemma is_nfs: "kind_of obj = KNfsServer \<Longrightarrow> \<exists>x. obj = ONfsServer x"
  by (cases obj) auto

lemma run_CreateAndOwnNfsServer:
  assumes "stores env objs" and "CHR ''.'' \<notin> set ref" and "vo_Spec x = generated_spec ref ns spec" and "Storage spec = Some st"
  shows "\<exists>w' srv. run_state (CreateAndOwnNfsServer env x ns) w = (Inr (), w')
    \<and> objs (w_srv w') = (objs (w_srv w))((KNfsServer, ns, ''nfs-'' @ ref) \<mapsto> ONfsServer srv)"
proof -
  have name: "nfs_Name (generated_server ref ns) = ''nfs-'' @ ref"
    by (simp add: generated_server_def Let_def)
  note eval = CreateAndOwnNfsServer_def GetVolumeSpec_def assms(3,4) generated_not_external [OF assms(2)] name
    run_stored_Get [OF assms(1)] as_object_def Let_def
  show ?thesis
  proof (cases "objs (w_srv w) (KNfsServer, ns, ''nfs-'' @ ref)")
    case None
    let ?o = "ONfsServer (nfs_server_object env x ns (generated_server ref ns) (fill_storage st))"
    have k: "key_of ?o = (KNfsServer, ns, ''nfs-'' @ ref)"
      by (simp add: key_of_def nfs_server_object_def empty_meta_def name)
    let ?w = "w\<lparr>w_hist := w_hist w @ [EApi (GetReq KNfsServer ns (''nfs-'' @ ref)) (RError (NotFound (''nfs-'' @ ref)))]\<rparr>"
    obtain w' where w': "run_state (Create env ?o) ?w = (Inr (), w')" "objs (w_srv w') = (objs (w_srv w))(key_of ?o \<mapsto> ?o)"
      using run_stored_Create_ok [OF assms(1), of ?w ?o] None k by auto
    have "run_state (CreateAndOwnNfsServer env x ns) w = (Inr (), w')"
      using w'(1) None by (simp add: eval)
    with w'(2) k show ?thesis by auto
  next
    case (Some y)
    then obtain srv where y: "y = ONfsServer srv"
      using stored_kind [OF assms(1)] is_nfs by blast
    then have "\<exists>h. run_state (CreateAndOwnNfsServer env x ns) w = (Inr (), w\<lparr>w_hist := h\<rparr>)"
      using Some by (auto simp: eval)
    then obtain h where "run_state (CreateAndOwnNfsServer env x ns) w = (Inr (), w\<lparr>w_hist := h\<rparr>)" ..
    with Some y show ?thesis
      by (intro exI [of _ "w\<lparr>w_hist := h\<rparr>"] exI [of _ srv]) (simp add: fun_upd_idem)
  qed
qed

definition generated_in ::
  "(key \<Rightarrow> kobj option) \<Rightarrow> VolumeControllerBase \<Rightarrow> VolumeReconcileConfig \<Rightarrow> VolumeObject \<Rightarrow> VolumeObject \<Rightarrow> bool" where
  "generated_in store b config v u \<longleftrightarrow>
     store (key_of (OVolume v)) = Some (OVolume u) \<and> vo_type u = vo_type v \<and> vo_Status u = vo_Status v
     \<and> has_finalizer (FinalizerName config) (vo_Meta v) (vo_Meta u)
     \<and> (\<exists>ref srv. ref \<noteq> [] \<and> CHR ''.'' \<notin> set ref \<and> vo_Spec u = generated_spec ref (Namespace config) (vo_Spec v)
          \<and> store (KNfsServer, Namespace config, ''nfs-'' @ ref) = Some (ONfsServer srv))
     \<and> store (KNamespace, [], ControllerNamespace b) \<noteq> None"

lemma run_GenerateAndCreateNfsServer:
  assumes laws: "stores env objs" "stores_admitted env objs" "rand_keeps env objs"
    and fresh: "ValidateCreate (vo_type v) (OVolume v) = Inr ()" "NfsServer (vo_Spec v) = None" "Storage (vo_Spec v) = Some st"
      "sync_ok (filled_spec True ns (vo_Spec v))" "CHR ''.'' \<notin> set (ReferenceValue (vo_Spec v))"
    and stored: "objs (w_srv w) (key_of (OVolume v2)) = Some (OVolume v2)" "vo_type v2 = vo_type v" "vo_Spec v2 = vo_Spec v"
      "om_DeletionTimestamp (vo_Meta v2) = None"
    and mem: "vo_type v1 = vo_type v2" "vo_Meta v1 = vo_Meta v2" "vo_Status v1 = vo_Status v2"
      "vo_Spec v1 = filled_spec True ns (vo_Spec v)"
  shows "\<exists>w' x ref srv rv. run_state (GenerateAndCreateNfsServer env v1 ''sv'' ns) w = (Inr (2 * second, x), w')
    \<and> ref \<noteq> [] \<and> CHR ''.'' \<notin> set ref \<and> x = new_version rv (set_spec (generated_spec ref ns (vo_Spec v)) v1)
    \<and> objs (w_srv w') = (objs (w_srv w))(key_of (OVolume v2) \<mapsto> OVolume x, (KNfsServer, ns, ''nfs-'' @ ref) \<mapsto> ONfsServer srv)"
proof -
  have ref_kept: "ReferenceValue (vo_Spec v1) = ReferenceValue (vo_Spec v)"
    using mem(4) by simp
  obtain ref w1 where 1: "run_state (reference_value env (vo_Spec v1) ''sv'') w = (ref, w1)" "objs (w_srv w1) = objs (w_srv w)"
    and ref: "ref \<noteq> []" "CHR ''.'' \<notin> set ref" "ReferenceValue (vo_Spec v) \<noteq> [] \<longrightarrow> ref = ReferenceValue (vo_Spec v)"
    using run_reference_value [OF laws(3), of "vo_Spec v1" w] fresh(5) ref_kept by auto
  let ?x = "set_spec (generated_spec ref ns (vo_Spec v)) v1"
  have "ValidateUpdate (vo_type v) (OVolume v2) (OVolume ?x) = Inr ()"
    using generated_admitted [OF fresh(1,2,4) ref(3) stored(2,3), of ?x] mem(1) stored(2) by simp
  then have "\<exists>rv w'. run_state (UpdateVolume env ?x) w1 = (Inr (new_version rv ?x), w')
      \<and> objs (w_srv w') = (objs (w_srv w1))(key_of (OVolume v2) \<mapsto> OVolume (new_version rv ?x))"
    using run_UpdateVolume_admitted [OF laws(2), of w1 v2 ?x "om_Finalizers (vo_Meta v2)"] stored 1(2) mem by simp
  then obtain rv w2 where 2: "run_state (UpdateVolume env ?x) w1 = (Inr (new_version rv ?x), w2)"
      "objs (w_srv w2) = (objs (w_srv w1))(key_of (OVolume v2) \<mapsto> OVolume (new_version rv ?x))"
    by blast
  have "vo_Spec (new_version rv ?x) = generated_spec ref ns (vo_Spec v)"
    by (simp add: new_version_def)
  from run_CreateAndOwnNfsServer [OF laws(1) ref(2) this fresh(3)] obtain w3 srv where
    3: "run_state (CreateAndOwnNfsServer env (new_version rv ?x) ns) w2 = (Inr (), w3)"
      "objs (w_srv w3) = (objs (w_srv w2))((KNfsServer, ns, ''nfs-'' @ ref) \<mapsto> ONfsServer srv)"
    by blast
  have "run_state (GenerateAndCreateNfsServer env v1 ''sv'' ns) w = (Inr (2 * second, new_version rv ?x), w3)"
    using 1(1) 2(1) 3(1) mem(4) by (simp add: GenerateAndCreateNfsServer_def GetVolumeSpec_def generated_spec_def)
  with 1(2) 2(2) 3(2) ref(1,2) show ?thesis by auto
qed

lemma has_finalizer_fields:
  assumes "has_finalizer f m m'"
  shows "om_Name m' = om_Name m" "om_Namespace m' = om_Namespace m" "om_DeletionTimestamp m' = om_DeletionTimestamp m"
    "f \<in> set (om_Finalizers m')"
  using assms by (auto simp: has_finalizer_def)

lemma fresh_storage:
  assumes "snd (FillAndValidateSpec v g ns) = None"
  obtains st where "Storage (vo_Spec v) = Some st" "st_Capacity st \<noteq> []" "st_AccessMode st \<in> {[], ''ReadWrite'', ''ReadOnly''}"
    "MountPath (vo_Spec v) \<noteq> []"
  using assms by (auto simp: FillAndValidateSpec_ok_iff split: option.splits)

lemma run_to_filled:
  assumes laws: "stores env objs" "stores_admitted env objs" and fresh: "fresh_in (objs (w_srv w)) config v"
  shows "\<exists>v1 v2 w' x. run_state (ReconcileGeneric env b (GetNamespace v) (GetName v) config) w
        = run_state (reconcile_filled env b v1 (Namespace config) (Some (CreateSyncReadyCallback b)) (Some (CreateSyncNotReadyCallback b))) w'
    \<and> objs (w_srv w') = (objs (w_srv w))((KNamespace, [], ControllerNamespace b) \<mapsto> x, key_of (OVolume v) \<mapsto> OVolume v2)
    \<and> kind_of x = KNamespace \<and> vo_type v1 = vo_type v \<and> vo_Spec v1 = vo_Spec v \<and> vo_Status v1 = vo_Status v
    \<and> vo_type v2 = vo_type v \<and> vo_Spec v2 = vo_Spec v \<and> vo_Status v2 = vo_Status v \<and> vo_Meta v2 = vo_Meta v1
    \<and> has_finalizer (FinalizerName config) (vo_Meta v) (vo_Meta v1)"
proof -
  let ?e = "EnsureAPIVersionAndKind env v (APIVersion config) (Kind config)"
  note fresh = fresh [unfolded fresh_in_def]
  obtain h where 1: "run_state (GetVolume env (VolumeObjFactory config) (GetNamespace v) (GetName v)) w = (Inr v, w\<lparr>w_hist := h\<rparr>)"
    using findsD [OF finds_GetVolume [OF laws(1)], of "w_srv w" "VolumeObjFactory config" "GetNamespace v" "GetName v" v w] fresh
    by (auto simp: key_of_def)
  obtain w1 x where 2: "run_state (EnsureControllerNamespace env b) (w\<lparr>w_hist := h\<rparr>) = (Inr (), w1)"
      "objs (w_srv w1) = (objs (w_srv w))((KNamespace, [], ControllerNamespace b) \<mapsto> x)" "kind_of x = KNamespace"
    using run_EnsureControllerNamespace [OF laws(1), of b "w\<lparr>w_hist := h\<rparr>"] by auto
  have e: "?e = v\<lparr>vo_APIVersion := vo_APIVersion ?e, vo_Kind := vo_Kind ?e\<rparr>"
    by (simp add: EnsureAPIVersionAndKind_def Let_def)
  have stored1: "objs (w_srv w1) (key_of (OVolume v)) = Some (OVolume v)"
    using 2(2) fresh by (auto simp: key_of_def)
  obtain v1 v2 w2 where 3: "run_state (ensureFinalizer env ?e (FinalizerName config)) w1 = (Inr (Some v1), w2)"
      "objs (w_srv w2) = (objs (w_srv w1))(key_of (OVolume v) \<mapsto> OVolume v2)"
    and v: "vo_type v1 = vo_type v" "vo_Spec v1 = vo_Spec v" "vo_Status v1 = vo_Status v"
      "vo_type v2 = vo_type v" "vo_Spec v2 = vo_Spec v" "vo_Status v2 = vo_Status v" "vo_Meta v2 = vo_Meta v1"
      "has_finalizer (FinalizerName config) (vo_Meta v) (vo_Meta v1)"
    using run_ensureFinalizer [OF laws(2) stored1 _ _ e] fresh by blast
  have "om_DeletionTimestamp (vo_Meta ?e) = None"
    using fresh by (subst e) simp
  then have "run_state (ReconcileGeneric env b (GetNamespace v) (GetName v) config) w
      = run_state (reconcile_filled env b v1 (Namespace config) (Some (CreateSyncReadyCallback b)) (Some (CreateSyncNotReadyCallback b))) w2"
    using 1 2(1) 3(1) by (simp add: ReconcileGeneric_def ReconcileVolume_def HandleFinalizerLogic_def)
  with 3(2) 2(2,3) v show ?thesis by metis
qed

lemma first_pass:
  assumes laws: "stores env objs" "stores_admitted env objs" "rand_keeps env objs"
    and new: "fresh_in (objs (w_srv w)) config v" and "replicas_set (objs (w_srv w))"
  shows "\<exists>w' u. run_state (ReconcileGeneric env b (GetNamespace v) (GetName v) config) w = (Inr (2 * second), w')
    \<and> generated_in (objs (w_srv w')) b config v u \<and> replicas_set (objs (w_srv w'))"
proof -
  let ?ns = "Namespace config" and ?f = "FinalizerName config"
  note fresh = new [unfolded fresh_in_def]
  obtain st where st: "Storage (vo_Spec v) = Some st"
    using fresh fresh_storage by blast
  obtain v1 v2 w2 x where 1: "run_state (ReconcileGeneric env b (GetNamespace v) (GetName v) config) w
        = run_state (reconcile_filled env b v1 ?ns (Some (CreateSyncReadyCallback b)) (Some (CreateSyncNotReadyCallback b))) w2"
    and 2: "objs (w_srv w2) = (objs (w_srv w))((KNamespace, [], ControllerNamespace b) \<mapsto> x, key_of (OVolume v) \<mapsto> OVolume v2)"
      "kind_of x = KNamespace"
    and v1: "vo_type v1 = vo_type v" "vo_Spec v1 = vo_Spec v" "vo_Status v1 = vo_Status v"
    and v2: "vo_type v2 = vo_type v" "vo_Spec v2 = vo_Spec v" "vo_Status v2 = vo_Status v" "vo_Meta v2 = vo_Meta v1"
    and fin: "has_finalizer ?f (vo_Meta v) (vo_Meta v1)"
    using run_to_filled [OF laws(1,2) new, of b] by blast
  let ?u = "set_spec (filled_spec True ?ns (vo_Spec v)) v1"
  have fill: "FillAndValidateSpec v1 True ?ns = (?u, None)"
    using FillAndValidateSpec_ok [of v1 True ?ns] fresh by (simp add: FillAndValidateSpec_ok_iff v1)
  have key2: "key_of (OVolume v2) = key_of (OVolume v)" "om_DeletionTimestamp (vo_Meta v2) = None"
    using v2 fresh has_finalizer_fields [OF fin] by (simp_all add: key_of_def)
  then obtain w3 y ref srv rv where 4: "run_state (GenerateAndCreateNfsServer env ?u ''sv'' ?ns) w2 = (Inr (2 * second, y), w3)"
    and ref: "ref \<noteq> []" "CHR ''.'' \<notin> set ref" "y = new_version rv (set_spec (generated_spec ref ?ns (vo_Spec v)) ?u)"
    and srv: "objs (w_srv w3) = (objs (w_srv w2))(key_of (OVolume v2) \<mapsto> OVolume y, (KNfsServer, ?ns, ''nfs-'' @ ref) \<mapsto> ONfsServer srv)"
    using run_GenerateAndCreateNfsServer [OF laws _ _ st, of ?ns w2 v2 ?u] fresh v1 v2 2(1) by auto
  have "NfsServer (vo_Spec v1) = None"
    using v1(2) fresh by simp
  then have "run_state (ReconcileGeneric env b (GetNamespace v) (GetName v) config) w = (Inr (2 * second), w3)"
    using 1 4 fill by (simp add: reconcile_filled_def GetVolumeSpec_def ReconcileNfsServerComplete_def second_def millisecond_def)
  moreover have "has_finalizer ?f (vo_Meta v) (vo_Meta y)"
    using has_finalizer_version [OF fin] ref(3) by (simp add: new_version_def)
  moreover have "vo_type y = vo_type v" "vo_Status y = vo_Status v" "vo_Spec y = generated_spec ref ?ns (vo_Spec v)"
    using ref(3) v1 by (simp_all add: new_version_def)
  moreover have "objs (w_srv w3) = (objs (w_srv w))((KNamespace, [], ControllerNamespace b) \<mapsto> x, key_of (OVolume v) \<mapsto> OVolume v2,
      key_of (OVolume v) \<mapsto> OVolume y, (KNfsServer, ?ns, ''nfs-'' @ ref) \<mapsto> ONfsServer srv)"
    using srv 2(1) key2(1) by simp
  moreover have "replicas_set \<dots>"
    using assms(5) 2(2) by (intro replicas_set_upd) auto
  ultimately show ?thesis
    using ref(1,2) by (intro exI [of _ w3] exI [of _ y]) (auto simp: generated_in_def key_of_def)
qed

text \<open>Once the operator has made the server ready, the volume is served.\<close>

lemma generated_served:
  assumes "generated_in store b config v u" and "fresh_in store0 config v" and "store' = (\<lambda>k. map_option others_act (store k))"
  shows "served_in store' b config u"
proof -
  let ?ns = "Namespace config"
  note gen = assms(1) [unfolded generated_in_def] and fresh = assms(2) [unfolded fresh_in_def]
  obtain ref srv where ref: "ref \<noteq> []" "vo_Spec u = generated_spec ref ?ns (vo_Spec v)"
      "store (KNfsServer, ?ns, ''nfs-'' @ ref) = Some (ONfsServer srv)"
    using gen by blast
  obtain st where st: "Storage (vo_Spec v) = Some st" "st_Capacity st \<noteq> []" "st_AccessMode st \<in> {[], ''ReadWrite'', ''ReadOnly''}"
      "MountPath (vo_Spec v) \<noteq> []"
    using fresh fresh_storage by blast
  have fin: "has_finalizer (FinalizerName config) (vo_Meta v) (vo_Meta u)"
    using gen by blast
  have key: "key_of (OVolume u) = key_of (OVolume v)"
    using gen has_finalizer_fields [OF fin] by (simp add: key_of_def)
  have "snd (FillAndValidateSpec u False ?ns) = None"
    using st by (auto simp: FillAndValidateSpec_ok_iff ref(2) fill_storage_def)
  moreover have "server_ready store' u ?ns"
  proof -
    have "store' (KNfsServer, ?ns, ''nfs-'' @ ref) = Some (ONfsServer (srv\<lparr>ns_Ready := True\<rparr>))"
      using ref(3) by (auto simp: assms(3))
    moreover have "NfsServer (vo_Spec u) = Some (generated_server ref ?ns)" "nfs_Name (generated_server ref ?ns) = ''nfs-'' @ ref"
        "nfs_Namespace (generated_server ref ?ns) = ?ns"
      by (simp_all add: ref(2) generated_server_def Let_def)
    ultimately show ?thesis
      unfolding server_ready_def by (intro exI conjI disjI2) auto
  qed
  ultimately show ?thesis
    using gen fresh key ref(1) has_finalizer_fields [OF fin] by (auto simp: served_in_def ref(2) assms(3))
qed

section \<open>The second reconciliation\<close>

text \<open>Each of the four resources can be made, whatever is there.\<close>

lemma run_PV_ok:
  assumes "stores env objs" and "Storage (vo_Spec v) = Some st" and "e_ParseQuantity env (st_Capacity st) = Inr q"
    and "NfsServer (vo_Spec v) = Some nfs" and "IsExternalNfsServer (Some nfs) \<or> GetManagedNfsServerAddress v nfs \<noteq> []"
  shows "\<exists>w'. run_state (ReconcilePersistentVolume env v ns) w = (Inr (), w')"
proof (cases "objs (w_srv w) (KPersistentVolume, [], pv_name (vo_Spec v))")
  case None
  have "\<exists>w'. run_state (Create env (OPersistentVolume (volume_object v ns q a p))) (w\<lparr>w_hist := h\<rparr>) = (Inr (), w')" for a p h
    using run_stored_Create_ok [OF assms(1), of "w\<lparr>w_hist := h\<rparr>" "OPersistentVolume (volume_object v ns q a p)"] None
    by (auto simp: key_of_def volume_object_def empty_meta_def GetVolumeSpec_def)
  then show ?thesis
    using None assms(2-5) by (auto simp: ReconcilePersistentVolume_def run_stored_Get [OF assms(1)] GetVolumeSpec_def Let_def)
next
  case (Some x)
  then obtain pv where "x = OPersistentVolume pv"
    using stored_kind [OF assms(1)] is_the(1) by blast
  with Some show ?thesis
    by (simp add: ReconcilePersistentVolume_def run_stored_Get [OF assms(1)] as_object_def GetVolumeSpec_def Let_def)
qed

lemma run_PVC_ok:
  assumes "stores env objs" and "Storage (vo_Spec v) = Some st" and "e_ParseQuantity env (st_Capacity st) = Inr q"
  shows "\<exists>w'. run_state (ReconcilePersistentVolumeClaim env v ns) w = (Inr (), w')"
proof (cases "objs (w_srv w) (KPersistentVolumeClaim, ns, ReferenceValue (vo_Spec v))")
  case None
  have "\<exists>w'. run_state (Create env (OPersistentVolumeClaim (claim_object env v ns q))) (w\<lparr>w_hist := h\<rparr>) = (Inr (), w')" for h
    using run_stored_Create_ok [OF assms(1), of "w\<lparr>w_hist := h\<rparr>" "OPersistentVolumeClaim (claim_object env v ns q)"] None
    by (auto simp: key_of_def claim_object_def empty_meta_def GetVolumeSpec_def)
  then show ?thesis
    using None assms(2,3) by (auto simp: ReconcilePersistentVolumeClaim_def run_stored_Get [OF assms(1)] GetVolumeSpec_def Let_def)
next
  case (Some x)
  then obtain pvc where "x = OPersistentVolumeClaim pvc"
    using stored_kind [OF assms(1)] is_the(2) by blast
  with Some show ?thesis
    by (simp add: ReconcilePersistentVolumeClaim_def run_stored_Get [OF assms(1)] as_object_def GetVolumeSpec_def Let_def)
qed

lemma run_recreated_ok:
  assumes st: "stores env objs" and new: "key_of new = k"
    and dec: "\<And>obj. kind_of obj = fst k \<Longrightarrow> \<exists>x. dec obj = Some x \<and> C x = obj"
    and m: "m = do {
      r \<leftarrow> Get_as dec env (fst k) (fst (snd k)) (snd (snd k));
      case r of
        Inl _ \<Rightarrow> Create env new
      | Inr old \<Rightarrow> if outdated old then bindE (Delete env (C old)) (\<lambda>_. Create env new) else ret (Inr ()) }"
  shows "\<exists>w'. run_state m w = (Inr (), w')"
proof (cases "objs (w_srv w) k")
  case None
  let ?w = "w\<lparr>w_hist := w_hist w @ [EApi (GetReq (fst k) (fst (snd k)) (snd (snd k))) (RError (NotFound (snd (snd k))))]\<rparr>"
  obtain w' where "run_state (Create env new) ?w = (Inr (), w')"
    using run_stored_Create_ok [OF st, of ?w new] None new by auto
  with None show ?thesis
    by (simp add: m run_stored_Get [OF st])
next
  case (Some x)
  then obtain y where y: "dec x = Some y" "C y = x"
    using stored_kind [OF st] dec by (metis prod.collapse)
  let ?w = "w\<lparr>w_hist := w_hist w @ [EApi (GetReq (fst k) (fst (snd k)) (snd (snd k))) (RObject x)]\<rparr>"
  have k: "key_of x = k"
    using stored_key [OF st Some] .
  have "fst (e_api env (DeleteReq (kind_of x) (om_Namespace (meta_of x)) (om_Name (meta_of x)) None) (w_srv w)) = RDone"
    using st k Some unfolding stores_def key_of_def by blast
  then obtain w1 where w1: "run_state (Delete env x) ?w = (Inr (), w1)"
    by (simp add: Delete_def run_api_call as_done_def)
  then have "objs (w_srv w1) k = None"
    using run_stored_Delete [OF st _ w1] k Some by simp
  then obtain w2 where "run_state (Create env new) w1 = (Inr (), w2)"
    using run_stored_Create_ok [OF st, of w1 new] new by auto
  with Some y w1 show ?thesis
    by (simp add: m run_stored_Get [OF st] as_object_def)
qed

lemma run_RS_ok:
  assumes "stores env objs"
  shows "\<exists>w'. run_state (ReconcileReplicaSet env v ns) w = (Inr (), w')"
  by (rule run_recreated_ok [OF assms, where k = "(KReplicaSet, ns, ReferenceValue (GetVolumeSpec v))" and dec = the_rs
        and C = OReplicaSet and outdated = replica_set_outdated and new = "OReplicaSet (replica_set_object env v ns)"])
     (auto simp: ReconcileReplicaSet_def key_of_def replica_set_object_def empty_meta_def Let_def dest: is_the(3))

lemma run_Service_ok:
  assumes "stores env objs"
  shows "\<exists>w'. run_state (ReconcileService env v ns) w = (Inr (), w')"
  by (rule run_recreated_ok [OF assms, where k = "(KService, ns, ReferenceValue (GetVolumeSpec v))" and dec = the_svc
        and C = OService and outdated = service_outdated and new = "OService (service_object env v ns)"])
     (auto simp: ReconcileService_def key_of_def service_object_def empty_meta_def Let_def dest: is_the(4))

lemma run_required_ok:
  assumes "stores env objs" and "Storage (vo_Spec v) = Some st" and "e_ParseQuantity env (st_Capacity st) = Inr q"
    and "NfsServer (vo_Spec v) = Some nfs" and "IsExternalNfsServer (Some nfs) \<or> GetManagedNfsServerAddress v nfs \<noteq> []"
    and "ReferenceValue (vo_Spec v) \<noteq> []"
  shows "\<exists>w'. run_state (ReconcileRequiredResources env v ns) w = (Inr (), w')"
proof -
  obtain w1 where 1: "run_state (ReconcilePersistentVolume env v ns) w = (Inr (), w1)"
    using run_PV_ok [OF assms(1-5)] by blast
  obtain w2 where 2: "run_state (ReconcilePersistentVolumeClaim env v ns) w1 = (Inr (), w2)"
    using run_PVC_ok [OF assms(1-3)] by blast
  obtain w3 where 3: "run_state (ReconcileReplicaSet env v ns) w2 = (Inr (), w3)"
    using run_RS_ok [OF assms(1)] by blast
  obtain w4 where 4: "run_state (ReconcileService env v ns) w3 = (Inr (), w4)"
    using run_Service_ok [OF assms(1)] by blast
  from 1 2 3 4 assms(6) show ?thesis
    by (simp add: ReconcileRequiredResources_def GetVolumeSpec_def)
qed

text \<open>The readiness update, whatever is ready, and the steps before it.\<close>

definition same_but_version :: "VolumeObject \<Rightarrow> VolumeObject \<Rightarrow> bool" where
  "same_but_version v v' \<longleftrightarrow> vo_type v' = vo_type v \<and> vo_Spec v' = vo_Spec v
     \<and> (\<exists>rv. vo_Meta v' = (vo_Meta v)\<lparr>om_ResourceVersion := rv\<rparr>)"

lemma same_but_version_refl: "same_but_version v v"
  unfolding same_but_version_def by (intro conjI exI [of _ "om_ResourceVersion (vo_Meta v)"]) simp_all

lemma same_but_version_fields:
  assumes "same_but_version v v'"
  shows "key_of (OVolume v') = key_of (OVolume v)" "GetNamespace v' = GetNamespace v" "GetName v' = GetName v"
    "om_Finalizers (vo_Meta v') = om_Finalizers (vo_Meta v)" "om_DeletionTimestamp (vo_Meta v') = om_DeletionTimestamp (vo_Meta v)"
  using assms by (auto simp: same_but_version_def key_of_def)

lemma run_logged_StopSync:
  "\<exists>w'. run_state (logged (CreateSyncNotReadyCallback b v)) w = (Inr (), w') \<and> w_srv w' = w_srv w"
  by (cases "vo_type v") (simp_all add: logged_def CreateSyncNotReadyCallback_def StopSync_def StopSyncForSharedVolume_def
      StopSyncForClusterSharedVolume_def split_beta)

lemma run_update_any:
  assumes "stores env objs" and "stores_status env objs"
    and "objs (w_srv w) (key_of (OVolume v)) = Some (OVolume v)" and "key_of (OVolume u) = key_of (OVolume v)"
  shows "\<exists>u' v' w'. run_state (update_if_needed env u True r (Some (CreateSyncReadyCallback b)) (Some (CreateSyncNotReadyCallback b))) w
        = (Inr u', w')
      \<and> same_but_version v v' \<and> objs (w_srv w') = (objs (w_srv w))(key_of (OVolume v) \<mapsto> OVolume v')"
proof (cases "ShouldUpdateReadinessStatus u True r")
  case False
  then have "run_state (update_if_needed env u True r (Some (CreateSyncReadyCallback b)) (Some (CreateSyncNotReadyCallback b))) w = (Inr u, w)"
    by (simp add: update_if_needed_def)
  moreover have "objs (w_srv w) = (objs (w_srv w))(key_of (OVolume v) \<mapsto> OVolume v)"
    using assms(3) by (simp add: fun_upd_idem)
  ultimately show ?thesis
    using same_but_version_refl by blast
next
  case True
  let ?on = "Some (CreateSyncReadyCallback b)" and ?off = "Some (CreateSyncNotReadyCallback b)"
  obtain u' v' w1 where 1: "run_state (UpdateReadinessStatus env u True r ?on ?off) w
        = run_state (bindE (case (if r then ?on else ?off) of None \<Rightarrow> ret (Inr ()) | Some callback \<Rightarrow> logged (callback u'))
            (\<lambda>_. ret (Inr u'))) w1"
      and v': "restatused (DeterminePhase True r) v v'"
      and srv: "objs (w_srv w1) = (objs (w_srv w))(key_of (OVolume v) \<mapsto> OVolume v')"
    using run_UpdateReadinessStatus [OF assms, of r ?on ?off] by blast
  obtain w2 where 2: "run_state (logged (the (if r then ?on else ?off) u')) w1 = (Inr (), w2)" "w_srv w2 = w_srv w1"
    using run_logged_StartSync [of b u' w1] run_logged_StopSync [of b u' w1]
    by (cases r) (auto simp: CreateSyncReadyCallback_def)
  have "run_state (update_if_needed env u True r ?on ?off) w = (Inr u', w2)"
    using True 1 2(1) by (cases r) (simp_all add: update_if_needed_def)
  moreover have "same_but_version v v'"
    using v' by (auto simp: restatused_def same_but_version_def)
  ultimately show ?thesis
    using srv 2(2) by auto
qed

lemma run_CheckResourceReadiness_any:
  assumes "stores env objs" and "stores_status env objs"
    and "objs (w_srv w) (key_of (OVolume v)) = Some (OVolume v)" and "key_of (OVolume u) = key_of (OVolume v)"
    and "server_ready (objs (w_srv w)) u ns" and "ReferenceValue (vo_Spec u) \<noteq> []"
    and pvc: "objs (w_srv w) (KPersistentVolumeClaim, ns, ReferenceValue (vo_Spec u)) = Some (OPersistentVolumeClaim pvc)"
    and rs: "objs (w_srv w) (KReplicaSet, ns, ReferenceValue (vo_Spec u)) = Some (OReplicaSet rs)"
  shows "\<exists>u' v' w'. run_state (CheckResourceReadiness env u ns (Some (CreateSyncReadyCallback b)) (Some (CreateSyncNotReadyCallback b))) w
        = (Inr u', w')
      \<and> same_but_version v v' \<and> objs (w_srv w') = (objs (w_srv w))(key_of (OVolume v) \<mapsto> OVolume v')"
proof -
  let ?on = "Some (CreateSyncReadyCallback b)" and ?off = "Some (CreateSyncNotReadyCallback b)"
  obtain msg where "finds (w_srv w) (CheckNfsServerStatus env u ns) (Inr (True, [], msg))"
    using finds_server [OF assms(1,5)] by blast
  then obtain h where 1: "run_state (CheckNfsServerStatus env u ns) w = (Inr (True, [], msg), w\<lparr>w_hist := h\<rparr>)"
    using findsD by fastforce
  have "finds (w_srv w) (GetPVC env ns (ReferenceValue (vo_Spec u))) (Inr pvc)"
    by (rule finds_Get [OF assms(1) pvc]) simp
  then have "finds (w_srv w) (IsPVCReady env u ns) (Inr (pvc_Phase pvc = ''Bound''))"
    by (simp add: IsPVCReady_def GetVolumeSpec_def finds_bind finds_ret)
  from findsD [OF this, of "w\<lparr>w_hist := h\<rparr>"] obtain h1 where
    2: "run_state (IsPVCReady env u ns) (w\<lparr>w_hist := h\<rparr>) = (Inr (pvc_Phase pvc = ''Bound''), w\<lparr>w_hist := h1\<rparr>)"
    by auto
  have "finds (w_srv w) (GetReplicaSet env ns (ReferenceValue (vo_Spec u))) (Inr rs)"
    by (rule finds_Get [OF assms(1) rs]) simp
  then have "finds (w_srv w) (IsReplicaSetReady env u ns) (Inr (rs_Replicas rs = Some (rs_ReadyReplicas rs)))"
    unfolding IsReplicaSetReady_def GetVolumeSpec_def
    by (rule finds_bind) (cases "rs_Replicas rs"; simp add: finds_ret eq_commute)
  from findsD [OF this, of "w\<lparr>w_hist := h1\<rparr>"] obtain h2 where
    3: "run_state (IsReplicaSetReady env u ns) (w\<lparr>w_hist := h1\<rparr>) = (Inr (rs_Replicas rs = Some (rs_ReadyReplicas rs)), w\<lparr>w_hist := h2\<rparr>)"
    by auto
  have "\<exists>r h'. run_state (CheckResourceReadiness env u ns ?on ?off) w
      = run_state (update_if_needed env u True r ?on ?off) (w\<lparr>w_hist := h'\<rparr>)"
    using assms(6) 1 2 3 by (cases "pvc_Phase pvc = ''Bound''") (auto simp: CheckResourceReadiness_def GetVolumeSpec_def)
  then obtain r h' where "run_state (CheckResourceReadiness env u ns ?on ?off) w
      = run_state (update_if_needed env u True r ?on ?off) (w\<lparr>w_hist := h'\<rparr>)"
    by blast
  with run_update_any [OF assms(1,2), of "w\<lparr>w_hist := h'\<rparr>" v u r b] assms(3,4) show ?thesis
    by auto
qed

text \<open>A served volume whose resources are stored, each as the controller makes it.\<close>

definition provided_in :: "(key \<Rightarrow> kobj option) \<Rightarrow> string \<Rightarrow> string \<Rightarrow> bool" where
  "provided_in store ref ns \<longleftrightarrow>
     store (KPersistentVolume, [], ''pv-'' @ ref) \<noteq> None
     \<and> (\<exists>pvc. store (KPersistentVolumeClaim, ns, ref) = Some (OPersistentVolumeClaim pvc))
     \<and> (\<exists>rs. store (KReplicaSet, ns, ref) = Some (OReplicaSet rs) \<and> \<not> replica_set_outdated rs \<and> rs_Replicas rs \<noteq> None)
     \<and> (\<exists>svc. store (KService, ns, ref) = Some (OService svc) \<and> \<not> service_outdated svc)"

lemma provided_by_run:
  assumes "stores env objs" and "run_state (ReconcileRequiredResources env u ns) w = (Inr (), w')" and "replicas_set (objs (w_srv w))"
  shows "provided_in (objs (w_srv w')) (ReferenceValue (vo_Spec u)) ns
    \<and> (\<forall>k. fst k \<notin> {KPersistentVolume, KPersistentVolumeClaim, KReplicaSet, KService} \<longrightarrow> objs (w_srv w') k = objs (w_srv w) k)"
proof -
  let ?ref = "ReferenceValue (vo_Spec u)"
  obtain a b c d where w': "objs (w_srv w') = (objs (w_srv w))
      ((KPersistentVolume, [], ''pv-'' @ ?ref) \<mapsto> a, (KPersistentVolumeClaim, ns, ?ref) \<mapsto> b,
       (KReplicaSet, ns, ?ref) \<mapsto> c, (KService, ns, ?ref) \<mapsto> d)"
    and ok: "up_to_date c" "up_to_date d" "objs (w_srv w) (KReplicaSet, ns, ?ref) = Some c \<or> as_made c"
    using required_settled [OF assms(1,2)] unfolding GetVolumeSpec_def pv_name_def by blast
  have at: "objs (w_srv w') (KPersistentVolumeClaim, ns, ?ref) = Some b" "objs (w_srv w') (KReplicaSet, ns, ?ref) = Some c"
      "objs (w_srv w') (KService, ns, ?ref) = Some d"
    by (simp_all add: w')
  note kinds = at [THEN stored_kind [OF assms(1)]]
  obtain pvc rs svc where objs: "b = OPersistentVolumeClaim pvc" "c = OReplicaSet rs" "d = OService svc"
    using is_the(2) [OF kinds(1)] is_the(3) [OF kinds(2)] is_the(4) [OF kinds(3)] by blast
  have "rs_Replicas rs \<noteq> None"
    using ok(3) assms(3) by (auto simp: objs replicas_set_def)
  with ok show ?thesis
    by (auto simp: provided_in_def w' objs)
qed

lemma served_updated:
  assumes served: "served_in store b config u" and u': "same_but_version u u'"
    and frame: "\<And>k. fst k \<notin> {KPersistentVolume, KPersistentVolumeClaim, KReplicaSet, KService} \<Longrightarrow> store' k = store k"
  shows "served_in (store'(key_of (OVolume u) \<mapsto> OVolume u')) b config u'"
proof -
  let ?ns = "Namespace config" and ?store = "store'(key_of (OVolume u) \<mapsto> OVolume u')"
  note served' = served [unfolded served_in_def]
  have "snd (FillAndValidateSpec u' False ?ns) = None"
    using served' u' by (simp add: FillAndValidateSpec_ok_iff same_but_version_def)
  moreover have "server_ready ?store u' ?ns"
    using served' u' by (simp add: server_ready_def frame key_of_def same_but_version_def)
  moreover have "?store (KNamespace, [], ControllerNamespace b) \<noteq> None"
    using served' frame by (simp add: key_of_def)
  ultimately show ?thesis
    using served' same_but_version_fields [OF u'] u' by (simp add: served_in_def same_but_version_def)
qed

lemma second_pass:
  assumes laws: "stores env objs" "stores_status env objs"
    and served: "served_in (objs (w_srv w)) b config u" and rep: "replicas_set (objs (w_srv w))"
    and st: "Storage (vo_Spec u) = Some st" "st_AccessMode st \<noteq> []" "e_ParseQuantity env (st_Capacity st) = Inr q"
    and nfs: "NfsServer (vo_Spec u) = Some nfs" "nfs_Name nfs \<noteq> []" "nfs_Namespace nfs \<noteq> []"
  shows "\<exists>r w' u'. run_state (ReconcileGeneric env b (GetNamespace u) (GetName u) config) w = (Inr r, w')
    \<and> same_but_version u u' \<and> served_in (objs (w_srv w')) b config u'
    \<and> provided_in (objs (w_srv w')) (ReferenceValue (vo_Spec u)) (Namespace config)"
proof -
  let ?ns = "Namespace config" and ?ref = "ReferenceValue (vo_Spec u)" and ?i = "in_memory env config u"
  let ?on = "Some (CreateSyncReadyCallback b)" and ?off = "Some (CreateSyncNotReadyCallback b)"
  note served' = served [unfolded served_in_def]
  have ready: "server_ready (objs (w_srv w)) ?i ?ns"
    using in_memory_ready served' by blast
  obtain m where m: "finds (w_srv w) (ReconcileNfsServer env ?i False ?ns) (Inr (0, m))" "seen m ?i"
    using finds_ReconcileNfsServer [OF laws(1) ready] by blast
  then have fields: "key_of (OVolume m) = key_of (OVolume u)" "ReferenceValue (vo_Spec m) = ?ref" "Storage (vo_Spec m) = Some st"
    using st by (auto simp: seen_def key_of_def fill_storage_def)
  obtain nfs' where nfs': "NfsServer (vo_Spec m) = Some nfs'" "nfs_Name nfs' \<noteq> []" "nfs_Namespace nfs' \<noteq> []"
    using m(2) nfs by (auto simp: seen_def filled_spec_nfs fill_path_server)
  then have address: "GetManagedNfsServerAddress m nfs' \<noteq> []"
    by (simp add: GetManagedNfsServerAddress_def)
  obtain h where 1: "run_state (ReconcileGeneric env b (GetNamespace u) (GetName u) config) w
      = run_state (reconcile_with_server env b m ?ns ''sv'' ?on ?off) (w\<lparr>w_hist := h\<rparr>)"
    using run_to_server [OF laws(1) served m(1)] by blast
  obtain w1 where 2: "run_state (ReconcileRequiredResources env m ?ns) (w\<lparr>w_hist := h\<rparr>) = (Inr (), w1)"
    using run_required_ok [OF laws(1) fields(3) st(3) nfs'(1)] address served' fields(2) by auto
  have provided: "provided_in (objs (w_srv w1)) ?ref ?ns"
    and frame: "\<And>k. fst k \<notin> {KPersistentVolume, KPersistentVolumeClaim, KReplicaSet, KService} \<Longrightarrow> objs (w_srv w1) k = objs (w_srv w) k"
    using provided_by_run [OF laws(1) 2] rep unfolding fields(2) by (simp, fastforce)
  let ?start = "if GetPhase m = ''Ready'' then logged (StartSync b m) else ret (Inr ())"
  obtain w2 where 3: "run_state ?start w1 = (Inr (), w2)" "w_srv w2 = w_srv w1"
    using run_logged_StartSync [of b m w1] by (cases "GetPhase m = ''Ready''") auto
  have stored: "objs (w_srv w2) (key_of (OVolume u)) = Some (OVolume u)"
    using served' frame [of "key_of (OVolume u)"] 3(2) by (auto simp: key_of_def)
  have server: "server_ready (objs (w_srv w1)) v ?ns = server_ready (objs (w_srv w)) v ?ns" for v
    by (simp add: server_ready_def frame)
  have "server_ready (objs (w_srv w2)) m ?ns"
    using seen_ready [OF m(2) ready] server 3(2) by simp
  moreover obtain pvc rs where
    "objs (w_srv w2) (KPersistentVolumeClaim, ?ns, ReferenceValue (vo_Spec m)) = Some (OPersistentVolumeClaim pvc)"
    "objs (w_srv w2) (KReplicaSet, ?ns, ReferenceValue (vo_Spec m)) = Some (OReplicaSet rs)"
    using provided fields(2) 3(2) unfolding provided_in_def by auto
  moreover have "ReferenceValue (vo_Spec m) \<noteq> []"
    using served' fields(2) by simp
  ultimately obtain m' u' w3 where 4: "run_state (CheckResourceReadiness env m ?ns ?on ?off) w2 = (Inr m', w3)"
    and u': "same_but_version u u'"
    and w3: "objs (w_srv w3) = (objs (w_srv w2))(key_of (OVolume u) \<mapsto> OVolume u')"
    using run_CheckResourceReadiness_any [OF laws stored fields(1)] by blast
  have "\<exists>r. run_state (ReconcileGeneric env b (GetNamespace u) (GetName u) config) w = (Inr r, w3)"
    using 1 2 3(1) 4 served' fields(2) by (auto simp: reconcile_with_server_def GetVolumeSpec_def)
  moreover have "served_in (objs (w_srv w3)) b config u'"
    using served_updated [OF served u' frame] w3 3(2) by simp
  moreover have "provided_in (objs (w_srv w3)) ?ref ?ns"
    using provided by (simp add: provided_in_def w3 3(2) key_of_def)
  ultimately show ?thesis
    using u' by blast
qed

section \<open>Three reconciliations\<close>

lemma others_served: "served_in store b config u \<Longrightarrow> served_in (\<lambda>k. map_option others_act (store k)) b config u"
  unfolding served_in_def server_ready_def by fastforce

lemma others_replicas:
  assumes "replicas_set store"
  shows "replicas_set (\<lambda>k. map_option others_act (store k))"
proof -
  have "\<exists>rs0. x = OReplicaSet rs0 \<and> rs_Replicas rs = rs_Replicas rs0" if "others_act x = OReplicaSet rs" for x rs
    using that by (cases x) (auto split: option.splits)
  with assms show ?thesis
    unfolding replicas_set_def by fastforce
qed

lemma others_provided:
  assumes "provided_in store ref ns"
  shows "resources_ready (\<lambda>k. map_option others_act (store k)) ref ns"
proof -
  obtain pvc rs svc where at: "store (KPersistentVolumeClaim, ns, ref) = Some (OPersistentVolumeClaim pvc)"
      "store (KReplicaSet, ns, ref) = Some (OReplicaSet rs)" "store (KService, ns, ref) = Some (OService svc)"
    and ok: "store (KPersistentVolume, [], ''pv-'' @ ref) \<noteq> None" "\<not> replica_set_outdated rs" "rs_Replicas rs \<noteq> None"
      "\<not> service_outdated svc"
    using assms unfolding provided_in_def by blast
  obtain n where n: "rs_Replicas rs = Some n"
    using ok(3) by blast
  have "\<not> replica_set_outdated (rs\<lparr>rs_ReadyReplicas := n\<rparr>)"
    using ok(2) by (simp add: replica_set_outdated_def)
  with at ok n show ?thesis
    by (auto simp: resources_ready_def)
qed

lemma generated_spec_settled:
  "SyncInterval (filled_spec False ns (generated_spec ref ns s)) = SyncInterval (generated_spec ref ns s)"
  "ResourceNamespace (filled_spec False ns (generated_spec ref ns s)) = ResourceNamespace (generated_spec ref ns s)"
  by (auto simp: filled_spec_sync generated_spec_def)

lemma third_pass:
  assumes laws: "stores env objs" "stores_status env objs"
    and served: "served_in (objs (w_srv w)) b config u"
    and provided: "provided_in (objs (w_srv w)) (ReferenceValue (vo_Spec u)) (Namespace config)" and others: "after_others objs w w'"
    and spec: "vo_Spec u = generated_spec ref (Namespace config) s"
    and run: "run_state (ReconcileGeneric env b (GetNamespace u) (GetName u) config) w' = (r, w'')"
  shows "r = Inr 0 \<and> (\<exists>x. objs (w_srv w'') (key_of (OVolume u)) = Some (OVolume x) \<and> GetPhase x = ''Ready'' \<and> vo_Spec x = vo_Spec u
    \<and> (wants_sync b (vo_Spec x) \<longrightarrow> w_syncTimers w'' (sync_key x) \<noteq> None))"
proof -
  have "settled_in (objs (w_srv w')) b config u"
    using others_served [OF served] others_provided [OF provided] others by (simp add: settled_in_def after_others_def)
  from settled_converges [OF laws this] run
  have r: "r = Inr 0" and made: "made_ready objs b (in_memory env config u) u w' w''"
    by auto
  obtain x where x: "GetPhase x = ''Ready''" "vo_Spec x = vo_Spec u" "objs (w_srv w'') (key_of (OVolume u)) = Some (OVolume x)"
    using made by (auto simp: made_ready_def)
  have key: "vo_type x = vo_type u" "GetNamespace x = GetNamespace u" "GetName x = GetName u"
    using stored_key [OF laws(1) x(3)] by (simp_all add: key_of_def)
  have "sync_key (in_memory env config u) = sync_key x"
    using key by (cases "vo_type u") (simp_all add: x(2) spec generated_spec_settled del: filled_spec_fields)
  moreover have "wants_sync b (vo_Spec (in_memory env config u)) = wants_sync b (vo_Spec x)"
    by (simp add: x(2) spec wants_sync_def hasValidSource_def generated_spec_settled)
  ultimately show ?thesis
    using r x made by (auto simp: made_ready_def)
qed

text \<open>
  C5. Progress of a new volume. Let a volume be stored that the webhooks admitted, whose specification is
  valid for the controller and names no server, and whose filled-in sync settings pass the update
  webhook; let its capacity be a quantity and its reference value hold no dot. Let the API server store
  what it is given and admit updates by the update webhook. Then three reconciliations, after the
  first two of which the other controllers do their part, make the volume ready: none of them ends with
  an error, the first asks for a requeue after two seconds and the last for none; then the stored
  volume has the phase \<open>Ready\<close> and the specification the first one generated, and its sync has
  a timer if it has a source and an interval that parses.
\<close>

theorem new_volume_becomes_ready:
  assumes laws: "stores env objs" "stores_status env objs" "stores_admitted env objs" "rand_keeps env objs"
    and new: "fresh_in (objs (w_srv w0)) config v" "replicas_set (objs (w_srv w0))" "Namespace config \<noteq> []"
      "Storage (vo_Spec v) = Some st" "e_ParseQuantity env (st_Capacity st) = Inr q"
    and first: "run_state (ReconcileGeneric env b (GetNamespace v) (GetName v) config) w0 = (r1, w1)" "after_others objs w1 w2"
    and second: "run_state (ReconcileGeneric env b (GetNamespace v) (GetName v) config) w2 = (r2, w3)" "after_others objs w3 w4"
    and third: "run_state (ReconcileGeneric env b (GetNamespace v) (GetName v) config) w4 = (r3, w5)"
  shows "r1 = Inr (2 * second) \<and> (\<exists>requeue. r2 = Inr requeue) \<and> r3 = Inr 0
    \<and> (\<exists>u ref. objs (w_srv w5) (key_of (OVolume v)) = Some (OVolume u) \<and> GetPhase u = ''Ready''
         \<and> vo_Spec u = generated_spec ref (Namespace config) (vo_Spec v)
         \<and> (wants_sync b (vo_Spec u) \<longrightarrow> w_syncTimers w5 (sync_key u) \<noteq> None))"
proof -
  let ?ns = "Namespace config"
  obtain u where r1: "r1 = Inr (2 * second)" and gen: "generated_in (objs (w_srv w1)) b config v u" and rep: "replicas_set (objs (w_srv w1))"
    using first_pass [OF laws(1,3,4) new(1,2), of b] first(1) by auto
  then obtain ref where spec: "vo_Spec u = generated_spec ref ?ns (vo_Spec v)"
    and fin: "has_finalizer (FinalizerName config) (vo_Meta v) (vo_Meta u)" and type: "vo_type u = vo_type v"
    unfolding generated_in_def by blast
  have u: "key_of (OVolume u) = key_of (OVolume v)" "GetNamespace u = GetNamespace v" "GetName u = GetName v"
    using has_finalizer_fields [OF fin] type by (simp_all add: key_of_def)
  have others2: "objs (w_srv w2) = (\<lambda>k. map_option others_act (objs (w_srv w1) k))"
    using first(2) by (simp add: after_others_def)
  have served2: "served_in (objs (w_srv w2)) b config u"
    by (rule generated_served [OF gen new(1) others2])
  have rep2: "replicas_set (objs (w_srv w2))"
    unfolding others2 by (rule others_replicas [OF rep])
  have storage: "Storage (vo_Spec u) = Some (fill_storage st)" "st_AccessMode (fill_storage st) \<noteq> []"
      "e_ParseQuantity env (st_Capacity (fill_storage st)) = Inr q"
    using new(4,5) by (simp_all add: spec fill_storage_def)
  have server: "NfsServer (vo_Spec u) = Some (generated_server ref ?ns)" "nfs_Name (generated_server ref ?ns) \<noteq> []"
      "nfs_Namespace (generated_server ref ?ns) \<noteq> []"
    using new(3) by (simp_all add: spec generated_server_def Let_def)
  obtain u' where r2: "\<exists>requeue. r2 = Inr requeue" and u': "same_but_version u u'" and served3: "served_in (objs (w_srv w3)) b config u'"
    and provided3: "provided_in (objs (w_srv w3)) (ReferenceValue (vo_Spec u)) ?ns"
    using second_pass [OF laws(1,2) served2 rep2 storage server] second(1) u by auto
  have keys: "vo_Spec u' = generated_spec ref ?ns (vo_Spec v)" "key_of (OVolume u') = key_of (OVolume v)"
      "GetNamespace u' = GetNamespace v" "GetName u' = GetName v"
    using u' u spec same_but_version_fields [OF u'] by (simp_all add: same_but_version_def)
  from third_pass [OF laws(1,2) served3 _ second(2) keys(1)] provided3 third r1 r2 keys spec
  show ?thesis by auto
qed

section \<open>A volume on its way\<close>

lemma stores_admitted_store_env: "stores_admitted store_env store_objs"
  unfolding stores_admitted_def
proof (intro allI impI)
  fix s fs and v0 v :: VolumeObject
  assume "store_objs s (key_of (OVolume v0)) = Some (OVolume v0)" and v: "vo_type v = vo_type v0"
    "vo_Meta v = (vo_Meta v0)\<lparr>om_Finalizers := fs\<rparr>"
  moreover from v have key: "key_of (OVolume v) = key_of (OVolume v0)"
    by (simp add: key_of_def)
  ultimately have "store_objs s (key_of (OVolume v)) \<noteq> None"
    by simp
  from store_replaces [OF this, of "UpdateReq (OVolume v)"]
  show "\<exists>rv. fst (e_api store_env (UpdateReq (OVolume v)) s) = RObject (OVolume (new_version rv v))
      \<and> store_objs (snd (e_api store_env (UpdateReq (OVolume v)) s)) = (store_objs s)(key_of (OVolume v0) \<mapsto> OVolume (new_version rv v))"
    unfolding key by (intro exI [of _ "om_ResourceVersion (vo_Meta v)"]) (simp add: store_env_def new_version_def del: store_api.simps)
qed

definition others_step :: "store world \<Rightarrow> store world" where
  "others_step w = w\<lparr>w_srv := map others_act (w_srv w)\<rparr>"

lemma others_key: "key_of (others_act obj) = key_of obj"
  by (cases obj) (auto simp: key_of_def split: option.split)

lemma after_others_step: "after_others store_objs w (others_step w)"
proof -
  have "find (\<lambda>x. key_of x = k) (map others_act st) = map_option others_act (find (\<lambda>x. key_of x = k) st)" for k st
    by (induction st) (simp_all add: others_key)
  then show ?thesis
    by (simp add: after_others_def others_step_def store_objs_find fun_eq_iff)
qed

definition new_volume :: VolumeObject where
  "new_volume = sample_volume\<lparr>vo_Spec := sample_spec\<lparr>NfsServer := None, ReferenceValue := [],
     SyncInterval := ''120s'', SyncTimeout := ''60s''\<rparr>\<rparr>"

definition reconcile_new :: "store world \<Rightarrow> store world" where
  "reconcile_new w = snd (run_state (Reconcile_SharedVolume store_env sample_base ''team'' ''vol'') w)"

theorem new_volume_becomes_ready_witness:
  "\<exists>u. store_objs (w_srv (reconcile_new (others_step (reconcile_new (others_step (reconcile_new (world_of [OVolume new_volume])))))))
       (KVolume SharedVolume, ''team'', ''vol'') = Some (OVolume u) \<and> GetPhase u = ''Ready''"
proof -
  have fields: "GetNamespace new_volume = ''team''" "GetName new_volume = ''vol''"
      "key_of (OVolume new_volume) = (KVolume SharedVolume, ''team'', ''vol'')" "Storage (vo_Spec new_volume) = Some sample_storage"
    by (simp_all add: new_volume_def sample_volume_simps key_of_def)
  have sync: "sync_ok (filled_spec True ''team'' (vo_Spec new_volume))" "sync_ok (vo_Spec new_volume)"
    by (simp_all add: sync_ok_def filled_spec_sync new_volume_def sample_volume_simps ParseDuration_60s ParseDuration_120s)
  have "fresh_in (store_objs (w_srv (world_of [OVolume new_volume]))) (sv_config ''team'') new_volume"
    using sync fields(3) by (simp add: fresh_in_def sv_config_def world_of_def store_objs_find ValidateCreate_cases spec_ok_def
        FillAndValidateSpec_ok_iff) (simp add: new_volume_def sample_volume_simps source_ok_def http_ok_def)
  moreover have "replicas_set (store_objs (w_srv (world_of [OVolume new_volume])))"
    by (auto simp: replicas_set_def world_of_def store_objs_find split: if_splits)
  moreover have "Namespace (sv_config ''team'') \<noteq> []" "rand_keeps store_env store_objs"
      "e_ParseQuantity store_env (st_Capacity sample_storage) = Inr (Quantity ''1Gi'')"
    by (simp_all add: sv_config_def rand_keeps_def store_env_def sample_storage_def)
  ultimately show ?thesis
    using new_volume_becomes_ready [OF store_objs_stores stores_status_store_env stores_admitted_store_env _ _ _ _ fields(4) _
        surjective_pairing after_others_step surjective_pairing after_others_step surjective_pairing,
        of "world_of [OVolume new_volume]" "sv_config ''team''" _ sample_base]
    by (auto simp: reconcile_new_def Reconcile_SharedVolume_def fields)
qed

end
