(* ===== verification/Cleanup_Variants.thy ===== *)
theory Cleanup_Variants
  imports Cleanup
begin

text \<open>
  The methods of volume_controller_base.go around the cleanup that have no caller: the passes in the volume's own
  namespace, and the wait for the pods of a volume, which deletes them by force after five seconds.
\<close>

section \<open>The passes in the namespace of the volume\<close>

definition CleanupAllPodsUsingVolume :: "'w env \<Rightarrow> VolumeObject \<Rightarrow> ('w, unit) prog" where
  "CleanupAllPodsUsingVolume env v = CleanupAllPodsUsingVolumeInNamespace env v (GetNamespace v)"

definition CleanupReplicaSet :: "'w env \<Rightarrow> VolumeObject \<Rightarrow> string \<Rightarrow> ('w, unit) prog" where
  "CleanupReplicaSet env v referenceValue = CleanupReplicaSetInNamespace env referenceValue (GetNamespace v)"

definition CleanupService :: "'w env \<Rightarrow> VolumeObject \<Rightarrow> string \<Rightarrow> ('w, unit) prog" where
  "CleanupService env v referenceValue = CleanupServiceInNamespace env referenceValue (GetNamespace v)"

definition CleanupAllPVCs :: "'w env \<Rightarrow> VolumeObject \<Rightarrow> string \<Rightarrow> ('w, unit) prog" where
  "CleanupAllPVCs env v referenceValue = CleanupAllPVCsInNamespace env referenceValue (GetNamespace v)"

definition CleanupNFSServer :: "'w env \<Rightarrow> VolumeObject \<Rightarrow> ('w, unit) prog" where
  "CleanupNFSServer env v = CleanupNFSServerInNamespace env v (GetNamespace v)"

definition ForceCleanupAllResources :: "'w env \<Rightarrow> VolumeObject \<Rightarrow> string \<Rightarrow> ('w, unit) prog" where
  "ForceCleanupAllResources env v referenceValue = ForceCleanupAllResourcesInNamespace env referenceValue (GetNamespace v)"

text \<open>For a \<open>SharedVolume\<close> the cleanup is made of these passes.\<close>

lemma SharedVolume_cleanup:
  assumes "vo_type v = SharedVolume" and "ReferenceValue (GetVolumeSpec v) = ref" and "ref \<noteq> []"
  shows "CleanupResources env b v = do {
     _ \<leftarrow> StopSync b v;
     _ \<leftarrow> CleanupAllPodsUsingVolume env v;
     _ \<leftarrow> CleanupReplicaSet env v ref;
     _ \<leftarrow> ForceCleanupAllResources env v ref;
     _ \<leftarrow> CleanupAllPVCs env v ref;
     bindE (CleanupAllPVsWithWait env v ref) (\<lambda>_. do {
     _ \<leftarrow> CleanupService env v ref;
     _ \<leftarrow> CleanupNFSServer env v;
     ret (Inr ()) }) }"
  using assms by (simp add: CleanupResources_def CleanupResourcesInNamespace_def operational_namespace_def
      CleanupAllPodsUsingVolume_def CleanupReplicaSet_def CleanupService_def CleanupAllPVCs_def CleanupNFSServer_def
      ForceCleanupAllResources_def)

section \<open>The wait for the pods\<close>

text \<open>
  One round returns \<open>None\<close> for \<open>return\<close> and \<open>Some forceDeleteTime\<close> for \<open>continue\<close>. \<open>ctx_Done\<close> tells from the
  state of the outside whether the context is done before the next look.
\<close>

definition wait_for_pods_round ::
  "'w env \<Rightarrow> ('w \<Rightarrow> bool) \<Rightarrow> string \<Rightarrow> string \<Rightarrow> int \<Rightarrow> ('w, int option) prog" where
  "wait_for_pods_round env ctx_Done namespace referenceValue forceDeleteTime = do {
     l \<leftarrow> ListPods env (InNamespaceMatching namespace [(''app'', referenceValue)]);
     case l of
       Inl err \<Rightarrow> ret None
     | Inr pods \<Rightarrow>
         if pods = [] then ret None
         else do {
           now \<leftarrow> time_Now env;
           forceDeleteTime \<leftarrow>
             (if forceDeleteTime < now
              then do { _ \<leftarrow> force_delete_pods env pods; now \<leftarrow> time_Now env; ret (now + 60 * minute) }
              else ret forceDeleteTime);
           cancelled \<leftarrow> gets (\<lambda>w. ctx_Done (w_srv w));
           ret (if cancelled then None else Some forceDeleteTime)
         }
   }"

fun wait_for_pods ::
  "'w env \<Rightarrow> ('w \<Rightarrow> bool) \<Rightarrow> string \<Rightarrow> string \<Rightarrow> int \<Rightarrow> nat \<Rightarrow> int \<Rightarrow> ('w, error + unit) prog" where
  "wait_for_pods env ctx_Done namespace referenceValue timeout 0 forceDeleteTime = ret (Inl Diverges)"
| "wait_for_pods env ctx_Done namespace referenceValue timeout (Suc fuel) forceDeleteTime = do {
     now \<leftarrow> time_Now env;
     if \<not> now < timeout then ret (Inr ())
     else do {
       r \<leftarrow> wait_for_pods_round env ctx_Done namespace referenceValue forceDeleteTime;
       case r of
         None \<Rightarrow> ret (Inr ())
       | Some forceDeleteTime \<Rightarrow> do {
           _ \<leftarrow> time_Sleep env second;
           wait_for_pods env ctx_Done namespace referenceValue timeout fuel forceDeleteTime
         }
     }
   }"

definition WaitForPodsToTerminate :: "'w env \<Rightarrow> ('w \<Rightarrow> bool) \<Rightarrow> VolumeObject \<Rightarrow> string \<Rightarrow> ('w, error + unit) prog" where
  "WaitForPodsToTerminate env ctx_Done v referenceValue = do {
     now \<leftarrow> time_Now env;
     let timeout = now + 15 * second;
     now \<leftarrow> time_Now env;
     let forceDeleteTime = now + 5 * second;
     wait_for_pods env ctx_Done (GetNamespace v) referenceValue timeout (e_fuel env) forceDeleteTime
   }"

lemma ForceDeletePod_clock: "clock_ok env \<Longrightarrow> keeps (not_back env) (ForceDeletePod env pod)"
  unfolding ForceDeletePod_def
  by (intro clock.keeps_bindE clock.keeps_bind clock.keeps_ret keeps_case_sum keeps_if clock_calls clock_Sleep)
     (simp_all add: millisecond_def)

lemma wait_for_pods_round_clock: "clock_ok env \<Longrightarrow> keeps (not_back env) (wait_for_pods_round env ctx_Done ns ref t)"
  unfolding wait_for_pods_round_def force_delete_pods_def
  by (intro clock.keeps_bind clock.keeps_ret clock.keeps_for_each clock.keeps_gets keeps_case_sum keeps_if clock_calls
      ForceDeletePod_clock)

interpretation pod_wait: polling env timeout second "wait_for_pods_round env ctx_Done ns ref" "wait_for_pods env ctx_Done ns ref timeout"
  for env :: "'w env" and timeout ctx_Done ns ref
  by unfold_locales (simp_all add: wait_for_pods_round_clock second_def millisecond_def)

text \<open>With a clock that goes on, sixteen rounds are enough for the wait.\<close>

lemma WaitForPodsToTerminate_returns:
  assumes "clock_ok env" and "16 \<le> e_fuel env"
  shows "\<exists>w'. run_state (WaitForPodsToTerminate env ctx_Done v ref) w = (Inr (), w')"
proof -
  obtain n where n: "e_fuel env = Suc n" "15 \<le> n"
    using assms(2) by (cases "e_fuel env") auto
  have "e_now env (w_srv w) + 15 * second - e_now env (w_srv w) \<le> second * int n"
    using n(2) by (simp add: second_def millisecond_def)
  from pod_wait.enough_fuel [OF assms(1) this] have "fst (run_state (wait_for_pods env ctx_Done (GetNamespace v) ref
      (e_now env (w_srv w) + 15 * second) (e_fuel env) (e_now env (w_srv w) + 5 * second)) w) = Inr ()"
    unfolding n(1) .
  then show ?thesis
    by (auto simp: WaitForPodsToTerminate_def time_Now_def Let_def intro!: exI prod_eqI)
qed

text \<open>The wait writes nothing but pods.\<close>

lemma WaitForPodsToTerminate_writes: "emits (writes_kind KPod) (WaitForPodsToTerminate env ctx_Done v ref)"
proof -
  have round: "emits (writes_kind KPod) (wait_for_pods_round env ctx_Done ns ref t)" for ns t
    unfolding wait_for_pods_round_def force_delete_pods_def
    by (intro keeps_intro ForceDeletePod_writes) simp_all
  have "emits (writes_kind KPod) (wait_for_pods env ctx_Done ns ref timeout n t)" for ns timeout n t
    by (rule pod_wait.keeps_loop [OF grows.step_preorder_axioms round]) (intro keeps_intro, simp)
  then show ?thesis
    unfolding WaitForPodsToTerminate_def by (intro keeps_intro)
qed

end
