(* ===== verification/Pod_Webhook.thy ===== *)
theory Pod_Webhook
  imports Reconcile
begin

text \<open>
  The mutating webhook for pods (webhook/v1/pod_webhook.go): the volumes a pod names in its
  annotations get a persistent volume and a claim in the pod's namespace and are mounted into
  every container; a pod under deletion has them removed again. The JSON decoding of the request
  is its field \<open>ar_Object\<close>; the patch of the answer is the pod it turns the request's into.
\<close>

section \<open>References\<close>

definition SharedVolumePodFinalizer :: string where
  "SharedVolumePodFinalizer = ''sharedvolume.sv/pod-cleanup''"

definition SharedVolumeAnnotationKey :: string where
  "SharedVolumeAnnotationKey = ''sharedvolume.sv''"

definition ClusterSharedVolumeAnnotationKey :: string where
  "ClusterSharedVolumeAnnotationKey = ''sharedvolume.csv''"

definition ClusterSharedVolumeOperationNamespace :: string where
  "ClusterSharedVolumeOperationNamespace = ''shared-volume-controller''"

definition pv_pvc_name :: "string \<Rightarrow> string \<Rightarrow> string" where
  "pv_pvc_name referenceValue namespace = referenceValue @ ''-'' @ namespace"

record SharedVolumeRef =
  svr_Namespace :: string
  svr_Name :: string
  svr_IsCluster :: bool

text \<open>The names of a comma-separated annotation, trimmed, without the empty ones.\<close>

definition annotation_names :: "string option \<Rightarrow> string list" where
  "annotation_names annotation =
     (case annotation of
        None \<Rightarrow> []
      | Some names \<Rightarrow>
          if names = [] then []
          else filter (\<lambda>n. n \<noteq> []) (map strings_TrimSpace (strings_Split names CHR '','')))"

definition extractSharedVolumeAnnotations :: "Pod \<Rightarrow> SharedVolumeRef list" where
  "extractSharedVolumeAnnotations pod =
     map (\<lambda>n. \<lparr>svr_Namespace = om_Namespace (pod_Meta pod), svr_Name = n, svr_IsCluster = False\<rparr>)
       (annotation_names (map_of (om_Annotations (pod_Meta pod)) SharedVolumeAnnotationKey))
     @ map (\<lambda>n. \<lparr>svr_Namespace = [], svr_Name = n, svr_IsCluster = True\<rparr>)
       (annotation_names (map_of (om_Annotations (pod_Meta pod)) ClusterSharedVolumeAnnotationKey))"

text \<open>The volume of a reference; \<open>suffix\<close> is what the message says at its end.\<close>

definition volume_of_ref :: "'w env \<Rightarrow> SharedVolumeRef \<Rightarrow> string \<Rightarrow> ('w, error + VolumeObject) prog" where
  "volume_of_ref env svRef suffix =
     (if svr_IsCluster svRef
      then wrap_err (''failed to get ClusterSharedVolume '' @ svr_Name svRef @ suffix)
             (GetVolume env ClusterSharedVolume [] (svr_Name svRef))
      else wrap_err (''failed to get SharedVolume '' @ svr_Namespace svRef @ ''/'' @ svr_Name svRef @ suffix)
             (GetVolume env SharedVolume (svr_Namespace svRef) (svr_Name svRef)))"

section \<open>Mount paths\<close>

definition display_name :: "SharedVolumeRef \<Rightarrow> string" where
  "display_name svRef =
     (if svr_IsCluster svRef then ''ClusterSharedVolume/'' @ svr_Name svRef
      else ''SharedVolume/'' @ svr_Namespace svRef @ ''/'' @ svr_Name svRef)"

text \<open>\<open>mountPaths[mountPath] = append(mountPaths[mountPath], name)\<close>.\<close>

fun add_mount_path :: "string \<Rightarrow> string \<Rightarrow> (string \<times> string list) list \<Rightarrow> (string \<times> string list) list" where
  "add_mount_path path name [] = [(path, [name])]"
| "add_mount_path path name ((p, ns) # rest) =
     (if p = path then (p, ns @ [name]) # rest else (p, ns) # add_mount_path path name rest)"

fun collect_mount_paths ::
  "'w env \<Rightarrow> SharedVolumeRef list \<Rightarrow> (string \<times> string list) list
     \<Rightarrow> ('w, error + (string \<times> string list) list) prog" where
  "collect_mount_paths env [] mountPaths = ret (Inr mountPaths)"
| "collect_mount_paths env (svRef # svRefs) mountPaths =
     bindE (volume_of_ref env svRef []) (\<lambda>v.
     collect_mount_paths env svRefs (add_mount_path (MountPath (vo_Spec v)) (display_name svRef) mountPaths))"

text \<open>The message lists the clashes in the order of the list; Go's map has none.\<close>

definition duplicate_messages :: "(string \<times> string list) list \<Rightarrow> string list" where
  "duplicate_messages mountPaths =
     map (\<lambda>(path, names). ''mount path '' @ quoted path @ '' is used by: '' @ strings_Join names '', '')
       (filter (\<lambda>(path, names). length names > 1) mountPaths)"

definition validateUniqueMountPaths :: "'w env \<Rightarrow> SharedVolumeRef list \<Rightarrow> ('w, error + unit) prog" where
  "validateUniqueMountPaths env svRefs =
     bindE (collect_mount_paths env svRefs []) (\<lambda>mountPaths.
     if duplicate_messages mountPaths \<noteq> []
     then ret (Inl (Errorf (''duplicate mount paths detected: '' @ strings_Join (duplicate_messages mountPaths) ''; '')))
     else ret (Inr ()))"

section \<open>Volume and claim\<close>

definition MustParse :: "'w env \<Rightarrow> string \<Rightarrow> error + quantity" where
  "MustParse env s =
     (case e_ParseQuantity env s of Inl err \<Rightarrow> Inl (Panic (''cannot parse quantity '' @ s)) | Inr q \<Rightarrow> Inr q)"

definition pod_volume_object :: "string \<Rightarrow> quantity \<Rightarrow> string \<Rightarrow> string \<Rightarrow> PersistentVolume" where
  "pod_volume_object pvName capacity server share =
     \<lparr>pv_Meta = empty_meta\<lparr>om_Name := pvName\<rparr>, pv_Capacity = capacity, pv_AccessModes = [''ReadWriteMany''],
      pv_ReclaimPolicy = ''Delete'',
      pv_MountOptions = [''nfsvers=4.1'', ''soft'', ''intr'', ''rsize=1048576'', ''wsize=1048576'',
        ''timeo=300'', ''retrans=2'', ''noatime''],
      pv_StorageClassName = [],
      pv_CSI = Some \<lparr>csi_Driver = ''nfs.csi.k8s.io'', csi_VolumeHandle = server @ share @ ''##'',
        csi_VolumeAttributes = [(''server'', server), (''share'', share)]\<rparr>\<rparr>"

definition pod_claim_object :: "string \<Rightarrow> string \<Rightarrow> string \<Rightarrow> quantity \<Rightarrow> PersistentVolumeClaim" where
  "pod_claim_object pvcName namespace pvName capacity =
     \<lparr>pvc_Meta = empty_meta\<lparr>om_Name := pvcName, om_Namespace := namespace\<rparr>,
      pvc_AccessModes = [''ReadWriteMany''], pvc_Request = capacity, pvc_VolumeName = pvName,
      pvc_StorageClassName = Some [], pvc_Phase = []\<rparr>"

definition ensurePersistentVolumeGeneric ::
  "'w env \<Rightarrow> VolumeSpecBase \<Rightarrow> string \<Rightarrow> string \<Rightarrow> string \<Rightarrow> string \<Rightarrow> ('w, error + unit) prog" where
  "ensurePersistentVolumeGeneric env spec referenceValue pvNamespace volumeName volumeNamespace =
     (let pvName = pv_pvc_name referenceValue pvNamespace in do {
        r \<leftarrow> GetPV env pvName;
        case r of
          Inr _ \<Rightarrow> ret (Inr ())
        | Inl err \<Rightarrow>
            if \<not> IsNotFound err then ret (Inl (Errorf_w ''failed to check if PV exists'' err))
            else case Storage spec of
              None \<Rightarrow> ret (Inl (Errorf ''storage spec is required''))
            | Some storage \<Rightarrow>
            (case NfsServer spec of
              None \<Rightarrow> ret (Inl (Errorf ''nfsServer spec is required''))
            | Some nfsServer \<Rightarrow>
                let sharePath = nfs_Path nfsServer @ ''/'' @ volumeName @ ''-'' @ volumeNamespace in
                (case MustParse env (st_Capacity storage) of
                   Inl panic \<Rightarrow> ret (Inl panic)
                 | Inr capacity \<Rightarrow>
                     wrap_err ''failed to create PersistentVolume''
                       (Create env (OPersistentVolume
                          (pod_volume_object pvName capacity (nfs_URL nfsServer) sharePath)))))
      })"

definition ensurePersistentVolumeClaimGeneric ::
  "'w env \<Rightarrow> VolumeSpecBase \<Rightarrow> string \<Rightarrow> string \<Rightarrow> ('w, error + unit) prog" where
  "ensurePersistentVolumeClaimGeneric env spec referenceValue resourceNamespace =
     (let pvcName = pv_pvc_name referenceValue resourceNamespace;
          pvName = pv_pvc_name referenceValue resourceNamespace in do {
        r \<leftarrow> GetPVC env resourceNamespace pvcName;
        case r of
          Inr existingPVC \<Rightarrow>
            if om_DeletionTimestamp (pvc_Meta existingPVC) \<noteq> None
            then ret (Inl (Errorf (''PVC '' @ resourceNamespace @ ''/'' @ pvcName
                   @ '' is in terminating state, cannot create pod'')))
            else ret (Inr ())
        | Inl err \<Rightarrow>
            if \<not> IsNotFound err then ret (Inl (Errorf_w ''failed to check if PVC exists'' err))
            else case Storage spec of
              None \<Rightarrow> ret (Inl (Errorf ''storage spec is required''))
            | Some storage \<Rightarrow>
                (case MustParse env (st_Capacity storage) of
                   Inl panic \<Rightarrow> ret (Inl panic)
                 | Inr capacity \<Rightarrow>
                     wrap_err ''failed to create PersistentVolumeClaim''
                       (Create env (OPersistentVolumeClaim
                          (pod_claim_object pvcName resourceNamespace pvName capacity))))
      })"

section \<open>The pod\<close>

definition add_mount :: "VolumeMount \<Rightarrow> Container \<Rightarrow> Container" where
  "add_mount mount ct =
     (if list_ex (\<lambda>vm. vm_Name vm = vm_Name mount) (ct_VolumeMounts ct) then ct
      else ct\<lparr>ct_VolumeMounts := ct_VolumeMounts ct @ [mount]\<rparr>)"

definition add_pod_volume :: "PodVolume \<Rightarrow> PodVolume list \<Rightarrow> PodVolume list" where
  "add_pod_volume vol vols =
     (if list_ex (\<lambda>v. pvol_Name v = pvol_Name vol) vols then vols else vols @ [vol])"

definition add_to_pod :: "VolumeMount \<Rightarrow> PodVolume \<Rightarrow> Pod \<Rightarrow> Pod" where
  "add_to_pod mount vol pod = pod\<lparr>pod_Spec := (pod_Spec pod)\<lparr>
     ps_Containers := map (add_mount mount) (ps_Containers (pod_Spec pod)),
     ps_Volumes := add_pod_volume vol (ps_Volumes (pod_Spec pod))\<rparr>\<rparr>"

definition addVolumeToPodGeneric :: "Pod \<Rightarrow> VolumeSpecBase \<Rightarrow> string \<Rightarrow> string \<Rightarrow> Pod" where
  "addVolumeToPodGeneric pod spec referenceValue resourceNamespace =
     (let volumeName = referenceValue;
          pvcName = pv_pvc_name referenceValue resourceNamespace;
          readOnly = (case Storage spec of None \<Rightarrow> False | Some storage \<Rightarrow> st_AccessMode storage = ''ReadOnly'')
      in add_to_pod \<lparr>vm_MountPath = MountPath spec, vm_Name = volumeName, vm_ReadOnly = readOnly\<rparr>
           \<lparr>pvol_Name = volumeName, pvol_ClaimName = Some pvcName\<rparr> pod)"

definition processSharedVolume :: "'w env \<Rightarrow> Pod \<Rightarrow> SharedVolumeRef \<Rightarrow> ('w, error + Pod) prog" where
  "processSharedVolume env pod svRef =
     bindE (volume_of_ref env svRef []) (\<lambda>v.
     let spec = vo_Spec v;
         referenceValue = ReferenceValue spec;
         podNamespace = om_Namespace (pod_Meta pod);
         resourceNamespace = (if svr_IsCluster svRef then ClusterSharedVolumeOperationNamespace else podNamespace)
     in bindE (wrap_err ''failed to ensure PersistentVolume''
                 (ensurePersistentVolumeGeneric env spec referenceValue podNamespace (svr_Name svRef) resourceNamespace)) (\<lambda>_.
        bindE (wrap_err ''failed to ensure PersistentVolumeClaim''
                 (ensurePersistentVolumeClaimGeneric env spec referenceValue podNamespace)) (\<lambda>_.
        ret (Inr (addVolumeToPodGeneric pod spec referenceValue podNamespace)))))"

fun processSharedVolumes :: "'w env \<Rightarrow> Pod \<Rightarrow> SharedVolumeRef list \<Rightarrow> ('w, error + Pod) prog" where
  "processSharedVolumes env pod [] = ret (Inr pod)"
| "processSharedVolumes env pod (svRef # svRefs) =
     bindE (processSharedVolume env pod svRef) (\<lambda>pod. processSharedVolumes env pod svRefs)"

text \<open>Lists of finalizers, as the two loops of the code go through them.\<close>

definition hasSharedVolumeFinalizer :: "Pod \<Rightarrow> bool" where
  "hasSharedVolumeFinalizer pod = list_ex (\<lambda>f. f = SharedVolumePodFinalizer) (om_Finalizers (pod_Meta pod))"

definition set_pod_finalizers :: "string list \<Rightarrow> Pod \<Rightarrow> Pod" where
  "set_pod_finalizers fs pod = pod\<lparr>pod_Meta := (pod_Meta pod)\<lparr>om_Finalizers := fs\<rparr>\<rparr>"

definition addSharedVolumeFinalizer :: "Pod \<Rightarrow> Pod" where
  "addSharedVolumeFinalizer pod =
     (if list_ex (\<lambda>f. f = SharedVolumePodFinalizer) (om_Finalizers (pod_Meta pod)) then pod
      else set_pod_finalizers (om_Finalizers (pod_Meta pod) @ [SharedVolumePodFinalizer]) pod)"

section \<open>Pods under deletion\<close>

definition same_volume :: "SharedVolumeRef \<Rightarrow> SharedVolumeRef \<Rightarrow> bool" where
  "same_volume svRef podSvRef \<longleftrightarrow>
     svr_IsCluster podSvRef = svr_IsCluster svRef \<and> svr_Name podSvRef = svr_Name svRef
     \<and> \<not> (\<not> svr_IsCluster svRef \<and> svr_Namespace podSvRef \<noteq> svr_Namespace svRef)"

definition uses_volume :: "SharedVolumeRef \<Rightarrow> Pod \<Rightarrow> Pod \<Rightarrow> bool" where
  "uses_volume svRef deletingPod pod \<longleftrightarrow>
     \<not> (om_Name (pod_Meta pod) = om_Name (pod_Meta deletingPod)
        \<and> om_Namespace (pod_Meta pod) = om_Namespace (pod_Meta deletingPod))
     \<and> om_DeletionTimestamp (pod_Meta pod) = None
     \<and> list_ex (same_volume svRef) (extractSharedVolumeAnnotations pod)"

definition isVolumeStillInUseByOtherPods ::
  "'w env \<Rightarrow> SharedVolumeRef \<Rightarrow> Pod \<Rightarrow> ('w, error + bool) prog" where
  "isVolumeStillInUseByOtherPods env svRef deletingPod =
     bindE (wrap_err ''failed to list pods'' (ListPods env AllNamespaces)) (\<lambda>pods.
     ret (Inr (list_ex (uses_volume svRef deletingPod) pods)))"

definition delete_ignoring_absence :: "'w env \<Rightarrow> kobj \<Rightarrow> string \<Rightarrow> ('w, error + unit) prog" where
  "delete_ignoring_absence env obj msg = do {
     r \<leftarrow> Delete env obj;
     case r of
       Inl err \<Rightarrow> if \<not> IsNotFound err then ret (Inl (Errorf_w msg err)) else ret (Inr ())
     | Inr _ \<Rightarrow> ret (Inr ())
   }"

text \<open>Of the objects given to \<open>Delete\<close> only the name and the namespace are set.\<close>

definition claim_stub :: "string \<Rightarrow> string \<Rightarrow> kobj" where
  "claim_stub name namespace = OPersistentVolumeClaim
     \<lparr>pvc_Meta = empty_meta\<lparr>om_Name := name, om_Namespace := namespace\<rparr>, pvc_AccessModes = [],
      pvc_Request = Quantity [], pvc_VolumeName = [], pvc_StorageClassName = None, pvc_Phase = []\<rparr>"

definition volume_stub :: "string \<Rightarrow> kobj" where
  "volume_stub name = OPersistentVolume
     \<lparr>pv_Meta = empty_meta\<lparr>om_Name := name\<rparr>, pv_Capacity = Quantity [], pv_AccessModes = [],
      pv_ReclaimPolicy = [], pv_MountOptions = [], pv_StorageClassName = [], pv_CSI = None\<rparr>"

definition deletePVC :: "'w env \<Rightarrow> string \<Rightarrow> string \<Rightarrow> ('w, error + unit) prog" where
  "deletePVC env pvcName namespace =
     delete_ignoring_absence env (claim_stub pvcName namespace) (''failed to delete PVC '' @ namespace @ ''/'' @ pvcName)"

definition deletePV :: "'w env \<Rightarrow> string \<Rightarrow> ('w, error + unit) prog" where
  "deletePV env pvName = delete_ignoring_absence env (volume_stub pvName) (''failed to delete PV '' @ pvName)"

definition cleanupSharedVolumeIfUnused ::
  "'w env \<Rightarrow> SharedVolumeRef \<Rightarrow> Pod \<Rightarrow> ('w, error + unit) prog" where
  "cleanupSharedVolumeIfUnused env svRef deletingPod =
     bindE (volume_of_ref env svRef '' for cleanup'') (\<lambda>v.
     let podNamespace = om_Namespace (pod_Meta deletingPod);
         pvcName = pv_pvc_name (ReferenceValue (vo_Spec v)) podNamespace;
         pvName = pv_pvc_name (ReferenceValue (vo_Spec v)) podNamespace
     in bindE (wrap_err ''failed to check if volume is still in use''
                 (isVolumeStillInUseByOtherPods env svRef deletingPod)) (\<lambda>stillInUse.
        if stillInUse then ret (Inr ())
        else bindE (wrap_err ''failed to delete PVC'' (deletePVC env pvcName podNamespace)) (\<lambda>_.
             wrap_err ''failed to delete PV'' (deletePV env pvName))))"

definition removePodFinalizer :: "'w env \<Rightarrow> Pod \<Rightarrow> ('w, error + unit) prog" where
  "removePodFinalizer env pod =
     wrap_err ''failed to remove finalizer from pod''
       (UpdateDone env (OPod (set_pod_finalizers
          (filter (\<lambda>f. f \<noteq> SharedVolumePodFinalizer) (om_Finalizers (pod_Meta pod))) pod)))"

definition handlePodDeletion :: "'w env \<Rightarrow> Pod \<Rightarrow> ('w, error + unit) prog" where
  "handlePodDeletion env pod =
     (let sharedVolumes = extractSharedVolumeAnnotations pod
      in if sharedVolumes = [] then removePodFinalizer env pod
         else bindE (for_err sharedVolumes (\<lambda>svRef. cleanupSharedVolumeIfUnused env svRef pod)) (\<lambda>_.
              removePodFinalizer env pod))"

section \<open>The handler\<close>

record AdmissionRequest =
  ar_Operation :: string
  ar_Object :: "error + Pod"

datatype AdmissionResponse =
  Allowed string
| Denied string
| Errored int error
| PatchTo Pod

definition errored :: "int \<Rightarrow> error \<Rightarrow> error + AdmissionResponse" where
  "errored code err = (if is_abort err then Inl err else Inr (Errored code err))"

definition Handle :: "'w env \<Rightarrow> AdmissionRequest \<Rightarrow> ('w, error + AdmissionResponse) prog" where
  "Handle env req =
     (case ar_Object req of
        Inl err \<Rightarrow> ret (errored 400 err)
      | Inr pod \<Rightarrow>
          if om_DeletionTimestamp (pod_Meta pod) \<noteq> None then
            (if hasSharedVolumeFinalizer pod then do {
               r \<leftarrow> handlePodDeletion env pod;
               case r of
                 Inl err \<Rightarrow> ret (errored 500 err)
               | Inr _ \<Rightarrow> ret (Inr (Allowed ''Pod deletion processed''))
             }
             else ret (Inr (Allowed ''Pod deletion processed'')))
          else if ar_Operation req = ''UPDATE'' \<and> hasSharedVolumeFinalizer pod \<and> ps_Volumes (pod_Spec pod) \<noteq> []
            then ret (Inr (Allowed ''Pod already processed''))
          else let sharedVolumes = extractSharedVolumeAnnotations pod in
            if sharedVolumes = [] then ret (Inr (Allowed ''No shared volume annotations found''))
            else do {
              r \<leftarrow> validateUniqueMountPaths env sharedVolumes;
              case r of
                Inl err \<Rightarrow> if is_abort err then ret (Inl err) else ret (Inr (Denied (error_text err)))
              | Inr _ \<Rightarrow> do {
                  r \<leftarrow> processSharedVolumes env pod sharedVolumes;
                  case r of
                    Inl err \<Rightarrow> ret (errored 500 err)
                  | Inr pod \<Rightarrow> ret (Inr (PatchTo (addSharedVolumeFinalizer pod)))
                }
            })"

section \<open>The variants without a caller\<close>

text \<open>
  The older functions take a \<open>SharedVolume\<close> and dereference its pointers without a test; the
  server of the persistent volume is the one of the status. The proxy claim was meant for
  cluster volumes.
\<close>

definition ensurePersistentVolume :: "'w env \<Rightarrow> VolumeObject \<Rightarrow> string \<Rightarrow> ('w, error + unit) prog" where
  "ensurePersistentVolume env sv podNamespace =
     (let pvName = pv_pvc_name (ReferenceValue (vo_Spec sv)) podNamespace in do {
        r \<leftarrow> GetPV env pvName;
        case r of
          Inr _ \<Rightarrow> ret (Inr ())
        | Inl err \<Rightarrow>
            if \<not> IsNotFound err then ret (Inl (Errorf_w ''failed to check if PV exists'' err))
            else case Storage (vo_Spec sv) of
              None \<Rightarrow> ret (Inl nil_dereference)
            | Some storage \<Rightarrow>
            (case MustParse env (st_Capacity storage) of
              Inl panic \<Rightarrow> ret (Inl panic)
            | Inr capacity \<Rightarrow>
            (case NfsServer (vo_Spec sv) of
              None \<Rightarrow> ret (Inl nil_dereference)
            | Some nfsServer \<Rightarrow>
                wrap_err ''failed to create PersistentVolume''
                  (Create env (OPersistentVolume (pod_volume_object pvName capacity (GetNfsServerAddress sv)
                     (nfs_Path nfsServer @ ''/'' @ GetName sv @ ''-'' @ GetNamespace sv))))))
      })"

definition ensurePersistentVolumeClaim :: "'w env \<Rightarrow> VolumeObject \<Rightarrow> string \<Rightarrow> ('w, error + unit) prog" where
  "ensurePersistentVolumeClaim env sv podNamespace =
     (let pvcName = pv_pvc_name (ReferenceValue (vo_Spec sv)) podNamespace;
          pvName = pv_pvc_name (ReferenceValue (vo_Spec sv)) podNamespace in do {
        r \<leftarrow> GetPVC env podNamespace pvcName;
        case r of
          Inr existingPVC \<Rightarrow>
            if om_DeletionTimestamp (pvc_Meta existingPVC) \<noteq> None
            then ret (Inl (Errorf (''PVC '' @ podNamespace @ ''/'' @ pvcName
                   @ '' is in terminating state, cannot create pod'')))
            else ret (Inr ())
        | Inl err \<Rightarrow>
            if \<not> IsNotFound err then ret (Inl (Errorf_w ''failed to check if PVC exists'' err))
            else case Storage (vo_Spec sv) of
              None \<Rightarrow> ret (Inl nil_dereference)
            | Some storage \<Rightarrow>
                (case MustParse env (st_Capacity storage) of
                   Inl panic \<Rightarrow> ret (Inl panic)
                 | Inr capacity \<Rightarrow>
                     wrap_err ''failed to create PersistentVolumeClaim''
                       (Create env (OPersistentVolumeClaim (pod_claim_object pvcName podNamespace pvName capacity))))
      })"

definition ensureProxyPersistentVolumeClaim ::
  "'w env \<Rightarrow> VolumeSpecBase \<Rightarrow> string \<Rightarrow> string \<Rightarrow> string \<Rightarrow> ('w, error + unit) prog" where
  "ensureProxyPersistentVolumeClaim env spec referenceValue mainNamespace podNamespace =
     (let pvName = pv_pvc_name referenceValue mainNamespace;
          pvcName = pv_pvc_name referenceValue mainNamespace in do {
        r \<leftarrow> GetPVC env podNamespace pvcName;
        case r of
          Inr existingPVC \<Rightarrow>
            if om_DeletionTimestamp (pvc_Meta existingPVC) \<noteq> None
            then ret (Inl (Errorf (''proxy PVC '' @ podNamespace @ ''/'' @ pvcName
                   @ '' is in terminating state, cannot create pod'')))
            else ret (Inr ())
        | Inl err \<Rightarrow>
            if \<not> IsNotFound err then ret (Inl (Errorf_w ''failed to check if proxy PVC exists'' err))
            else case Storage spec of
              None \<Rightarrow> ret (Inl (Errorf ''storage spec is required''))
            | Some storage \<Rightarrow>
                (case MustParse env (st_Capacity storage) of
                   Inl panic \<Rightarrow> ret (Inl panic)
                 | Inr capacity \<Rightarrow>
                     wrap_err ''failed to create proxy PersistentVolumeClaim''
                       (Create env (OPersistentVolumeClaim (pod_claim_object pvcName podNamespace pvName capacity))))
      })"

definition addVolumeToPod :: "Pod \<Rightarrow> VolumeObject \<Rightarrow> string \<Rightarrow> error + Pod" where
  "addVolumeToPod pod sv podNamespace =
     (let volumeName = ReferenceValue (vo_Spec sv);
          pvcName = pv_pvc_name (ReferenceValue (vo_Spec sv)) podNamespace
      in case Storage (vo_Spec sv) of
           None \<Rightarrow> Inl nil_dereference
         | Some storage \<Rightarrow>
             Inr (add_to_pod \<lparr>vm_MountPath = MountPath (vo_Spec sv), vm_Name = volumeName,
                      vm_ReadOnly = (st_AccessMode storage = ''ReadOnly'')\<rparr>
                    \<lparr>pvol_Name = volumeName, pvol_ClaimName = Some pvcName\<rparr> pod))"

definition isPVCStillInUse :: "'w env \<Rightarrow> string \<Rightarrow> string \<Rightarrow> string \<Rightarrow> ('w, error + bool) prog" where
  "isPVCStillInUse env pvcName namespace deletingPodName =
     bindE (wrap_err (''failed to list pods in namespace '' @ namespace) (ListPods env (InNamespace namespace))) (\<lambda>pods.
     ret (Inr (list_ex (\<lambda>pod. om_Name (pod_Meta pod) \<noteq> deletingPodName \<and> om_DeletionTimestamp (pod_Meta pod) = None
       \<and> list_ex (\<lambda>vol. pvol_ClaimName vol = Some pvcName) (ps_Volumes (pod_Spec pod))) pods)))"

end
