(* ===== verification/Pod_Admission.thy ===== *)
theory Pod_Admission
  imports Pod_Webhook
begin

text \<open>
  What the pod webhook guarantees: the volumes a pod names end up mounted and nothing else of the
  pod changes, an admission is refused unless the mount paths differ, admitting the result again
  changes nothing, and claims are deleted only when a list of the pods shows that nobody uses them.
\<close>

section \<open>What the webhook adds to a pod\<close>

definition mounted :: "string \<Rightarrow> Pod \<Rightarrow> bool" where
  "mounted ref pod \<longleftrightarrow>
     list_all (\<lambda>ct. list_ex (\<lambda>vm. vm_Name vm = ref) (ct_VolumeMounts ct)) (ps_Containers (pod_Spec pod))
     \<and> list_ex (\<lambda>vol. pvol_Name vol = ref) (ps_Volumes (pod_Spec pod))"

definition ct_extends :: "Container \<Rightarrow> Container \<Rightarrow> bool" where
  "ct_extends ct ct' \<longleftrightarrow> (\<exists>vms. ct' = ct\<lparr>ct_VolumeMounts := ct_VolumeMounts ct @ vms\<rparr>)"

text \<open>
  \<open>pod_extends pod pod'\<close>: mounts are appended to the containers and volumes to the pod, each with
  the claim of its name in the pod's namespace; nothing else differs.
\<close>

definition pod_extends :: "Pod \<Rightarrow> Pod \<Rightarrow> bool" where
  "pod_extends pod pod' \<longleftrightarrow>
     (\<exists>cts vols. pod' = pod\<lparr>pod_Spec := (pod_Spec pod)\<lparr>ps_Containers := cts, ps_Volumes := ps_Volumes (pod_Spec pod) @ vols\<rparr>\<rparr>
        \<and> list_all2 ct_extends (ps_Containers (pod_Spec pod)) cts
        \<and> (\<forall>vol \<in> set vols. pvol_ClaimName vol = Some (pv_pvc_name (pvol_Name vol) (om_Namespace (pod_Meta pod)))))
     \<and> (distinct (map pvol_Name (ps_Volumes (pod_Spec pod))) \<longrightarrow> distinct (map pvol_Name (ps_Volumes (pod_Spec pod'))))"

lemma ct_extends_refl: "ct_extends ct ct"
  unfolding ct_extends_def by (intro exI [of _ "[]"]) simp

lemma ct_extends_trans: "ct_extends a b \<Longrightarrow> ct_extends b c \<Longrightarrow> ct_extends a c"
  unfolding ct_extends_def by (elim exE) (simp, blast)

lemma pod_extends_refl: "pod_extends pod pod"
proof -
  have "list_all2 ct_extends cts cts" for cts
    by (simp add: list_all2_same ct_extends_refl)
  then show ?thesis
    unfolding pod_extends_def by (intro conjI exI [of _ "ps_Containers (pod_Spec pod)"] exI [of _ "[]"]) simp_all
qed

lemma pod_extends_trans:
  assumes "pod_extends a b" and "pod_extends b c"
  shows "pod_extends a c"
proof -
  obtain cts vols where b: "b = a\<lparr>pod_Spec := (pod_Spec a)\<lparr>ps_Containers := cts, ps_Volumes := ps_Volumes (pod_Spec a) @ vols\<rparr>\<rparr>"
      "list_all2 ct_extends (ps_Containers (pod_Spec a)) cts"
      "\<forall>vol \<in> set vols. pvol_ClaimName vol = Some (pv_pvc_name (pvol_Name vol) (om_Namespace (pod_Meta a)))"
    using assms(1) unfolding pod_extends_def by blast
  obtain cts' vols' where c: "c = b\<lparr>pod_Spec := (pod_Spec b)\<lparr>ps_Containers := cts', ps_Volumes := ps_Volumes (pod_Spec b) @ vols'\<rparr>\<rparr>"
      "list_all2 ct_extends (ps_Containers (pod_Spec b)) cts'"
      "\<forall>vol \<in> set vols'. pvol_ClaimName vol = Some (pv_pvc_name (pvol_Name vol) (om_Namespace (pod_Meta b)))"
    using assms(2) unfolding pod_extends_def by blast
  have "list_all2 ct_extends (ps_Containers (pod_Spec a)) cts'"
    using b(2) c(2) by (auto simp: b(1) intro: list_all2_trans [rotated] ct_extends_trans)
  then show ?thesis
    using assms b(3) c(3) unfolding pod_extends_def
    by (intro conjI exI [of _ cts'] exI [of _ "vols @ vols'"]) (auto simp: b(1) c(1))
qed

interpretation pod_extends: step_preorder pod_extends
  by unfold_locales (rule pod_extends_refl, rule pod_extends_trans)

lemma add_mount_extends: "ct_extends ct (add_mount vm ct)"
proof (cases "list_ex (\<lambda>x. vm_Name x = vm_Name vm) (ct_VolumeMounts ct)")
  case True
  then show ?thesis by (simp add: add_mount_def ct_extends_refl)
next
  case False
  then show ?thesis
    unfolding add_mount_def ct_extends_def by (intro exI [of _ "[vm]"]) simp
qed

lemma addVolumeToPodGeneric_extends:
  "pod_extends pod (addVolumeToPodGeneric pod spec ref (om_Namespace (pod_Meta pod)))"
proof -
  let ?vol = "\<lparr>pvol_Name = ref, pvol_ClaimName = Some (pv_pvc_name ref (om_Namespace (pod_Meta pod)))\<rparr>"
  let ?vols = "if list_ex (\<lambda>v. pvol_Name v = ref) (ps_Volumes (pod_Spec pod)) then [] else [?vol]"
  have "add_pod_volume ?vol (ps_Volumes (pod_Spec pod)) = ps_Volumes (pod_Spec pod) @ ?vols"
    by (simp add: add_pod_volume_def)
  moreover have "list_all2 ct_extends cts (map (add_mount vm) cts)" for vm cts
    by (simp add: list.rel_map add_mount_extends list_all2_same)
  ultimately show ?thesis
    unfolding pod_extends_def addVolumeToPodGeneric_def add_to_pod_def Let_def
    by (intro conjI exI [of _ "map (add_mount _) (ps_Containers (pod_Spec pod))"] exI [of _ ?vols])
       (auto simp: list_ex_iff)
qed

lemma addVolumeToPodGeneric_mounts: "mounted ref (addVolumeToPodGeneric pod spec ref ns)"
  by (auto simp: mounted_def addVolumeToPodGeneric_def add_to_pod_def add_mount_def add_pod_volume_def list_all_iff)

lemma mounted_extends: "mounted ref pod \<Longrightarrow> pod_extends pod pod' \<Longrightarrow> mounted ref pod'"
  unfolding mounted_def pod_extends_def ct_extends_def list_all_length list_all2_conv_all_nth by fastforce

lemma mounted_add: "mounted ref pod \<Longrightarrow> addVolumeToPodGeneric pod spec ref ns = pod"
proof -
  assume m: "mounted ref pod"
  have "map (add_mount vm) (ps_Containers (pod_Spec pod)) = ps_Containers (pod_Spec pod)" if "vm_Name vm = ref" for vm
    using m that by (intro map_idI) (simp add: mounted_def add_mount_def list_all_iff)
  with m show ?thesis
    by (simp add: addVolumeToPodGeneric_def add_to_pod_def add_pod_volume_def mounted_def)
qed

text \<open>Setting the finalizers does not change what is mounted or what the annotations say.\<close>

lemma mounted_finalizers [simp]: "mounted ref (set_pod_finalizers fs pod) = mounted ref pod"
  by (simp add: mounted_def set_pod_finalizers_def)

lemma extract_finalizers [simp]:
  "extractSharedVolumeAnnotations (set_pod_finalizers fs pod) = extractSharedVolumeAnnotations pod"
  by (simp add: extractSharedVolumeAnnotations_def set_pod_finalizers_def)

lemma addSharedVolumeFinalizer_cases:
  "\<exists>fs. addSharedVolumeFinalizer pod = set_pod_finalizers fs pod \<and> SharedVolumePodFinalizer \<in> set fs"
proof (cases "list_ex (\<lambda>f. f = SharedVolumePodFinalizer) (om_Finalizers (pod_Meta pod))")
  case True
  then show ?thesis
    by (intro exI [of _ "om_Finalizers (pod_Meta pod)"]) (auto simp: addSharedVolumeFinalizer_def set_pod_finalizers_def list_ex_iff)
next
  case False
  then show ?thesis
    by (intro exI [of _ "om_Finalizers (pod_Meta pod) @ [SharedVolumePodFinalizer]"]) (simp add: addSharedVolumeFinalizer_def)
qed

lemma pod_extends_meta: "pod_extends pod pod' \<Longrightarrow> pod_Meta pod' = pod_Meta pod"
  by (auto simp: pod_extends_def)

lemma pod_extends_refs: "pod_extends pod pod' \<Longrightarrow> extractSharedVolumeAnnotations pod' = extractSharedVolumeAnnotations pod"
  by (simp add: extractSharedVolumeAnnotations_def pod_extends_meta)

section \<open>What a volume asks of a pod\<close>

text \<open>
  \<open>supplement key xs ys\<close>: \<open>xs\<close> followed by those of \<open>ys\<close> whose key is not taken yet, the first of
  each key.
\<close>

primrec supplement :: "('a \<Rightarrow> 'k) \<Rightarrow> 'a list \<Rightarrow> 'a list \<Rightarrow> 'a list" where
  "supplement key xs [] = xs"
| "supplement key xs (y # ys) = supplement key (if key y \<in> key ` set xs then xs else xs @ [y]) ys"

lemma supplement_added: "\<exists>zs. supplement key xs ys = xs @ zs \<and> set zs \<subseteq> set ys"
proof (induction ys arbitrary: xs)
  case (Cons y ys)
  show ?case
    using Cons.IH [of "if key y \<in> key ` set xs then xs else xs @ [y]"] by fastforce
qed simp

lemma supplement_keys: "key ` set (supplement key xs ys) = key ` set xs \<union> key ` set ys"
  by (induction ys arbitrary: xs) auto

text \<open>An entry is among the result when its key is not taken, neither before nor by another entry.\<close>

lemma supplement_new:
  assumes "y \<in> set ys" and "key y \<notin> key ` set xs" and "\<forall>z \<in> set ys. key z = key y \<longrightarrow> z = y"
  shows "y \<in> set (supplement key xs ys)"
proof -
  obtain zs where zs: "supplement key xs ys = xs @ zs" "set zs \<subseteq> set ys"
    using supplement_added [of key xs ys] by blast
  have "key y \<in> key ` set (supplement key xs ys)"
    using assms(1) by (simp add: supplement_keys)
  with assms(2,3) zs show ?thesis by auto
qed

definition needed_mount :: "VolumeObject \<Rightarrow> VolumeMount" where
  "needed_mount v = \<lparr>vm_MountPath = MountPath (vo_Spec v), vm_Name = ReferenceValue (vo_Spec v),
     vm_ReadOnly = (\<exists>storage. Storage (vo_Spec v) = Some storage \<and> st_AccessMode storage = ''ReadOnly'')\<rparr>"

definition needed_volume :: "string \<Rightarrow> VolumeObject \<Rightarrow> PodVolume" where
  "needed_volume ns v = \<lparr>pvol_Name = ReferenceValue (vo_Spec v), pvol_ClaimName = Some (ReferenceValue (vo_Spec v) @ ''-'' @ ns)\<rparr>"

definition with_volumes :: "VolumeObject list \<Rightarrow> Pod \<Rightarrow> Pod" where
  "with_volumes vs pod = pod\<lparr>pod_Spec := (pod_Spec pod)\<lparr>
     ps_Containers := map (\<lambda>ct. ct\<lparr>ct_VolumeMounts := supplement vm_Name (ct_VolumeMounts ct) (map needed_mount vs)\<rparr>)
       (ps_Containers (pod_Spec pod)),
     ps_Volumes := supplement pvol_Name (ps_Volumes (pod_Spec pod)) (map (needed_volume (om_Namespace (pod_Meta pod))) vs)\<rparr>\<rparr>"

definition add_volume :: "VolumeObject \<Rightarrow> Pod \<Rightarrow> Pod" where
  "add_volume v pod = addVolumeToPodGeneric pod (vo_Spec v) (ReferenceValue (vo_Spec v)) (om_Namespace (pod_Meta pod))"

lemma add_volume_one: "add_volume v pod = with_volumes [v] pod"
proof -
  have "add_mount (needed_mount v) ct = ct\<lparr>ct_VolumeMounts := supplement vm_Name (ct_VolumeMounts ct) [needed_mount v]\<rparr>" for ct
    by (auto simp: add_mount_def list_ex_iff intro: rev_image_eqI)
  moreover have "add_pod_volume vol vols = supplement pvol_Name vols [vol]" for vol vols
    by (auto simp: add_pod_volume_def list_ex_iff intro: rev_image_eqI)
  moreover have "\<lparr>vm_MountPath = MountPath (vo_Spec v), vm_Name = ReferenceValue (vo_Spec v),
      vm_ReadOnly = (case Storage (vo_Spec v) of None \<Rightarrow> False | Some storage \<Rightarrow> st_AccessMode storage = ''ReadOnly'')\<rparr> = needed_mount v"
    by (auto simp: needed_mount_def split: option.split)
  ultimately show ?thesis
    by (simp add: add_volume_def addVolumeToPodGeneric_def add_to_pod_def with_volumes_def needed_volume_def pv_pvc_name_def Let_def)
qed

lemma fold_add_volume: "fold add_volume vs pod = with_volumes vs pod"
proof (induction vs arbitrary: pod)
  case Nil
  then show ?case by (simp add: with_volumes_def)
next
  case (Cons v vs)
  then show ?case
    by (simp add: add_volume_one) (simp add: with_volumes_def comp_def)
qed

lemma add_volume_facts:
  "pod_extends pod (add_volume v pod)" "mounted (ReferenceValue (vo_Spec v)) (add_volume v pod)"
  "pod_Meta (add_volume v pod) = pod_Meta pod"
  using addVolumeToPodGeneric_extends addVolumeToPodGeneric_mounts
  by (simp_all add: add_volume_def pod_extends_meta [OF addVolumeToPodGeneric_extends])

section \<open>The volumes that were read\<close>

definition ref_key :: "SharedVolumeRef \<Rightarrow> key" where
  "ref_key r = (if svr_IsCluster r then (KVolume ClusterSharedVolume, [], svr_Name r)
                else (KVolume SharedVolume, svr_Namespace r, svr_Name r))"

fun read_as :: "key \<Rightarrow> VolumeObject \<Rightarrow> event" where
  "read_as (k, ns, n) v = EApi (GetReq k ns n) (RObject (OVolume v))"

lemma volume_of_ref_read:
  assumes "run_state (volume_of_ref env r suffix) w = (Inr v, w')"
  shows "w_hist w' = w_hist w @ [read_as (ref_key r) v]"
  using assms unfolding volume_of_ref_def wrap_err_def GetVolume_def Get_as_def ref_key_def
  by (auto simp: run_api_call as_object_Inr the_volume_Some split: if_splits sum.splits)

lemma volume_of_ref_reads: "emits reads_only (volume_of_ref env r suffix)"
  unfolding volume_of_ref_def wrap_err_def by (intro keeps_intro) simp_all

lemma ensure_creates:
  assumes "\<And>obj rp. kind_of obj = KPersistentVolume \<or> kind_of obj = KPersistentVolumeClaim \<Longrightarrow> P (EApi (CreateReq obj) rp)"
    and "\<And>k ns n rp. P (EApi (GetReq k ns n) rp)"
  shows "emits P (ensurePersistentVolumeGeneric env spec ref ns vn vns)"
    "emits P (ensurePersistentVolumeClaimGeneric env spec ref ns)"
  unfolding ensurePersistentVolumeGeneric_def ensurePersistentVolumeClaimGeneric_def wrap_err_def
  by (intro keeps_intro; simp add: assms)+

lemma process_grows: "emits (\<lambda>_. True) (processSharedVolume env pod r)" "emits (\<lambda>_. True) (processSharedVolumes env pod rs)"
proof -
  show one: "emits (\<lambda>_. True) (processSharedVolume env pod r)" for pod r
    unfolding processSharedVolume_def Let_def wrap_err_def
    by (intro keeps_intro ensure_creates emits_weaken [OF volume_of_ref_reads]) simp_all
  show "emits (\<lambda>_. True) (processSharedVolumes env pod rs)"
    by (induction rs arbitrary: pod) (auto intro!: keeps_intro one)
qed

lemma processSharedVolume_step:
  assumes "run_state (processSharedVolume env pod r) w = (Inr pod', w')"
  shows "\<exists>v es. w_hist w' = w_hist w @ read_as (ref_key r) v # es \<and> pod' = add_volume v pod"
proof -
  let ?ns = "om_Namespace (pod_Meta pod)"
  let ?rest = "\<lambda>v. bindE (wrap_err ''failed to ensure PersistentVolume''
        (ensurePersistentVolumeGeneric env (vo_Spec v) (ReferenceValue (vo_Spec v)) ?ns (svr_Name r)
          (if svr_IsCluster r then ClusterSharedVolumeOperationNamespace else ?ns))) (\<lambda>_.
      bindE (wrap_err ''failed to ensure PersistentVolumeClaim''
        (ensurePersistentVolumeClaimGeneric env (vo_Spec v) (ReferenceValue (vo_Spec v)) ?ns)) (\<lambda>_.
      ret (Inr (addVolumeToPodGeneric pod (vo_Spec v) (ReferenceValue (vo_Spec v)) ?ns))))"
  obtain v w1 where v: "run_state (volume_of_ref env r []) w = (Inr v, w1)" and rest: "run_state (?rest v) w1 = (Inr pod', w')"
    using assms unfolding processSharedVolume_def Let_def by (auto simp del: run_bindE simp: run_bindE [of "volume_of_ref env r []"] split: prod.splits sum.splits)
  from rest have "pod' = addVolumeToPodGeneric pod (vo_Spec v) (ReferenceValue (vo_Spec v)) ?ns"
    by (auto split: prod.splits sum.splits)
  moreover have "emits (\<lambda>_. True) (?rest v)"
    unfolding wrap_err_def by (intro keeps_intro ensure_creates) simp_all
  then obtain es where "w_hist w' = w_hist w1 @ es"
    using keepsD [OF _ rest] unfolding grows_def by blast
  ultimately show ?thesis
    using volume_of_ref_read [OF v] by (intro conjI exI [of _ v] exI [of _ es]) (simp_all add: add_volume_def)
qed

lemma processSharedVolumes_run:
  assumes "run_state (processSharedVolumes env pod rs) w = (Inr pod', w')"
  shows "\<exists>vs es. w_hist w' = w_hist w @ es \<and> list_all2 (\<lambda>r v. read_as (ref_key r) v \<in> set es) rs vs \<and> pod' = fold add_volume vs pod"
  using assms
proof (induction rs arbitrary: pod w)
  case Nil
  then show ?case by simp
next
  case (Cons r rs)
  obtain pod1 w1 where one: "run_state (processSharedVolume env pod r) w = (Inr pod1, w1)"
      and rest: "run_state (processSharedVolumes env pod1 rs) w1 = (Inr pod', w')"
    using Cons.prems by (auto split: prod.splits sum.splits)
  obtain v es1 where v: "w_hist w1 = w_hist w @ read_as (ref_key r) v # es1" "pod1 = add_volume v pod"
    using processSharedVolume_step [OF one] by blast
  obtain vs es where es: "w_hist w' = w_hist w1 @ es" "list_all2 (\<lambda>r v. read_as (ref_key r) v \<in> set es) rs vs"
      "pod' = fold add_volume vs pod1"
    using Cons.IH [OF rest] by blast
  have "list_all2 (\<lambda>r v. read_as (ref_key r) v \<in> set (read_as (ref_key r0) v0 # es1 @ es)) rs vs" for r0 v0
    by (rule list_all2_mono [OF es(2)]) simp
  with v es show ?case
    by (intro exI [of _ "v # vs"] exI [of _ "read_as (ref_key r) v # es1 @ es"]) simp
qed

text \<open>What the exact result means for one volume, and the finalizer.\<close>

lemma with_volumes_mounted: "v \<in> set vs \<Longrightarrow> mounted (ReferenceValue (vo_Spec v)) (with_volumes vs pod)"
proof -
  assume v: "v \<in> set vs"
  have entry: "\<exists>x \<in> set (supplement key xs ys). key x = k" if "k \<in> key ` set ys" for key :: "'x \<Rightarrow> string" and xs ys k
    using that supplement_keys [of key xs ys] by (metis (no_types, lifting) Un_iff imageE)
  have "\<exists>m \<in> set (supplement vm_Name ms (map needed_mount vs)). vm_Name m = ReferenceValue (vo_Spec v)" for ms
    using v by (intro entry) (auto simp: needed_mount_def image_iff)
  moreover have "\<exists>x \<in> set (supplement pvol_Name vols (map (needed_volume ns) vs)). pvol_Name x = ReferenceValue (vo_Spec v)" for vols ns
    using v by (intro entry) (auto simp: needed_volume_def image_iff)
  ultimately show ?thesis
    by (simp add: mounted_def with_volumes_def list_all_iff list_ex_iff)
qed

lemma with_volumes_mount:
  assumes "v \<in> set vs" and "\<forall>u \<in> set vs. ReferenceValue (vo_Spec u) = ReferenceValue (vo_Spec v) \<longrightarrow> u = v"
  shows "list_all2 (\<lambda>ct ct'. ReferenceValue (vo_Spec v) \<notin> vm_Name ` set (ct_VolumeMounts ct) \<longrightarrow> needed_mount v \<in> set (ct_VolumeMounts ct'))
    (ps_Containers (pod_Spec pod)) (ps_Containers (pod_Spec (set_pod_finalizers fs (with_volumes vs pod))))"
proof -
  have name: "vm_Name (needed_mount u) = ReferenceValue (vo_Spec u)" for u
    by (simp add: needed_mount_def)
  have "needed_mount v \<in> set (supplement vm_Name (ct_VolumeMounts ct) (map needed_mount vs))"
    if "ReferenceValue (vo_Spec v) \<notin> vm_Name ` set (ct_VolumeMounts ct)" for ct
    using assms that by (intro supplement_new) (auto simp: name)
  then show ?thesis
    by (auto simp: with_volumes_def set_pod_finalizers_def list.rel_map list_all2_same)
qed

lemma finalizer_supplement:
  "addSharedVolumeFinalizer (with_volumes vs pod)
     = set_pod_finalizers (supplement id (om_Finalizers (pod_Meta pod)) [SharedVolumePodFinalizer]) (with_volumes vs pod)"
  by (auto simp: addSharedVolumeFinalizer_def set_pod_finalizers_def list_ex_iff with_volumes_def)

text \<open>The parts of an admission that ends in a patch.\<close>

lemma Handle_patch:
  assumes "ar_Object req = Inr pod" and "run_state (Handle env req) w = (Inr (PatchTo pod'), w')"
  obtains pod1 w1 where "run_state (validateUniqueMountPaths env (extractSharedVolumeAnnotations pod)) w = (Inr (), w1)"
    and "run_state (processSharedVolumes env pod (extractSharedVolumeAnnotations pod)) w1 = (Inr pod1, w')"
    and "pod' = addSharedVolumeFinalizer pod1" and "om_DeletionTimestamp (pod_Meta pod) = None"
    and "extractSharedVolumeAnnotations pod \<noteq> []"
    and "\<not> (ar_Operation req = ''UPDATE'' \<and> hasSharedVolumeFinalizer pod \<and> ps_Volumes (pod_Spec pod) \<noteq> [])"
  using assms unfolding Handle_def
  by (auto simp: errored_def Let_def split: if_splits prod.splits sum.splits)

lemma validate_reads: "emits reads_only (validateUniqueMountPaths env rs)"
proof -
  have "emits reads_only (collect_mount_paths env rs mp)" for mp
    by (induction rs arbitrary: mp) (auto intro!: keeps_intro volume_of_ref_reads)
  then show ?thesis
    unfolding validateUniqueMountPaths_def by (intro keeps_intro)
qed


section \<open>Mount paths\<close>

text \<open>The volumes the references name in a store, if all are there.\<close>

definition the_ref :: "(key \<Rightarrow> kobj option) \<Rightarrow> SharedVolumeRef \<Rightarrow> VolumeObject option" where
  "the_ref st r = (case st (ref_key r) of Some (OVolume v) \<Rightarrow> Some v | _ \<Rightarrow> None)"

definition resolve :: "(key \<Rightarrow> kobj option) \<Rightarrow> SharedVolumeRef list \<Rightarrow> VolumeObject list option" where
  "resolve st rs = those (map (the_ref st) rs)"

lemma resolve_simps [simp]:
  "resolve st [] = Some []"
  "resolve st (r # rs) = (case the_ref st r of None \<Rightarrow> None | Some v \<Rightarrow> map_option (\<lambda>vs. v # vs) (resolve st rs))"
  by (auto simp: resolve_def split: option.split)

lemma resolve_length: "resolve st rs = Some vs \<Longrightarrow> length vs = length rs"
  by (induction rs arbitrary: vs) (auto split: option.splits)

text \<open>The collected paths: no path twice, and at least one name each.\<close>

definition paths_ok :: "(string \<times> string list) list \<Rightarrow> bool" where
  "paths_ok mp \<longleftrightarrow> distinct (map fst mp) \<and> (\<forall>(p, names) \<in> set mp. names \<noteq> [])"

lemma add_mount_path_fst: "fst ` set (add_mount_path p n mp) = insert p (fst ` set mp)"
  by (induction p n mp rule: add_mount_path.induct) auto

lemma add_mount_path_ok: "paths_ok mp \<Longrightarrow> paths_ok (add_mount_path p n mp)"
  by (induction p n mp rule: add_mount_path.induct) (auto simp: paths_ok_def add_mount_path_fst)

lemma add_mount_path_duplicates:
  "paths_ok mp \<Longrightarrow> duplicate_messages (add_mount_path p n mp) = [] \<longleftrightarrow> duplicate_messages mp = [] \<and> p \<notin> fst ` set mp"
  by (induction p n mp rule: add_mount_path.induct)
     (auto simp: paths_ok_def duplicate_messages_def Suc_le_eq split: if_splits)

lemma collected_duplicates:
  "paths_ok mp \<Longrightarrow> duplicate_messages (fold (\<lambda>(p, n). add_mount_path p n) xs mp) = []
     \<longleftrightarrow> duplicate_messages mp = [] \<and> distinct (map fst xs) \<and> fst ` set xs \<inter> fst ` set mp = {}"
proof (induction xs arbitrary: mp)
  case Nil
  then show ?case by simp
next
  case (Cons x xs)
  obtain p n where x: "x = (p, n)" by fastforce
  have "duplicate_messages (fold (\<lambda>(p, n). add_mount_path p n) (x # xs) mp) = []
      \<longleftrightarrow> (duplicate_messages mp = [] \<and> p \<notin> fst ` set mp) \<and> distinct (map fst xs)
          \<and> fst ` set xs \<inter> insert p (fst ` set mp) = {}"
    using Cons.IH [OF add_mount_path_ok [OF Cons.prems]] add_mount_path_duplicates [OF Cons.prems]
    by (simp add: x add_mount_path_fst)
  then show ?case
    by (simp add: x Int_insert_right Int_insert_left conj_ac)
qed

lemma run_volume_of_ref_store:
  assumes "stores env objs"
  shows "\<exists>res w'. run_state (volume_of_ref env r suffix) w = (res, w') \<and> w_srv w' = w_srv w
    \<and> (case the_ref (objs (w_srv w)) r of Some v \<Rightarrow> res = Inr v | None \<Rightarrow> \<exists>e. res = Inl e \<and> \<not> is_abort e)"
proof (cases "objs (w_srv w) (ref_key r)")
  case None
  then show ?thesis
    using assms unfolding stores_def volume_of_ref_def wrap_err_def GetVolume_def Get_as_def ref_key_def the_ref_def
    by (auto simp: run_api_call as_object_def split: if_splits)
next
  case (Some obj)
  then have "key_of obj = ref_key r" using assms unfolding stores_def by blast
  then obtain v where "obj = OVolume v" "vo_type v = (if svr_IsCluster r then ClusterSharedVolume else SharedVolume)"
    by (cases obj) (auto simp: key_of_def ref_key_def split: if_splits)
  with Some show ?thesis
    using assms unfolding stores_def volume_of_ref_def wrap_err_def GetVolume_def Get_as_def ref_key_def the_ref_def
    by (auto simp: run_api_call as_object_def split: if_splits)
qed

definition collected :: "VolumeObject list \<Rightarrow> SharedVolumeRef list \<Rightarrow> (string \<times> string list) list \<Rightarrow> (string \<times> string list) list" where
  "collected vs rs = fold (\<lambda>(p, n). add_mount_path p n) (zip (map (\<lambda>v. MountPath (vo_Spec v)) vs) (map display_name rs))"

lemma run_collect_store:
  assumes "stores env objs"
  shows "\<exists>res w'. run_state (collect_mount_paths env rs mp) w = (res, w') \<and> w_srv w' = w_srv w
    \<and> (case resolve (objs (w_srv w)) rs of
          Some vs \<Rightarrow> res = Inr (collected vs rs mp) | None \<Rightarrow> \<exists>e. res = Inl e \<and> \<not> is_abort e)"
proof (induction rs arbitrary: mp w)
  case Nil
  then show ?case by (simp add: collected_def)
next
  case (Cons r rs)
  obtain res w1 where one: "run_state (volume_of_ref env r []) w = (res, w1)" "w_srv w1 = w_srv w"
      "case the_ref (objs (w_srv w)) r of Some v \<Rightarrow> res = Inr v | None \<Rightarrow> \<exists>e. res = Inl e \<and> \<not> is_abort e"
    using run_volume_of_ref_store [OF assms] by blast
  show ?case
  proof (cases "the_ref (objs (w_srv w)) r")
    case None
    with one show ?thesis by auto
  next
    case (Some v)
    with one Cons.IH [of "add_mount_path (MountPath (vo_Spec v)) (display_name r) mp" w1] show ?thesis
      by (auto simp: collected_def split: option.splits)
  qed
qed

lemma run_validate_store:
  assumes "stores env objs"
  shows "\<exists>res w'. run_state (validateUniqueMountPaths env rs) w = (res, w') \<and> w_srv w' = w_srv w
    \<and> (\<forall>e. res = Inl e \<longrightarrow> \<not> is_abort e)
    \<and> (res = Inr () \<longleftrightarrow> (\<exists>vs. resolve (objs (w_srv w)) rs = Some vs \<and> distinct (map (\<lambda>v. MountPath (vo_Spec v)) vs)))"
proof -
  obtain res w' where run: "run_state (collect_mount_paths env rs []) w = (res, w')" "w_srv w' = w_srv w"
      "case resolve (objs (w_srv w)) rs of
          Some vs \<Rightarrow> res = Inr (collected vs rs []) | None \<Rightarrow> \<exists>e. res = Inl e \<and> \<not> is_abort e"
    using run_collect_store [OF assms] by blast
  show ?thesis
  proof (cases "resolve (objs (w_srv w)) rs")
    case None
    with run show ?thesis by (auto simp: validateUniqueMountPaths_def)
  next
    case (Some vs)
    have "duplicate_messages (collected vs rs []) = [] \<longleftrightarrow> distinct (map (\<lambda>v. MountPath (vo_Spec v)) vs)"
      unfolding collected_def using resolve_length [OF Some]
      by (subst collected_duplicates) (simp_all add: paths_ok_def duplicate_messages_def)
    with run Some show ?thesis by (simp add: validateUniqueMountPaths_def)
  qed
qed

text \<open>
  C22. Against a server that stores objects, the webhook denies a pod that is created with volume
  annotations exactly when a volume it names does not exist or two of them have the same mount
  path, and a denied request changes nothing.
\<close>

theorem Handle_denies:
  assumes "stores env objs" and "ar_Object req = Inr pod" and "om_DeletionTimestamp (pod_Meta pod) = None"
    and "extractSharedVolumeAnnotations pod \<noteq> []" and "ar_Operation req = ''CREATE''"
  shows "(\<exists>msg w'. run_state (Handle env req) w = (Inr (Denied msg), w') \<and> w_srv w' = w_srv w) \<longleftrightarrow>
    (case resolve (objs (w_srv w)) (extractSharedVolumeAnnotations pod) of
       None \<Rightarrow> True | Some vs \<Rightarrow> \<not> distinct (map (\<lambda>v. MountPath (vo_Spec v)) vs))"
proof -
  let ?rs = "extractSharedVolumeAnnotations pod"
  obtain res w1 where res: "run_state (validateUniqueMountPaths env ?rs) w = (res, w1)" "w_srv w1 = w_srv w"
      "\<forall>e. res = Inl e \<longrightarrow> \<not> is_abort e"
      "res = Inr () \<longleftrightarrow> (\<exists>vs. resolve (objs (w_srv w)) ?rs = Some vs \<and> distinct (map (\<lambda>v. MountPath (vo_Spec v)) vs))"
    using run_validate_store [OF assms(1)] by blast
  show ?thesis
  proof (cases res)
    case (Inl e)
    with res(1,3) have "run_state (Handle env req) w = (Inr (Denied (error_text e)), w1)"
      using assms(2-5) by (simp add: Handle_def Let_def)
    with res(2,4) Inl show ?thesis
      by (cases "resolve (objs (w_srv w)) ?rs") auto
  next
    case (Inr u)
    then have "fst (run_state (Handle env req) w) \<noteq> Inr (Denied msg)" for msg
      using res(1) assms(2-5) by (auto simp: Handle_def Let_def errored_def split: prod.splits sum.splits)
    then have "\<not> (\<exists>msg w'. run_state (Handle env req) w = (Inr (Denied msg), w') \<and> w_srv w' = w_srv w)"
      by (metis fst_conv)
    with res(4) Inr show ?thesis by auto
  qed
qed

section \<open>Admitting the result again\<close>

text \<open>
  What a processed reference leaves behind: the volume \<open>v\<close> it names, a persistent volume and a claim
  that is not being deleted.
\<close>

definition provided :: "(key \<Rightarrow> kobj option) \<Rightarrow> string \<Rightarrow> SharedVolumeRef \<Rightarrow> VolumeObject \<Rightarrow> bool" where
  "provided st ns r v \<longleftrightarrow> the_ref st r = Some v
     \<and> (let n = pv_pvc_name (ReferenceValue (vo_Spec v)) ns in
        (\<exists>pv. st (KPersistentVolume, [], n) = Some (OPersistentVolume pv))
        \<and> (\<exists>pvc. st (KPersistentVolumeClaim, ns, n) = Some (OPersistentVolumeClaim pvc) \<and> om_DeletionTimestamp (pvc_Meta pvc) = None))"

lemma the_ref_Some: "the_ref st r = Some v \<longleftrightarrow> st (ref_key r) = Some (OVolume v)"
  by (auto simp: the_ref_def split: option.splits kobj.splits)

lemma the_ref_mono: "the_ref st r = Some v \<Longrightarrow> st \<subseteq>\<^sub>m st' \<Longrightarrow> the_ref st' r = Some v"
  unfolding the_ref_Some by (metis domI map_le_def)

lemma provided_mono: "provided st ns r v \<Longrightarrow> st \<subseteq>\<^sub>m st' \<Longrightarrow> provided st' ns r v"
  unfolding provided_def Let_def by (metis the_ref_mono domI map_le_def)

lemma stored_storage:
  assumes "stores env objs"
  shows "objs s (KPersistentVolume, ns, n) = Some obj \<Longrightarrow> \<exists>pv. obj = OPersistentVolume pv"
    and "objs s (KPersistentVolumeClaim, ns, n) = Some obj \<Longrightarrow> \<exists>pvc. obj = OPersistentVolumeClaim pvc"
  by (blast dest: stored_kind [OF assms] is_the)+

lemma run_Get_store:
  assumes "stores env objs"
  shows "run_state (Get_as dec env k ns n) w =
    (as_object dec (case objs (w_srv w) (k, ns, n) of None \<Rightarrow> RError (NotFound n) | Some obj \<Rightarrow> RObject obj),
     w\<lparr>w_hist := w_hist w @ [EApi (GetReq k ns n) (case objs (w_srv w) (k, ns, n) of None \<Rightarrow> RError (NotFound n) | Some obj \<Rightarrow> RObject obj)]\<rparr>)"
  by (simp add: run_stored_Get [OF assms] as_object_def split: option.split)

lemma Create_keeps:
  assumes "stores env objs" and "run_state (Create env obj) w = (Inr (), w')"
  shows "objs (w_srv w') = (objs (w_srv w))(key_of obj \<mapsto> obj) \<and> objs (w_srv w) (key_of obj) = None"
proof (cases "objs (w_srv w) (key_of obj)")
  case None
  with run_stored_Create [OF assms] show ?thesis by simp
next
  case (Some old)
  with assms(1) obtain e where "fst (e_api env (CreateReq obj) (w_srv w)) = RError e"
    unfolding stores_def by (metis option.distinct(1))
  with assms(2) show ?thesis by (simp add: Create_def run_api_call as_done_def)
qed

lemma ensurePV_store:
  assumes "stores env objs" and "run_state (ensurePersistentVolumeGeneric env spec ref ns vn vns) w = (Inr u, w')"
  shows "objs (w_srv w) \<subseteq>\<^sub>m objs (w_srv w')
    \<and> (\<exists>pv. objs (w_srv w') (KPersistentVolume, [], pv_pvc_name ref ns) = Some (OPersistentVolume pv))"
proof (cases "objs (w_srv w) (KPersistentVolume, [], pv_pvc_name ref ns)")
  case None
  with assms(2) obtain pv w1 where "run_state (Create env (OPersistentVolume pv)) w1 = (Inr (), w')" "w_srv w1 = w_srv w"
      "pv_Meta pv = empty_meta\<lparr>om_Name := pv_pvc_name ref ns\<rparr>"
    unfolding ensurePersistentVolumeGeneric_def Let_def wrap_err_def
    by (auto simp: run_Get_store [OF assms(1)] as_object_def pod_volume_object_def split: option.splits sum.splits prod.splits)
  with Create_keeps [OF assms(1) this(1)] show ?thesis
    by (auto simp: key_of_def empty_meta_def map_le_def)
next
  case (Some obj)
  with stored_storage(1) [OF assms(1) Some] assms(2) show ?thesis
    unfolding ensurePersistentVolumeGeneric_def Let_def
    by (auto simp: run_Get_store [OF assms(1)] as_object_def)
qed

lemma ensurePVC_store:
  assumes "stores env objs" and "run_state (ensurePersistentVolumeClaimGeneric env spec ref ns) w = (Inr u, w')"
  shows "objs (w_srv w) \<subseteq>\<^sub>m objs (w_srv w')
    \<and> (\<exists>pvc. objs (w_srv w') (KPersistentVolumeClaim, ns, pv_pvc_name ref ns) = Some (OPersistentVolumeClaim pvc)
          \<and> om_DeletionTimestamp (pvc_Meta pvc) = None)"
proof (cases "objs (w_srv w) (KPersistentVolumeClaim, ns, pv_pvc_name ref ns)")
  case None
  with assms(2) obtain pvc w1 where "run_state (Create env (OPersistentVolumeClaim pvc)) w1 = (Inr (), w')" "w_srv w1 = w_srv w"
      "pvc_Meta pvc = empty_meta\<lparr>om_Name := pv_pvc_name ref ns, om_Namespace := ns\<rparr>"
    unfolding ensurePersistentVolumeClaimGeneric_def Let_def wrap_err_def
    by (auto simp: run_Get_store [OF assms(1)] as_object_def pod_claim_object_def split: option.splits sum.splits prod.splits)
  with Create_keeps [OF assms(1) this(1)] show ?thesis
    by (auto simp: key_of_def empty_meta_def map_le_def)
next
  case (Some obj)
  with stored_storage(2) [OF assms(1) Some] assms(2) show ?thesis
    unfolding ensurePersistentVolumeClaimGeneric_def Let_def
    by (auto simp: run_Get_store [OF assms(1)] as_object_def split: if_splits)
qed

lemma wrap_err_Inr: "run_state (wrap_err m p) w = (Inr x, w') \<longleftrightarrow> run_state p w = (Inr x, w')"
  by (auto simp: wrap_err_def split: prod.splits sum.splits)

lemma processSharedVolume_store:
  assumes "stores env objs" and "run_state (processSharedVolume env pod r) w = (Inr pod', w')"
  shows "objs (w_srv w) \<subseteq>\<^sub>m objs (w_srv w')
    \<and> (\<exists>v. provided (objs (w_srv w')) (om_Namespace (pod_Meta pod)) r v
          \<and> pod' = addVolumeToPodGeneric pod (vo_Spec v) (ReferenceValue (vo_Spec v)) (om_Namespace (pod_Meta pod)))"
proof -
  let ?ns = "om_Namespace (pod_Meta pod)"
  obtain res w1 where one: "run_state (volume_of_ref env r []) w = (res, w1)" "w_srv w1 = w_srv w"
      "case the_ref (objs (w_srv w)) r of Some v \<Rightarrow> res = Inr v | None \<Rightarrow> \<exists>e. res = Inl e \<and> \<not> is_abort e"
    using run_volume_of_ref_store [OF assms(1)] by blast
  with assms(2) obtain v where v: "res = Inr v" "the_ref (objs (w_srv w)) r = Some v"
    unfolding processSharedVolume_def Let_def by (auto split: option.splits)
  let ?ref = "ReferenceValue (vo_Spec v)"
  obtain u w2 where pv: "run_state (wrap_err ''failed to ensure PersistentVolume'' (ensurePersistentVolumeGeneric env (vo_Spec v) ?ref ?ns (svr_Name r)
        (if svr_IsCluster r then ClusterSharedVolumeOperationNamespace else ?ns))) w1 = (Inr u, w2)"
    and rest: "run_state (bindE (wrap_err ''failed to ensure PersistentVolumeClaim''
        (ensurePersistentVolumeClaimGeneric env (vo_Spec v) ?ref ?ns)) (\<lambda>_. ret (Inr (addVolumeToPodGeneric pod (vo_Spec v) ?ref ?ns)))) w2 = (Inr pod', w')"
    using assms(2) one(1) v(1) unfolding processSharedVolume_def Let_def
    by (auto simp del: run_bindE simp: run_bindE [of "volume_of_ref env r []"] run_bindE [of "wrap_err ''failed to ensure PersistentVolume'' _"]
        split: prod.splits sum.splits)
  from rest have pvc: "\<exists>u. run_state (wrap_err ''failed to ensure PersistentVolumeClaim''
        (ensurePersistentVolumeClaimGeneric env (vo_Spec v) ?ref ?ns)) w2 = (Inr u, w')"
      and pod': "pod' = addVolumeToPodGeneric pod (vo_Spec v) ?ref ?ns"
    by (auto split: prod.splits sum.splits)
  note pv = ensurePV_store [OF assms(1) pv [unfolded wrap_err_Inr]]
  from pvc obtain u' where "run_state (ensurePersistentVolumeClaimGeneric env (vo_Spec v) ?ref ?ns) w2 = (Inr u', w')"
    by (auto simp: wrap_err_Inr)
  note pvc = ensurePVC_store [OF assms(1) this]
  have le: "objs (w_srv w) \<subseteq>\<^sub>m objs (w_srv w')"
    using pv pvc one(2) map_le_trans by metis
  have "\<exists>pv. objs (w_srv w') (KPersistentVolume, [], pv_pvc_name ?ref ?ns) = Some (OPersistentVolume pv)"
    using pv pvc by (metis domI map_le_def)
  with the_ref_mono [OF v(2) le] pvc have "provided (objs (w_srv w')) ?ns r v"
    by (auto simp: provided_def Let_def)
  with le pod' show ?thesis by blast
qed

lemma processSharedVolume_again:
  assumes "stores env objs" and "provided (objs (w_srv w)) (om_Namespace (pod_Meta pod)) r v"
  shows "\<exists>w'. w_srv w' = w_srv w \<and> run_state (processSharedVolume env pod r) w =
    (Inr (addVolumeToPodGeneric pod (vo_Spec v) (ReferenceValue (vo_Spec v)) (om_Namespace (pod_Meta pod))), w')"
proof -
  obtain w1 where "run_state (volume_of_ref env r []) w = (Inr v, w1)" "w_srv w1 = w_srv w"
    using run_volume_of_ref_store [OF assms(1), of r "[]" w] assms(2) by (auto simp: provided_def)
  with assms(2) show ?thesis
    unfolding processSharedVolume_def ensurePersistentVolumeGeneric_def ensurePersistentVolumeClaimGeneric_def wrap_err_def Let_def
    by (auto simp: provided_def Let_def run_Get_store [OF assms(1)] as_object_def)
qed

text \<open>What processing all references leaves, and that doing it again on its result does nothing.\<close>

lemma processSharedVolumes_store:
  assumes "stores env objs" and "run_state (processSharedVolumes env pod rs) w = (Inr pod', w')"
  shows "objs (w_srv w) \<subseteq>\<^sub>m objs (w_srv w') \<and> pod_extends pod pod'
    \<and> list_all (\<lambda>r. \<exists>v. provided (objs (w_srv w')) (om_Namespace (pod_Meta pod)) r v \<and> mounted (ReferenceValue (vo_Spec v)) pod') rs"
  using assms(2)
proof (induction rs arbitrary: pod w)
  case Nil
  then show ?case by (simp add: pod_extends_refl)
next
  case (Cons r rs)
  obtain pod1 w1 where one: "run_state (processSharedVolume env pod r) w = (Inr pod1, w1)"
      and rest: "run_state (processSharedVolumes env pod1 rs) w1 = (Inr pod', w')"
    using Cons.prems by (auto split: prod.splits sum.splits)
  obtain v where v: "objs (w_srv w) \<subseteq>\<^sub>m objs (w_srv w1)" "provided (objs (w_srv w1)) (om_Namespace (pod_Meta pod)) r v"
      "pod1 = addVolumeToPodGeneric pod (vo_Spec v) (ReferenceValue (vo_Spec v)) (om_Namespace (pod_Meta pod))"
    using processSharedVolume_store [OF assms(1) one] by blast
  have ext: "pod_extends pod pod1"
    unfolding v(3) by (rule addVolumeToPodGeneric_extends)
  note IH = Cons.IH [OF rest]
  have "mounted (ReferenceValue (vo_Spec v)) pod'"
    using IH mounted_extends addVolumeToPodGeneric_mounts unfolding v(3) by blast
  then show ?case
    using v(1,2) IH ext pod_extends_trans pod_extends_meta [OF ext]
    by (auto intro: map_le_trans provided_mono)
qed

lemma processSharedVolumes_again:
  assumes "stores env objs"
    and "list_all (\<lambda>r. \<exists>v. provided (objs (w_srv w)) (om_Namespace (pod_Meta pod)) r v \<and> mounted (ReferenceValue (vo_Spec v)) pod) rs"
  shows "\<exists>w'. w_srv w' = w_srv w \<and> run_state (processSharedVolumes env pod rs) w = (Inr pod, w')"
  using assms(2)
proof (induction rs arbitrary: w)
  case Nil
  then show ?case by simp
next
  case (Cons r rs)
  then obtain v where v: "provided (objs (w_srv w)) (om_Namespace (pod_Meta pod)) r v" "mounted (ReferenceValue (vo_Spec v)) pod"
    by auto
  obtain w1 where w1: "w_srv w1 = w_srv w" "run_state (processSharedVolume env pod r) w = (Inr pod, w1)"
    using processSharedVolume_again [OF assms(1) v(1)] mounted_add [OF v(2)] by auto
  with Cons.IH [of w1] Cons.prems show ?case by auto
qed

lemma resolve_mono: "resolve st rs = Some vs \<Longrightarrow> st \<subseteq>\<^sub>m st' \<Longrightarrow> resolve st' rs = Some vs"
  by (induction rs arbitrary: vs) (auto dest: the_ref_mono split: option.splits)

lemma addSharedVolumeFinalizer_again: "addSharedVolumeFinalizer (addSharedVolumeFinalizer pod) = addSharedVolumeFinalizer pod"
  by (auto simp: addSharedVolumeFinalizer_def set_pod_finalizers_def list_ex_iff)

text \<open>
  C15. Admitting a pod the webhook has already patched changes nothing: against a server that stores
  objects the second admission returns the same pod, or says that it is already processed, and
  leaves the store as the first one left it.
\<close>

theorem Handle_idempotent:
  assumes "stores env objs" and "ar_Object req = Inr pod" and "run_state (Handle env req) w = (Inr (PatchTo pod'), w')"
    and "ar_Object req' = Inr pod'"
  shows "\<exists>w''. w_srv w'' = w_srv w' \<and> run_state (Handle env req') w' =
    (Inr (if ar_Operation req' = ''UPDATE'' \<and> ps_Volumes (pod_Spec pod') \<noteq> [] then Allowed ''Pod already processed'' else PatchTo pod'), w'')"
proof -
  let ?rs = "extractSharedVolumeAnnotations pod"
  obtain pod1 w1 where run: "run_state (validateUniqueMountPaths env ?rs) w = (Inr (), w1)"
      "run_state (processSharedVolumes env pod ?rs) w1 = (Inr pod1, w')"
      "pod' = addSharedVolumeFinalizer pod1" "om_DeletionTimestamp (pod_Meta pod) = None" "?rs \<noteq> []"
    using assms(2,3) by (rule Handle_patch)
  obtain vs where vs: "resolve (objs (w_srv w)) ?rs = Some vs" "distinct (map (\<lambda>v. MountPath (vo_Spec v)) vs)" "w_srv w1 = w_srv w"
    using run_validate_store [OF assms(1), of ?rs w] run(1) by auto
  note store = processSharedVolumes_store [OF assms(1) run(2)]
  have vs': "resolve (objs (w_srv w')) ?rs = Some vs"
    using resolve_mono [OF vs(1)] store vs(3) by metis
  obtain w2 where w2: "run_state (validateUniqueMountPaths env ?rs) w' = (Inr (), w2)" "w_srv w2 = w_srv w'"
    using run_validate_store [OF assms(1), of ?rs w'] vs' vs(2) by auto
  obtain fs where fs: "pod' = set_pod_finalizers fs pod1" "SharedVolumePodFinalizer \<in> set fs"
    using addSharedVolumeFinalizer_cases run(3) by blast
  have meta: "pod_Meta pod1 = pod_Meta pod" and rs: "extractSharedVolumeAnnotations pod' = ?rs"
    using store by (simp_all add: fs(1) pod_extends_meta pod_extends_refs)
  have pod': "om_Namespace (pod_Meta pod') = om_Namespace (pod_Meta pod)" "om_DeletionTimestamp (pod_Meta pod') = None"
      "hasSharedVolumeFinalizer pod'"
    using fs run(4) by (simp_all add: set_pod_finalizers_def meta hasSharedVolumeFinalizer_def list_ex_iff)
  have "list_all (\<lambda>r. \<exists>v. provided (objs (w_srv w2)) (om_Namespace (pod_Meta pod')) r v \<and> mounted (ReferenceValue (vo_Spec v)) pod') ?rs"
    unfolding w2(2) pod'(1) using store by (simp add: fs(1))
  then obtain w3 where "w_srv w3 = w_srv w2" "run_state (processSharedVolumes env pod' ?rs) w2 = (Inr pod', w3)"
    using processSharedVolumes_again [OF assms(1)] by blast
  moreover have "addSharedVolumeFinalizer pod' = pod'"
    unfolding run(3) by (rule addSharedVolumeFinalizer_again)
  ultimately show ?thesis
    using w2 run(5) assms(4) pod'(2,3) by (simp add: Handle_def Let_def rs)
qed

section \<open>What the first admission creates\<close>

lemma run_Create_store:
  assumes "stores env objs" and "objs (w_srv w) (key_of obj) = None"
  shows "\<exists>w'. run_state (Create env obj) w = (Inr (), w') \<and> objs (w_srv w') = (objs (w_srv w))(key_of obj \<mapsto> obj)"
proof -
  have "fst (e_api env (CreateReq obj) (w_srv w)) = RObject obj"
      "objs (snd (e_api env (CreateReq obj) (w_srv w))) = (objs (w_srv w))(key_of obj \<mapsto> obj)"
    using assms unfolding stores_def by (metis (full_types))+
  then show ?thesis by (simp add: Create_def run_api_call as_done_def)
qed

lemma key_pod_objects [simp]:
  "key_of (OPersistentVolume (pod_volume_object n q server share)) = (KPersistentVolume, [], n)"
  "key_of (OPersistentVolumeClaim (pod_claim_object n ns pn q)) = (KPersistentVolumeClaim, ns, n)"
  by (simp_all add: key_of_def pod_volume_object_def pod_claim_object_def empty_meta_def)

text \<open>The volume and the claim of a namespace, where there is none yet.\<close>

lemma ensure_first:
  assumes "stores env objs" and "Storage spec = Some storage" and "e_ParseQuantity env (st_Capacity storage) = Inr q"
  shows "objs (w_srv w) (KPersistentVolume, [], pv_pvc_name ref ns) = None \<Longrightarrow> NfsServer spec = Some nfs
      \<Longrightarrow> \<exists>w'. run_state (ensurePersistentVolumeGeneric env spec ref ns vn vns) w = (Inr (), w')
        \<and> objs (w_srv w') = (objs (w_srv w))((KPersistentVolume, [], pv_pvc_name ref ns)
            \<mapsto> OPersistentVolume (pod_volume_object (pv_pvc_name ref ns) q (nfs_URL nfs) (nfs_Path nfs @ ''/'' @ vn @ ''-'' @ vns)))"
    and "objs (w_srv w) (KPersistentVolumeClaim, ns, pv_pvc_name ref ns) = None
      \<Longrightarrow> \<exists>w'. run_state (ensurePersistentVolumeClaimGeneric env spec ref ns) w = (Inr (), w')
        \<and> objs (w_srv w') = (objs (w_srv w))((KPersistentVolumeClaim, ns, pv_pvc_name ref ns)
            \<mapsto> OPersistentVolumeClaim (pod_claim_object (pv_pvc_name ref ns) ns (pv_pvc_name ref ns) q))"
proof -
  let ?n = "pv_pvc_name ref ns"
  let ?seen = "\<lambda>k ns. w\<lparr>w_hist := w_hist w @ [EApi (GetReq k ns ?n) (RError (NotFound ?n))]\<rparr>"
  assume none: "objs (w_srv w) (KPersistentVolume, [], ?n) = None" and nfs: "NfsServer spec = Some nfs"
  let ?pv = "OPersistentVolume (pod_volume_object ?n q (nfs_URL nfs) (nfs_Path nfs @ ''/'' @ vn @ ''-'' @ vns))"
  obtain w' where "run_state (Create env ?pv) (?seen KPersistentVolume []) = (Inr (), w')"
      "objs (w_srv w') = (objs (w_srv w))(key_of ?pv \<mapsto> ?pv)"
    using run_Create_store [OF assms(1), of "?seen KPersistentVolume []" ?pv] none by auto
  with none nfs assms(2,3) show "\<exists>w'. run_state (ensurePersistentVolumeGeneric env spec ref ns vn vns) w = (Inr (), w')
        \<and> objs (w_srv w') = (objs (w_srv w))((KPersistentVolume, [], ?n) \<mapsto> ?pv)"
    unfolding ensurePersistentVolumeGeneric_def MustParse_def wrap_err_def Let_def
    by (auto simp: run_Get_store [OF assms(1)] as_object_def)
next
  let ?n = "pv_pvc_name ref ns"
  let ?seen = "w\<lparr>w_hist := w_hist w @ [EApi (GetReq KPersistentVolumeClaim ns ?n) (RError (NotFound ?n))]\<rparr>"
  assume none: "objs (w_srv w) (KPersistentVolumeClaim, ns, ?n) = None"
  let ?pvc = "OPersistentVolumeClaim (pod_claim_object ?n ns ?n q)"
  obtain w' where "run_state (Create env ?pvc) ?seen = (Inr (), w')" "objs (w_srv w') = (objs (w_srv w))(key_of ?pvc \<mapsto> ?pvc)"
    using run_Create_store [OF assms(1), of ?seen ?pvc] none by auto
  with none assms(2,3) show "\<exists>w'. run_state (ensurePersistentVolumeClaimGeneric env spec ref ns) w = (Inr (), w')
        \<and> objs (w_srv w') = (objs (w_srv w))((KPersistentVolumeClaim, ns, ?n) \<mapsto> ?pvc)"
    unfolding ensurePersistentVolumeClaimGeneric_def MustParse_def wrap_err_def Let_def
    by (auto simp: run_Get_store [OF assms(1)] as_object_def)
qed

lemma processSharedVolume_creates:
  assumes "stores env objs" and "the_ref (objs (w_srv w)) r = Some v"
    and "Storage (vo_Spec v) = Some storage" and "NfsServer (vo_Spec v) = Some nfs"
    and "e_ParseQuantity env (st_Capacity storage) = Inr q"
    and "n = pv_pvc_name (ReferenceValue (vo_Spec v)) (om_Namespace (pod_Meta pod))"
    and "objs (w_srv w) (KPersistentVolume, [], n) = None"
    and "objs (w_srv w) (KPersistentVolumeClaim, om_Namespace (pod_Meta pod), n) = None"
  shows "\<exists>pod' w'. run_state (processSharedVolume env pod r) w = (Inr pod', w')
    \<and> objs (w_srv w') = (objs (w_srv w))
       ((KPersistentVolume, [], n) \<mapsto> OPersistentVolume (pod_volume_object n q (nfs_URL nfs)
           (nfs_Path nfs @ ''/'' @ svr_Name r @ ''-''
             @ (if svr_IsCluster r then ClusterSharedVolumeOperationNamespace else om_Namespace (pod_Meta pod)))),
        (KPersistentVolumeClaim, om_Namespace (pod_Meta pod), n)
         \<mapsto> OPersistentVolumeClaim (pod_claim_object n (om_Namespace (pod_Meta pod)) n q))"
proof -
  let ?ns = "om_Namespace (pod_Meta pod)" and ?ref = "ReferenceValue (vo_Spec v)"
  let ?vns = "if svr_IsCluster r then ClusterSharedVolumeOperationNamespace else ?ns"
  obtain w1 where w1: "run_state (volume_of_ref env r []) w = (Inr v, w1)" "w_srv w1 = w_srv w"
    using run_volume_of_ref_store [OF assms(1), of r "[]" w] assms(2) by auto
  obtain w2 where w2: "run_state (ensurePersistentVolumeGeneric env (vo_Spec v) ?ref ?ns (svr_Name r) ?vns) w1 = (Inr (), w2)"
      "objs (w_srv w2) = (objs (w_srv w))((KPersistentVolume, [], n) \<mapsto> OPersistentVolume (pod_volume_object n q (nfs_URL nfs)
           (nfs_Path nfs @ ''/'' @ svr_Name r @ ''-'' @ ?vns)))"
    using ensure_first(1) [OF assms(1,3,5), of w1 ?ref ?ns nfs "svr_Name r" ?vns] assms(4,6,7) w1(2) by auto
  then obtain w3 where "run_state (ensurePersistentVolumeClaimGeneric env (vo_Spec v) ?ref ?ns) w2 = (Inr (), w3)"
      "objs (w_srv w3) = (objs (w_srv w2))((KPersistentVolumeClaim, ?ns, n) \<mapsto> OPersistentVolumeClaim (pod_claim_object n ?ns n q))"
    using ensure_first(2) [OF assms(1,3,5), of w2 ?ns ?ref] assms(6,8) by auto
  with w1(1) w2 show ?thesis
    by (simp add: processSharedVolume_def Let_def wrap_err_def)
qed

text \<open>The share and the server of a CSI volume, and the command that makes its folder.\<close>

definition csi_attribute :: "string \<Rightarrow> PersistentVolume \<Rightarrow> string option" where
  "csi_attribute name pv = (case pv_CSI pv of None \<Rightarrow> None | Some csi \<Rightarrow> map_of (csi_VolumeAttributes csi) name)"

definition setup_command :: "ReplicaSet \<Rightarrow> string list" where
  "setup_command rs = ct_Command (hd (ps_InitContainers (rs_TemplateSpec rs)))"

definition volume_folder :: "VolumeObject \<Rightarrow> string" where
  "volume_folder v = GetName v @ ''-'' @ operational_namespace v"

lemma csi_attributes [simp]:
  "csi_attribute ''share'' (pod_volume_object n q server share) = Some share"
  "csi_attribute ''server'' (pod_volume_object n q server share) = Some server"
  by (simp_all add: csi_attribute_def pod_volume_object_def)

lemma the_ref_meta:
  assumes "stores env objs" and "the_ref (objs s) r = Some v"
  shows "vo_type v = (if svr_IsCluster r then ClusterSharedVolume else SharedVolume) \<and> GetName v = svr_Name r
    \<and> (\<not> svr_IsCluster r \<longrightarrow> GetNamespace v = svr_Namespace r)"
proof -
  have "key_of (OVolume v) = ref_key r"
    using assms unfolding stores_def the_ref_Some by blast
  then show ?thesis
    by (auto simp: key_of_def ref_key_def split: if_splits)
qed

text \<open>Where the sync that the reconcilers start for a volume posts to.\<close>

lemma timer_quiet:
  "emits P (stopSyncTimer key)" "emits P (reschedule key cl)"
  by (simp_all add: keeps_def grows_def run_stopSyncTimer reschedule_def time_AfterFunc_def set_timer_def)

lemma scheduled_target:
  "emits (post_target (\<lambda>p. p = target_path name ns)) (run_closure env (RunScheduledSyncCommon name ns spec interval))"
  unfolding run_closure.simps scheduledSyncCommon_def finishScheduledSync_def volume_still_exists_def sync_if_source_def
  by (intro keeps_intro timer_quiet triggerSyncCommon_target; simp)

definition starts_only :: "(sync_closure \<Rightarrow> bool) \<Rightarrow> 'w world \<Rightarrow> 'w world \<Rightarrow> bool" where
  "starts_only P w w' \<longleftrightarrow> (\<forall>(i, cl) \<in> set (w_pending w'). (i, cl) \<in> set (w_pending w) \<or> P cl)"

interpretation starts_only: step_preorder "starts_only P" for P
  by unfold_locales (auto simp: starts_only_def)

lemma starts_only_stop: "keeps (starts_only P) (stopSyncTimer key)"
  by (auto simp: keeps_def starts_only_def run_stopSyncTimer drop_timer_def split: option.splits)

lemma starts_only_start:
  "P (RunScheduledSyncCommon name ns spec interval) \<Longrightarrow> keeps (starts_only P) (startSyncCommon name ns spec interval)"
  unfolding startSyncCommon_def Let_def
  by (intro keeps_intro starts_only_stop) (auto simp: keeps_def starts_only_def time_AfterFunc_def set_timer_def)

lemma started_closure:
  "keeps (starts_only (\<lambda>cl. \<exists>interval. cl = RunScheduledSyncCommon (GetName u) (key_namespace u) (vo_Spec u) interval)) (StartSync b u)"
  by (cases "vo_type u")
     (auto simp: StartSync_def StartSyncForSharedVolume_def StartSyncForClusterSharedVolume_def StopSyncForSharedVolume_def
        StopSyncForClusterSharedVolume_def key_namespace_def intro!: keeps_intro starts_only_stop starts_only_start)

lemma started_closureD:
  assumes "run_state (StartSync b u) w = (r, w')" and "(i, cl) \<in> set (w_pending w') - set (w_pending w)"
  shows "\<exists>interval. cl = RunScheduledSyncCommon (GetName u) (key_namespace u) (vo_Spec u) interval"
  using keepsD [OF started_closure assms(1)] assms(2) unfolding starts_only_def by blast

lemma post_target_mono: "post_target P e \<Longrightarrow> (\<And>path. P path \<Longrightarrow> Q path) \<Longrightarrow> post_target Q e"
  by (cases e) auto

text \<open>
  C23. The first admission of a pod for a volume makes a persistent volume whose share is, below the
  path of the server, the very folder the ReplicaSet of the volume makes before the syncer starts.
  Every sync that \<open>StartSync\<close> starts for a state \<open>u\<close> of the volume posts that folder as its target
  if the volume is a \<open>SharedVolume\<close> or the resource namespace of \<open>u\<close> is the controller's, and never
  otherwise. Reconciliations start it for the filled-in specification, whose resource namespace is
  the operational one unless the volume has one.
\<close>

theorem pods_mount_synced_folder:
  fixes env :: "'w env"
  assumes "stores env objs" and "the_ref (objs (w_srv w)) r = Some v"
    and "Storage (vo_Spec v) = Some storage" and "NfsServer (vo_Spec v) = Some nfs"
    and "e_ParseQuantity env (st_Capacity storage) = Inr q"
    and "n = pv_pvc_name (ReferenceValue (vo_Spec v)) (om_Namespace (pod_Meta pod))"
    and "objs (w_srv w) (KPersistentVolume, [], n) = None"
    and "objs (w_srv w) (KPersistentVolumeClaim, om_Namespace (pod_Meta pod), n) = None"
    and "\<not> svr_IsCluster r \<longrightarrow> svr_Namespace r = om_Namespace (pod_Meta pod)"
  shows "(\<exists>pod' w' pv made. run_state (processSharedVolume env pod r) w = (Inr pod', w')
    \<and> objs (w_srv w') (KPersistentVolume, [], n) = Some (OPersistentVolume pv)
    \<and> csi_attribute ''share'' pv = Some (nfs_Path nfs @ ''/'' @ volume_folder v)
    \<and> setup_command (replica_set_object env v (operational_namespace v)) ! 2 = ''mkdir -p /nfs/'' @ volume_folder v @ '' && '' @ made)
    \<and> (\<forall>u b res i cl (w1 :: 'w world) w2. vo_type u = vo_type v \<and> GetName u = GetName v \<and> GetNamespace u = GetNamespace v
         \<and> run_state (StartSync b u) w1 = (res, w2) \<and> (i, cl) \<in> set (w_pending w2) - set (w_pending w1) \<longrightarrow>
         emits (post_target (\<lambda>path. path = ''/nfs/'' @ volume_folder v
             \<longleftrightarrow> vo_type v = SharedVolume \<or> ResourceNamespace (vo_Spec u) = ''shared-volume-controller'')) (run_closure env cl))
    \<and> ResourceNamespace (vo_Spec (fst (FillAndValidateSpec v g (operational_namespace v))))
        = (if ResourceNamespace (vo_Spec v) = [] then operational_namespace v else ResourceNamespace (vo_Spec v))"
proof (intro conjI allI impI)
  note v = the_ref_meta [OF assms(1,2)]
  have folder: "svr_Name r @ ''-'' @ (if svr_IsCluster r then ClusterSharedVolumeOperationNamespace else om_Namespace (pod_Meta pod))
      = volume_folder v"
    using v assms(9) by (auto simp: volume_folder_def operational_namespace_def ClusterSharedVolumeOperationNamespace_def)
  obtain pod' w' where run: "run_state (processSharedVolume env pod r) w = (Inr pod', w')"
      "objs (w_srv w') (KPersistentVolume, [], n) = Some (OPersistentVolume (pod_volume_object n q (nfs_URL nfs) (nfs_Path nfs @ ''/'' @ volume_folder v)))"
    using processSharedVolume_creates [OF assms(1-8)] unfolding folder by auto
  moreover have "\<exists>made. setup_command (replica_set_object env v (operational_namespace v)) ! 2 = ''mkdir -p /nfs/'' @ volume_folder v @ '' && '' @ made"
    by (simp add: setup_command_def replica_set_object_def Let_def volume_folder_def)
  ultimately show "\<exists>pod' w' pv made. run_state (processSharedVolume env pod r) w = (Inr pod', w')
    \<and> objs (w_srv w') (KPersistentVolume, [], n) = Some (OPersistentVolume pv)
    \<and> csi_attribute ''share'' pv = Some (nfs_Path nfs @ ''/'' @ volume_folder v)
    \<and> setup_command (replica_set_object env v (operational_namespace v)) ! 2 = ''mkdir -p /nfs/'' @ volume_folder v @ '' && '' @ made"
    using csi_attributes(1) by blast
next
  fix u b res i cl and w1 w2 :: "'w world"
  assume u: "vo_type u = vo_type v \<and> GetName u = GetName v \<and> GetNamespace u = GetNamespace v
      \<and> run_state (StartSync b u) w1 = (res, w2) \<and> (i, cl) \<in> set (w_pending w2) - set (w_pending w1)"
  then obtain interval where cl: "cl = RunScheduledSyncCommon (GetName u) (key_namespace u) (vo_Spec u) interval"
    using started_closureD by blast
  have target: "target_path (GetName u) (key_namespace u) = ''/nfs/'' @ volume_folder v
      \<longleftrightarrow> vo_type v = SharedVolume \<or> ResourceNamespace (vo_Spec u) = ''shared-volume-controller''"
    using u by (cases "vo_type v") (simp_all add: target_path_def volume_folder_def key_namespace_def operational_namespace_def)
  show "emits (post_target (\<lambda>path. path = ''/nfs/'' @ volume_folder v
      \<longleftrightarrow> vo_type v = SharedVolume \<or> ResourceNamespace (vo_Spec u) = ''shared-volume-controller'')) (run_closure env cl)"
    unfolding cl using target by (intro emits_weaken [OF scheduled_target]) (erule post_target_mono, simp)
qed (rule FillAndValidateSpec_keeps)

text \<open>
  The persistent volume made for pods has the URL of the specification as its server, even when
  the volume uses a managed server that is only named there: then the pods get an empty address
  although the controller knows the real one.
\<close>

theorem named_server_address_lost:
  assumes "stores env objs" and "the_ref (objs (w_srv w)) r = Some v"
    and "Storage (vo_Spec v) = Some storage" and "NfsServer (vo_Spec v) = Some nfs"
    and "e_ParseQuantity env (st_Capacity storage) = Inr q"
    and "n = pv_pvc_name (ReferenceValue (vo_Spec v)) (om_Namespace (pod_Meta pod))"
    and "objs (w_srv w) (KPersistentVolume, [], n) = None"
    and "objs (w_srv w) (KPersistentVolumeClaim, om_Namespace (pod_Meta pod), n) = None"
    and "nfs_URL nfs = []" and "GetManagedNfsServerAddress v nfs \<noteq> []"
  shows "\<exists>pod' w' pv. run_state (processSharedVolume env pod r) w = (Inr pod', w')
    \<and> objs (w_srv w') (KPersistentVolume, [], n) = Some (OPersistentVolume pv)
    \<and> csi_attribute ''server'' pv \<noteq> Some (GetManagedNfsServerAddress v nfs) \<and> \<not> IsExternalNfsServer (Some nfs)"
proof -
  have "\<not> IsExternalNfsServer (Some nfs)"
    using assms(9) by (simp add: IsExternalNfsServer_def)
  with assms(10) processSharedVolume_creates [OF assms(1-8)] assms(9) csi_attributes(2) show ?thesis
    by fastforce
qed

section \<open>A capacity that does not parse\<close>

text \<open>The capacity plays no part in the validation of a new volume.\<close>

definition with_capacity :: "string \<Rightarrow> VolumeObject \<Rightarrow> VolumeObject" where
  "with_capacity c v = set_spec ((vo_Spec v)\<lparr>Storage := map_option (\<lambda>st. st\<lparr>st_Capacity := c\<rparr>) (Storage (vo_Spec v))\<rparr>) v"

lemma ValidateCreate_capacity:
  assumes "ValidateCreate t (OVolume v) = Inr u"
  shows "ValidateCreate t (OVolume (with_capacity c v)) = Inr u"
proof -
  have "spec_ok t (vo_Spec (with_capacity c v)) = spec_ok t (vo_Spec v)"
    by (simp add: with_capacity_def spec_ok_def sync_ok_def)
  with assms show ?thesis
    by (simp add: ValidateCreate_cases with_capacity_def split: if_splits)
qed

text \<open>
  A capacity that is no quantity gets past the admission of the volume, whatever is valid with
  another capacity being valid with it, and makes the pod webhook panic on the first pod that names
  the volume.
\<close>

theorem bad_capacity_panics:
  assumes "stores env objs" and "ValidateCreate t (OVolume v0) = Inr u" and "v = with_capacity c v0"
    and "e_ParseQuantity env c = Inl e" and "Storage (vo_Spec v) = Some storage" and "NfsServer (vo_Spec v) = Some nfs"
    and "extractSharedVolumeAnnotations pod = [r]" and "the_ref (objs (w_srv w)) r = Some v"
    and "objs (w_srv w) (KPersistentVolume, [], pv_pvc_name (ReferenceValue (vo_Spec v)) (om_Namespace (pod_Meta pod))) = None"
    and "ar_Object req = Inr pod" and "om_DeletionTimestamp (pod_Meta pod) = None" and "ar_Operation req = ''CREATE''"
  shows "ValidateCreate t (OVolume v) = Inr u \<and> (\<exists>m w'. run_state (Handle env req) w = (Inl (Panic m), w') \<and> w_srv w' = w_srv w)"
proof
  show "ValidateCreate t (OVolume v) = Inr u"
    unfolding assms(3) by (rule ValidateCreate_capacity [OF assms(2)])
  have capacity: "st_Capacity storage = c"
    using assms(5) by (auto simp: assms(3) with_capacity_def)
  obtain w1 where w1: "run_state (validateUniqueMountPaths env [r]) w = (Inr (), w1)" "w_srv w1 = w_srv w"
    using run_validate_store [OF assms(1), of "[r]" w] assms(8) by auto
  obtain w2 where w2: "run_state (volume_of_ref env r []) w1 = (Inr v, w2)" "w_srv w2 = w_srv w"
    using run_volume_of_ref_store [OF assms(1), of r "[]" w1] w1(2) assms(8) by auto
  have "\<exists>w3. run_state (processSharedVolume env pod r) w1 = (Inl (Panic (''cannot parse quantity '' @ c)), w3) \<and> w_srv w3 = w_srv w"
    using w2 assms(4-6,9) capacity
    by (auto simp: processSharedVolume_def Let_def wrap_err_def ensurePersistentVolumeGeneric_def MustParse_def
        run_Get_store [OF assms(1)] as_object_def Errorf_w_def)
  with w1(1) assms(7,10-12) show "\<exists>m w'. run_state (Handle env req) w = (Inl (Panic m), w') \<and> w_srv w' = w_srv w"
    by (auto simp: Handle_def Let_def errored_def)
qed

section \<open>The variants without a caller\<close>

text \<open>
  The older functions for a \<open>SharedVolume\<close> agree with the ones in use when the pointers they
  dereference are set: on the claim and on the pod always, on the persistent volume exactly as far
  as the address in the status is the URL of the specification.
\<close>

theorem webhook_variants_agree:
  assumes "Storage (vo_Spec sv) = Some storage"
  shows "addVolumeToPod pod sv ns = Inr (addVolumeToPodGeneric pod (vo_Spec sv) (ReferenceValue (vo_Spec sv)) ns)
    \<and> ensurePersistentVolumeClaim env sv ns = ensurePersistentVolumeClaimGeneric env (vo_Spec sv) (ReferenceValue (vo_Spec sv)) ns
    \<and> (\<forall>nfs. NfsServer (vo_Spec sv) = Some nfs \<longrightarrow> GetNfsServerAddress sv = nfs_URL nfs \<longrightarrow>
          ensurePersistentVolume env sv ns
            = ensurePersistentVolumeGeneric env (vo_Spec sv) (ReferenceValue (vo_Spec sv)) ns (GetName sv) (GetNamespace sv))"
  using assms
  by (auto simp: addVolumeToPod_def addVolumeToPodGeneric_def Let_def ensurePersistentVolumeClaim_def
      ensurePersistentVolumeClaimGeneric_def ensurePersistentVolume_def ensurePersistentVolumeGeneric_def cong: if_cong sum.case_cong)

section \<open>Claims are released only when nobody uses them\<close>

lemma reads_not_write: "reads_only e \<Longrightarrow> \<not> is_write_event e"
  by (cases e) auto

text \<open>
  The shape of every release of a volume's claims: a check that only reads, and a release that
  runs when the check has found no user. \<open>unused\<close> are the calls that show there is none.
\<close>

locale release_if_unused =
  fixes check :: "('w, error + bool) prog"
    and release :: "('w, error + unit) prog"
    and unused :: "event \<Rightarrow> bool"
  assumes check_reads: "emits reads_only check"
    and check_shows: "run_state check w = (Inr False, w') \<Longrightarrow> \<exists>es. w_hist w' = w_hist w @ es \<and> (\<exists>e \<in> set es. unused e)"
    and release_grows: "emits (\<lambda>_. True) release"
begin

lemma release_guarded: "guarded unused is_write_event (bindE check (\<lambda>used. if used then ret (Inr ()) else release))"
proof (rule guarded_bindE [OF emits_weaken [OF check_reads reads_not_write]])
  fix w used w' assume run: "run_state check w = (Inr used, w')"
  show "(\<exists>es. w_hist w' = w_hist w @ es \<and> (\<exists>a \<in> set es. unused a)) \<and> emits (\<lambda>_. True) (if used then ret (Inr ()) else release)
      \<or> guarded unused is_write_event (if used then ret (Inr ()) else release)"
    using run check_shows release_grows by (cases used) (auto intro: guarded_none grows.keeps_ret)
qed

end

text \<open>An answered list of the pods selected by \<open>sel\<close> none of which satisfies \<open>uses\<close>.\<close>

fun shows_unused :: "selector \<Rightarrow> (Pod \<Rightarrow> bool) \<Rightarrow> event \<Rightarrow> bool" where
  "shows_unused sel uses (EApi (ListReq k s) (RObjects objs)) =
     (k = KPod \<and> s = sel \<and> list_all (\<lambda>obj. case obj of OPod p \<Rightarrow> \<not> uses p | _ \<Rightarrow> True) objs)"
| "shows_unused sel uses _ = False"

lemma those_pods: "those (map the_pod objs) = Some pods \<Longrightarrow> objs = map OPod pods"
  by (induction objs arbitrary: pods) (auto simp: decoded split: option.splits)

lemma ListPods_unused:
  assumes "run_state (ListPods env sel) w = (Inr pods, w')" and "\<not> list_ex uses pods"
  shows "\<exists>es. w_hist w' = w_hist w @ es \<and> (\<exists>e \<in> set es. shows_unused sel uses e)"
proof -
  obtain objs where objs: "fst (e_api env (ListReq KPod sel) (w_srv w)) = RObjects objs" "those (map the_pod objs) = Some pods"
      "w_hist w' = w_hist w @ [EApi (ListReq KPod sel) (RObjects objs)]"
    using assms(1) unfolding List_as_def as_list_def
    by (auto simp: run_api_call split: response.splits option.splits)
  have "shows_unused sel uses (EApi (ListReq KPod sel) (RObjects objs))"
    using assms(2) by (auto simp: those_pods [OF objs(2)] list_all_iff list_ex_iff)
  with objs(3) show ?thesis by auto
qed

lemma run_wrap_err_list:
  "run_state (wrap_err m p) w = (Inr x, w') \<Longrightarrow> run_state p w = (Inr x, w')"
  by (simp add: wrap_err_Inr)

lemma deletes_grow: "emits (\<lambda>_. True) (deletePVC env n ns)" "emits (\<lambda>_. True) (deletePV env n)"
  unfolding deletePVC_def deletePV_def delete_ignoring_absence_def by (intro keeps_intro; simp)+

interpretation webhook_release: release_if_unused
  "wrap_err ''failed to check if volume is still in use'' (isVolumeStillInUseByOtherPods env svRef pod)"
  "bindE (wrap_err ''failed to delete PVC'' (deletePVC env n ns)) (\<lambda>_. wrap_err ''failed to delete PV'' (deletePV env n))"
  "shows_unused AllNamespaces (uses_volume svRef pod)" for env svRef pod n ns
proof
  show "emits reads_only (wrap_err ''failed to check if volume is still in use'' (isVolumeStillInUseByOtherPods env svRef pod))"
    unfolding wrap_err_def isVolumeStillInUseByOtherPods_def by (intro keeps_intro) simp_all
  show "emits (\<lambda>_. True) (bindE (wrap_err ''failed to delete PVC'' (deletePVC env n ns)) (\<lambda>_. wrap_err ''failed to delete PV'' (deletePV env n)))"
    unfolding wrap_err_def by (intro keeps_intro deletes_grow)
next
  fix w w' :: "'a world"
  assume "run_state (wrap_err ''failed to check if volume is still in use'' (isVolumeStillInUseByOtherPods env svRef pod)) w = (Inr False, w')"
  then obtain pods where "run_state (ListPods env AllNamespaces) w = (Inr pods, w')" "\<not> list_ex (uses_volume svRef pod) pods"
    by (auto simp: wrap_err_Inr isVolumeStillInUseByOtherPods_def split: prod.splits sum.splits)
  then show "\<exists>es. w_hist w' = w_hist w @ es \<and> (\<exists>e \<in> set es. shows_unused AllNamespaces (uses_volume svRef pod) e)"
    by (rule ListPods_unused)
qed

text \<open>The objects made for a pod's namespace, and the pod after them.\<close>

definition pod_objects :: "string \<Rightarrow> key \<Rightarrow> bool" where
  "pod_objects ns k \<longleftrightarrow> (\<exists>ref. k = (KPersistentVolumeClaim, ns, pv_pvc_name ref ns) \<or> k = (KPersistentVolume, [], pv_pvc_name ref ns))"

definition release_rank :: "key \<Rightarrow> nat" where
  "release_rank k = (if fst k = KPod then 1 else 0)"

lemma cleanup_webhook_writes:
  "emits (writes_in (pod_objects (om_Namespace (pod_Meta pod)))) (cleanupSharedVolumeIfUnused env svRef pod)"
  unfolding cleanupSharedVolumeIfUnused_def isVolumeStillInUseByOtherPods_def deletePVC_def deletePV_def
    delete_ignoring_absence_def volume_of_ref_def wrap_err_def
  by (intro keeps_intro) (auto simp: pod_objects_def claim_stub_def volume_stub_def empty_meta_def)

lemma pod_objects_rank: "writes_in (pod_objects ns) e \<Longrightarrow> writes_in (\<lambda>k. release_rank k = 0) e"
  by (erule writes_in_mono) (auto simp: pod_objects_def release_rank_def)

text \<open>
  C11. When a pod goes, the webhook deletes a claim and a persistent volume only after the server has
  answered with a list of all pods in which no other live pod names the volume, and only the pair
  made for the pod's own namespace; over the whole handling the pod, which it releases by taking the
  finalizer off, is written last.
\<close>

theorem webhook_releases_unused:
  "preceded (shows_unused AllNamespaces (uses_volume svRef pod)) is_write_event (emitted (cleanupSharedVolumeIfUnused env svRef pod) w)
   \<and> list_all (writes_in (pod_objects (om_Namespace (pod_Meta pod)))) (emitted (cleanupSharedVolumeIfUnused env svRef pod) w)
   \<and> sorted (write_ranks release_rank (emitted (handlePodDeletion env pod) w))"
proof (intro conjI)
  show "preceded (shows_unused AllNamespaces (uses_volume svRef pod)) is_write_event (emitted (cleanupSharedVolumeIfUnused env svRef pod) w)"
    unfolding cleanupSharedVolumeIfUnused_def Let_def
  proof (rule guarded_emitted, rule guarded_bindE)
    show "emits (\<lambda>e. \<not> is_write_event e) (volume_of_ref env svRef '' for cleanup'')"
      by (rule emits_weaken [OF volume_of_ref_reads reads_not_write])
  qed (intro disjI2 webhook_release.release_guarded)
  show "list_all (writes_in (pod_objects (om_Namespace (pod_Meta pod)))) (emitted (cleanupSharedVolumeIfUnused env svRef pod) w)"
    by (rule emits_emitted [OF cleanup_webhook_writes])
  have "ranked release_rank 1 1 (removePodFinalizer env pod)"
    unfolding removePodFinalizer_def wrap_err_def
    by (rule ranked_level) (intro keeps_intro, simp add: key_of_def release_rank_def)
  moreover have "ranked release_rank 0 0 (for_err rs (\<lambda>svRef. cleanupSharedVolumeIfUnused env svRef pod))" for rs
    by (rule ranked_level) (intro keeps_intro emits_weaken [OF cleanup_webhook_writes pod_objects_rank])
  ultimately have "ranked release_rank 0 1 (handlePodDeletion env pod)"
    unfolding handlePodDeletion_def Let_def
    by (auto intro: ranked_bindE ranked_weaken)
  then show "sorted (write_ranks release_rank (emitted (handlePodDeletion env pod) w))"
    by (rule ranked_emitted)
qed

section \<open>The theorems on a stored volume\<close>

definition pod_naming :: "string \<Rightarrow> Pod" where
  "pod_naming names = \<lparr>pod_Meta = empty_meta\<lparr>om_Name := ''app'', om_Namespace := ''team'',
       om_Annotations := [(''sharedvolume.sv'', names)]\<rparr>,
     pod_Spec = \<lparr>ps_InitContainers = [], ps_Containers = [\<lparr>ct_Name = ''main'', ct_Image = ''img'', ct_Command = [],
         ct_Ports = [], ct_VolumeMounts = []\<rparr>], ps_Volumes = []\<rparr>\<rparr>"

definition create_request :: "Pod \<Rightarrow> AdmissionRequest" where
  "create_request pod = \<lparr>ar_Operation = ''CREATE'', ar_Object = Inr pod\<rparr>"

text \<open>Names of printable ASCII characters are not trimmed.\<close>

definition printable :: "char \<Rightarrow> bool" where
  "printable c \<longleftrightarrow> 32 < (of_char c :: nat) \<and> (of_char c :: nat) < 128"

lemma strip_seq_None: "\<forall>p \<in> set ps. p \<noteq> [] \<longrightarrow> s = [] \<or> hd p \<noteq> hd s \<Longrightarrow> strip_seq ps s = None"
  by (induction ps) (auto simp: strings_HasPrefix_iff)

lemma space_bytes: "p \<in> set space_seqs \<Longrightarrow> \<not> printable (hd p) \<and> \<not> printable (last p)"
  unfolding space_seqs_def printable_def byte_def by auto

lemma TrimSpace_printable: "list_all printable s \<Longrightarrow> strings_TrimSpace s = s"
proof -
  assume s: "list_all printable s"
  have left: "trim_left ps t = t" if "list_all printable t" "\<And>p. p \<in> set ps \<Longrightarrow> p \<noteq> [] \<Longrightarrow> \<not> printable (hd p)" for ps t
  proof -
    have "strip_seq ps t = None"
      using that by (intro strip_seq_None) (cases t; fastforce)
    then show ?thesis by (simp add: trim_left.simps)
  qed
  have "\<not> printable (hd p)" if "p \<in> set (map rev space_seqs)" "p \<noteq> []" for p
    using that space_bytes by (auto simp: hd_rev)
  with left [of "rev s" "map rev space_seqs"] left [of s space_seqs] s space_bytes show ?thesis
    by (simp add: strings_TrimSpace_def list_all_rev)
qed

lemma sample_refs:
  "extractSharedVolumeAnnotations (pod_naming ''vol'') = [\<lparr>svr_Namespace = ''team'', svr_Name = ''vol'', svr_IsCluster = False\<rparr>]"
  "extractSharedVolumeAnnotations (pod_naming ''vol,vol'') = [\<lparr>svr_Namespace = ''team'', svr_Name = ''vol'', svr_IsCluster = False\<rparr>,
     \<lparr>svr_Namespace = ''team'', svr_Name = ''vol'', svr_IsCluster = False\<rparr>]"
  by (simp_all add: extractSharedVolumeAnnotations_def pod_naming_def empty_meta_def annotation_names_def
      SharedVolumeAnnotationKey_def ClusterSharedVolumeAnnotationKey_def TrimSpace_printable printable_def)

abbreviation one_volume :: "store world" where
  "one_volume \<equiv> world_of [OVolume sample_volume]"

lemma one_volume_facts:
  "the_ref (store_objs [OVolume sample_volume]) \<lparr>svr_Namespace = ''team'', svr_Name = ''vol'', svr_IsCluster = False\<rparr> = Some sample_volume"
  "k \<noteq> KVolume SharedVolume \<Longrightarrow> store_objs [OVolume sample_volume] (k, ns, n) = None"
  "Storage (vo_Spec sample_volume) = Some sample_storage" "NfsServer (vo_Spec sample_volume) = Some sample_nfs"
  "om_DeletionTimestamp (pod_Meta (pod_naming names)) = None" "om_Namespace (pod_Meta (pod_naming names)) = ''team''"
  "e_ParseQuantity store_env s = Inr (Quantity s)" "ReferenceValue (vo_Spec sample_volume) = ''sv-a1''"
  by (auto simp: the_ref_def ref_key_def store_objs_def has_key_def sample_volume_simps pod_naming_def store_env_def)

lemma sample_admission:
  "\<exists>pod' w'. run_state (Handle store_env (create_request (pod_naming ''vol''))) one_volume = (Inr (PatchTo pod'), w')"
proof -
  let ?r = "\<lparr>svr_Namespace = ''team'', svr_Name = ''vol'', svr_IsCluster = False\<rparr>"
  have srv: "w_srv one_volume = [OVolume sample_volume]"
    by (simp add: world_of_def)
  obtain w1 where w1: "run_state (validateUniqueMountPaths store_env [?r]) one_volume = (Inr (), w1)" "w_srv w1 = [OVolume sample_volume]"
    using run_validate_store [OF store_objs_stores, of "[?r]" one_volume] by (auto simp: srv one_volume_facts)
  obtain pod' w' where "run_state (processSharedVolume store_env (pod_naming ''vol'') ?r) w1 = (Inr pod', w')"
    using processSharedVolume_creates [OF store_objs_stores _ _ _ _ HOL.refl, of w1 ?r sample_volume sample_storage sample_nfs _ "pod_naming ''vol''"]
    by (auto simp: w1(2) one_volume_facts)
  with w1(1) show ?thesis
    by (simp add: Handle_def create_request_def Let_def sample_refs one_volume_facts)
qed


theorem Handle_denies_witness:
  "\<exists>msg w'. run_state (Handle store_env (create_request (pod_naming ''vol,vol''))) one_volume = (Inr (Denied msg), w')"
  using Handle_denies [OF store_objs_stores _ one_volume_facts(5), of "create_request (pod_naming ''vol,vol'')" "''vol,vol''" one_volume]
  by (auto simp: create_request_def sample_refs one_volume_facts world_of_def)

theorem Handle_idempotent_witness:
  "\<exists>pod' w' w''. run_state (Handle store_env (create_request (pod_naming ''vol''))) one_volume = (Inr (PatchTo pod'), w')
     \<and> run_state (Handle store_env (create_request pod')) w' = (Inr (PatchTo pod'), w'')"
proof -
  obtain pod' w' where run: "run_state (Handle store_env (create_request (pod_naming ''vol''))) one_volume = (Inr (PatchTo pod'), w')"
    using sample_admission by blast
  from Handle_idempotent [OF store_objs_stores _ this, of _ "create_request pod'"] run
  show ?thesis by (auto simp: create_request_def)
qed

lemma sample_start:
  "run_state (StartSync \<lparr>ControllerNamespace = [], has_SyncController = True\<rparr> ready_volume) (world_of ([] :: store))
     = (Inr (), (world_of [])\<lparr>w_syncTimers := Map.empty(''team/vol'' \<mapsto> 0), w_initialSyncDone := Map.empty(''team/vol'' \<mapsto> True),
          w_nextTimer := 1, w_pending := [(0, RunScheduledSyncCommon ''vol'' ''team'' (vo_Spec ready_volume) 60000000000)]\<rparr>)"
  by (simp add: StartSync_def ready_volume_facts StartSyncForSharedVolume_def StopSyncForSharedVolume_def ParseDuration_60s
      startSyncCommon_def Let_def run_stopSyncTimer time_AfterFunc_def set_timer_def world_of_def volume_key_def fun_eq_iff)

lemma sample_posts:
  "\<not> list_all reads_only (emitted (run_closure store_env (RunScheduledSyncCommon ''vol'' ''team'' (vo_Spec ready_volume) 60000000000)) one_volume)"
proof -
  have src: "Source (vo_Spec ready_volume) = Some sample_http_source"
    by (simp add: ready_volume_def volume_accessors sample_spec_def)
  have "run_state (GetVolume store_env SharedVolume ''team'' ''vol'') one_volume
      = (Inr sample_volume, one_volume\<lparr>w_hist := [EApi (GetReq (KVolume SharedVolume) ''team'' ''vol'') (RObject (OVolume sample_volume))]\<rparr>)"
    by (simp add: GetVolume_def Get_as_def run_api_call as_object_def store_env_def world_of_def has_key_def sample_volume_def
        sample_meta_def empty_meta_def)
  then show ?thesis
    by (simp add: emitted_def scheduledSyncCommon_def volume_still_exists_def finishScheduledSync_def sync_if_source_def ready_volume_facts
        triggerSyncCommon_def wrap_err_def buildSyncRequestCommon_def src sample_http_source_def http_request_def send_sync_def
        http_post_def store_env_def world_of_def reschedule_def time_AfterFunc_def set_timer_def)
qed

theorem pods_mount_synced_folder_witness:
  "(\<exists>pod' w' pv. run_state (processSharedVolume store_env (pod_naming ''vol'') \<lparr>svr_Namespace = ''team'', svr_Name = ''vol'', svr_IsCluster = False\<rparr>) one_volume
     = (Inr pod', w') \<and> store_objs (w_srv w') (KPersistentVolume, [], ''sv-a1-team'') = Some (OPersistentVolume pv)
     \<and> csi_attribute ''share'' pv = Some (''/'' @ ''/'' @ volume_folder sample_volume))
   \<and> emits (post_target (\<lambda>path. path = ''/nfs/'' @ volume_folder sample_volume))
       (run_closure store_env (RunScheduledSyncCommon ''vol'' ''team'' (vo_Spec ready_volume) 60000000000))
   \<and> \<not> list_all reads_only (emitted (run_closure store_env (RunScheduledSyncCommon ''vol'' ''team'' (vo_Spec ready_volume) 60000000000)) one_volume)"
proof -
  let ?r = "\<lparr>svr_Namespace = ''team'', svr_Name = ''vol'', svr_IsCluster = False\<rparr>"
  have "the_ref (store_objs (w_srv one_volume)) ?r = Some sample_volume" "e_ParseQuantity store_env (st_Capacity sample_storage) = Inr (Quantity ''1Gi'')"
    "''sv-a1-team'' = pv_pvc_name (ReferenceValue (vo_Spec sample_volume)) (om_Namespace (pod_Meta (pod_naming ''vol'')))"
    "store_objs (w_srv one_volume) (KPersistentVolume, [], ''sv-a1-team'') = None"
    "store_objs (w_srv one_volume) (KPersistentVolumeClaim, om_Namespace (pod_Meta (pod_naming ''vol'')), ''sv-a1-team'') = None"
    "\<not> svr_IsCluster ?r \<longrightarrow> svr_Namespace ?r = om_Namespace (pod_Meta (pod_naming ''vol''))"
    by (simp_all add: world_of_def one_volume_facts sample_storage_def pv_pvc_name_def)
  note both = pods_mount_synced_folder [OF store_objs_stores this(1) one_volume_facts(3,4) this(2-6)]
  have "emits (post_target (\<lambda>path. path = ''/nfs/'' @ volume_folder sample_volume \<longleftrightarrow> vo_type sample_volume = SharedVolume
        \<or> ResourceNamespace (vo_Spec ready_volume) = ''shared-volume-controller''))
      (run_closure store_env (RunScheduledSyncCommon ''vol'' ''team'' (vo_Spec ready_volume) 60000000000))"
    using sample_start by (intro both [THEN conjunct2, THEN conjunct1, rule_format])
      (auto simp: ready_volume_facts sample_volume_simps volume_accessors world_of_def)
  moreover have "vo_type sample_volume = SharedVolume" "nfs_Path sample_nfs = ''/''"
    by (simp_all add: sample_volume_def sample_nfs_def)
  ultimately show ?thesis
    using both [THEN conjunct1] sample_posts by auto
qed

theorem named_server_address_lost_witness:
  "\<exists>pv w' pod'. run_state (processSharedVolume store_env (pod_naming ''vol'') \<lparr>svr_Namespace = ''team'', svr_Name = ''vol'', svr_IsCluster = False\<rparr>) one_volume
     = (Inr pod', w') \<and> store_objs (w_srv w') (KPersistentVolume, [], ''sv-a1-team'') = Some (OPersistentVolume pv)
     \<and> csi_attribute ''server'' pv \<noteq> Some ''nfs-sv-a1.team.svc.cluster.local''"
  using named_server_address_lost [OF store_objs_stores _ _ _ _ HOL.refl, of one_volume
      "\<lparr>svr_Namespace = ''team'', svr_Name = ''vol'', svr_IsCluster = False\<rparr>" sample_volume sample_storage sample_nfs _ "pod_naming ''vol''"]
  by (auto simp: world_of_def one_volume_facts sample_nfs_def pv_pvc_name_def GetManagedNfsServerAddress_def)

definition bad_volume :: VolumeObject where
  "bad_volume = with_capacity ''lots'' sample_volume"

definition strict_env :: "store env" where
  "strict_env = store_env\<lparr>e_ParseQuantity := (\<lambda>s. if s = ''1Gi'' then Inr (Quantity s) else Inl (Errorf ''not a quantity''))\<rparr>"

theorem bad_capacity_panics_witness:
  "\<exists>m w'. run_state (Handle strict_env (create_request (pod_naming ''vol''))) (world_of [OVolume bad_volume]) = (Inl (Panic m), w')"
proof -
  have "stores strict_env store_objs"
    using store_objs_stores by (simp add: stores_def strict_env_def)
  moreover have "ValidateCreate SharedVolume (OVolume sample_volume) = Inr ()"
    by (simp add: ValidateCreate_cases spec_ok_def source_ok_def sync_ok_def http_ok_def sample_volume_simps)
  moreover have "the_ref (store_objs [OVolume bad_volume]) \<lparr>svr_Namespace = ''team'', svr_Name = ''vol'', svr_IsCluster = False\<rparr> = Some bad_volume"
    "store_objs [OVolume bad_volume] (KPersistentVolume, [], n) = None" for n
    by (simp_all add: bad_volume_def with_capacity_def the_ref_def ref_key_def store_objs_def has_key_def sample_volume_simps)
  moreover have "Storage (vo_Spec bad_volume) = Some (sample_storage\<lparr>st_Capacity := ''lots''\<rparr>)" "NfsServer (vo_Spec bad_volume) = Some sample_nfs"
    by (simp_all add: bad_volume_def with_capacity_def one_volume_facts)
  moreover have "e_ParseQuantity strict_env ''lots'' = Inl (Errorf ''not a quantity'')" "w_srv (world_of st) = st" for st :: store
    by (simp_all add: strict_env_def world_of_def)
  moreover have "ar_Object (create_request pod) = Inr pod" "ar_Operation (create_request pod) = ''CREATE''" for pod
    by (simp_all add: create_request_def)
  ultimately show ?thesis
    using bad_capacity_panics [OF _ _ _ _ _ _ sample_refs(1) _ _ _ one_volume_facts(5), of strict_env store_objs SharedVolume
        sample_volume "()" bad_volume "''lots''" _ _ _ "world_of [OVolume bad_volume]"]
    by (metis bad_volume_def)
qed

theorem webhook_variants_agree_witness:
  "addVolumeToPod (pod_naming ''vol'') sample_volume ''team''
     = Inr (addVolumeToPodGeneric (pod_naming ''vol'') (vo_Spec sample_volume) ''sv-a1'' ''team'')"
  by (rule webhook_variants_agree [OF one_volume_facts(3), THEN conjunct1, unfolded one_volume_facts])

end
