(* ===== verification/Pod_Cleanup.thy ===== *)
theory Pod_Cleanup
  imports Pod_Admission
begin

text \<open>
  The pod cleanup controller (controller/pod_cleanup_controller.go): it puts its finalizer on pods
  that name volumes, and for a pod that goes it deletes the claims and persistent volumes the
  webhook made for it. The names of the package that the webhook also uses carry the suffix
  \<open>_cleanup\<close> or are told apart by case, as in the source.
\<close>

section \<open>References\<close>

record SharedVolumeRef_cleanup =
  cref_Namespace :: string
  cref_Name :: string

definition extractSharedVolumeAnnotations_cleanup :: "Pod \<Rightarrow> SharedVolumeRef_cleanup list" where
  "extractSharedVolumeAnnotations_cleanup pod =
     map (\<lambda>n. \<lparr>cref_Namespace = om_Namespace (pod_Meta pod), cref_Name = n\<rparr>)
       (annotation_names (map_of (om_Annotations (pod_Meta pod)) SharedVolumeAnnotationKey))
     @ map (\<lambda>n. \<lparr>cref_Namespace = ClusterSharedVolumeOperationNamespace, cref_Name = n\<rparr>)
       (annotation_names (map_of (om_Annotations (pod_Meta pod)) ClusterSharedVolumeAnnotationKey))"

section \<open>Finalizers\<close>

definition hasFinalizer :: "Pod \<Rightarrow> string \<Rightarrow> bool" where
  "hasFinalizer pod finalizer = list_ex (\<lambda>f. f = finalizer) (om_Finalizers (pod_Meta pod))"

definition removeFinalizer :: "'w env \<Rightarrow> Pod \<Rightarrow> string \<Rightarrow> ('w, error + unit) prog" where
  "removeFinalizer env pod finalizer =
     bindE (GetPod env (om_Namespace (pod_Meta pod)) (om_Name (pod_Meta pod))) (\<lambda>latestPod.
     let newFinalizers = filter (\<lambda>f. f \<noteq> finalizer) (om_Finalizers (pod_Meta latestPod));
         found = list_ex (\<lambda>f. f = finalizer) (om_Finalizers (pod_Meta latestPod))
     in if \<not> found then ret (Inr ())
        else UpdateDone env (OPod (set_pod_finalizers newFinalizers latestPod)))"

definition addFinalizer :: "'w env \<Rightarrow> Pod \<Rightarrow> string \<Rightarrow> ('w, error + unit) prog" where
  "addFinalizer env pod finalizer =
     bindE (GetPod env (om_Namespace (pod_Meta pod)) (om_Name (pod_Meta pod))) (\<lambda>latestPod.
     if list_ex (\<lambda>f. f = finalizer) (om_Finalizers (pod_Meta latestPod)) then ret (Inr ())
     else UpdateDone env (OPod (set_pod_finalizers (om_Finalizers (pod_Meta latestPod) @ [finalizer]) latestPod)))"

section \<open>Users of a volume\<close>

text \<open>A pod without annotations has none under either key.\<close>

definition isPodUsingSharedVolume :: "Pod \<Rightarrow> VolumeObject \<Rightarrow> bool" where
  "isPodUsingSharedVolume pod sv \<longleftrightarrow>
     om_DeletionTimestamp (pod_Meta pod) = None
     \<and> list_ex (\<lambda>svName. om_Namespace (pod_Meta pod) = GetNamespace sv \<and> svName = GetName sv)
         (annotation_names (map_of (om_Annotations (pod_Meta pod)) SharedVolumeAnnotationKey))"

definition isSharedVolumeStillInUse :: "'w env \<Rightarrow> VolumeObject \<Rightarrow> string \<Rightarrow> ('w, error + bool) prog" where
  "isSharedVolumeStillInUse env sv namespace =
     bindE (ListPods env (InNamespace namespace)) (\<lambda>pods.
     ret (Inr (list_ex (\<lambda>pod. isPodUsingSharedVolume pod sv) pods)))"

definition isPodUsingVolumeByRef :: "SharedVolumeRef_cleanup \<Rightarrow> Pod \<Rightarrow> bool" where
  "isPodUsingVolumeByRef svRef pod \<longleftrightarrow>
     om_DeletionTimestamp (pod_Meta pod) = None
     \<and> (list_ex (\<lambda>svName. om_Namespace (pod_Meta pod) = cref_Namespace svRef \<and> svName = cref_Name svRef)
          (annotation_names (map_of (om_Annotations (pod_Meta pod)) SharedVolumeAnnotationKey))
        \<or> list_ex (\<lambda>csvName. cref_Namespace svRef = ClusterSharedVolumeOperationNamespace \<and> csvName = cref_Name svRef)
          (annotation_names (map_of (om_Annotations (pod_Meta pod)) ClusterSharedVolumeAnnotationKey)))"

definition users_selector :: "SharedVolumeRef_cleanup \<Rightarrow> selector" where
  "users_selector svRef =
     (if cref_Namespace svRef = ClusterSharedVolumeOperationNamespace then AllNamespaces
      else InNamespace (cref_Namespace svRef))"

definition isVolumeStillInUseByRef :: "'w env \<Rightarrow> SharedVolumeRef_cleanup \<Rightarrow> ('w, error + bool) prog" where
  "isVolumeStillInUseByRef env svRef =
     bindE (ListPods env (users_selector svRef)) (\<lambda>pods.
     ret (Inr (list_ex (isPodUsingVolumeByRef svRef) pods)))"

section \<open>Forced deletion\<close>

text \<open>The loops that strip a claim or a persistent volume of its finalizers, and their patches.\<close>

definition forceRemovePVFinalizersWithPatch_cleanup :: "'w env \<Rightarrow> string \<Rightarrow> ('w, error + unit) prog" where
  "forceRemovePVFinalizersWithPatch_cleanup env pvName =
     force_remove_finalizers_with_patch env KPersistentVolume [] pvName"

definition forceRemovePVCFinalizersWithPatch :: "'w env \<Rightarrow> string \<Rightarrow> string \<Rightarrow> ('w, error + unit) prog" where
  "forceRemovePVCFinalizersWithPatch env pvcName namespace =
     force_remove_finalizers_with_patch env KPersistentVolumeClaim namespace pvcName"

definition removePVCFinalizersWithRetry :: "'w env \<Rightarrow> PersistentVolumeClaim \<Rightarrow> ('w, error + unit) prog" where
  "removePVCFinalizersWithRetry env pvc =
     strip_loop env KPersistentVolumeClaim (om_Namespace (pvc_Meta pvc)) (om_Name (pvc_Meta pvc)) 0"

definition removePVFinalizersWithRetry :: "'w env \<Rightarrow> PersistentVolume \<Rightarrow> ('w, error + unit) prog" where
  "removePVFinalizersWithRetry env pv = strip_loop env KPersistentVolume [] (om_Name (pv_Meta pv)) 0"

definition forceDeletePVC :: "'w env \<Rightarrow> string \<Rightarrow> string \<Rightarrow> ('w, error + unit) prog" where
  "forceDeletePVC env pvcName namespace = do {
     r \<leftarrow> GetPVC env namespace pvcName;
     case r of
       Inl err \<Rightarrow> if IsNotFound err then ret (Inr ()) else ret (Inl err)
     | Inr pvc \<Rightarrow> do {
         _ \<leftarrow> (if om_Finalizers (pvc_Meta pvc) \<noteq> [] then removePVCFinalizersWithRetry env pvc else ret (Inr ()));
         r \<leftarrow> Delete env (OPersistentVolumeClaim pvc);
         case r of
           Inl err \<Rightarrow> if IsNotFound err then ret (Inr ()) else ret (Inl err)
         | Inr _ \<Rightarrow> do {
             r \<leftarrow> GetPVC env namespace pvcName;
             case r of
               Inl err \<Rightarrow> if IsNotFound err then ret (Inr ()) else ret (Inl err)
             | Inr updatedPVC \<Rightarrow>
                 if om_DeletionTimestamp (pvc_Meta updatedPVC) \<noteq> None \<and> om_Finalizers (pvc_Meta updatedPVC) \<noteq> []
                 then removePVCFinalizersWithRetry env updatedPVC
                 else ret (Inr ())
           }
       }
   }"

definition forceDeletePV :: "'w env \<Rightarrow> string \<Rightarrow> ('w, error + unit) prog" where
  "forceDeletePV env pvName = do {
     r \<leftarrow> GetPV env pvName;
     case r of
       Inl err \<Rightarrow> if IsNotFound err then ret (Inr ()) else ret (Inl err)
     | Inr pv \<Rightarrow> do {
         _ \<leftarrow> (if om_Finalizers (pv_Meta pv) \<noteq> [] then removePVFinalizersWithRetry env pv else ret (Inr ()));
         r \<leftarrow> Delete env (OPersistentVolume pv);
         case r of
           Inl err \<Rightarrow> if IsNotFound err then ret (Inr ()) else ret (Inl err)
         | Inr _ \<Rightarrow> do {
             r \<leftarrow> GetPV env pvName;
             case r of
               Inl err \<Rightarrow> if IsNotFound err then ret (Inr ()) else ret (Inl err)
             | Inr updatedPV \<Rightarrow>
                 if om_DeletionTimestamp (pv_Meta updatedPV) \<noteq> None \<and> om_Finalizers (pv_Meta updatedPV) \<noteq> []
                 then removePVFinalizersWithRetry env updatedPV
                 else ret (Inr ())
           }
       }
   }"

text \<open>Despite its name it deletes nothing: it takes all finalizers off a pod that is going.\<close>

definition forceDeletePod :: "'w env \<Rightarrow> Pod \<Rightarrow> ('w, error + unit) prog" where
  "forceDeletePod env pod =
     (if om_DeletionTimestamp (pod_Meta pod) \<noteq> None \<and> om_Finalizers (pod_Meta pod) \<noteq> [] then do {
        r \<leftarrow> GetPod env (om_Namespace (pod_Meta pod)) (om_Name (pod_Meta pod));
        case r of
          Inl err \<Rightarrow> if IsNotFound err then ret (Inr ()) else ret (Inl err)
        | Inr latestPod \<Rightarrow> UpdateDone env (OPod (set_pod_finalizers [] latestPod))
      }
      else ret (Inr ()))"

section \<open>Cleanup of a pod's volumes\<close>

definition cleanupPodSpecificResourcesByRef ::
  "'w env \<Rightarrow> SharedVolumeRef_cleanup \<Rightarrow> string \<Rightarrow> string \<Rightarrow> ('w, error + unit) prog" where
  "cleanupPodSpecificResourcesByRef env svRef referenceValue resourceNamespace =
     (let pvcName = pv_pvc_name referenceValue resourceNamespace;
          pvName = pv_pvc_name referenceValue resourceNamespace
      in bindE (isVolumeStillInUseByRef env svRef) (\<lambda>stillInUse.
         if stillInUse then ret (Inr ())
         else bindE (forceDeletePVC env pvcName resourceNamespace) (\<lambda>_. forceDeletePV env pvName)))"

text \<open>The variant for a \<open>SharedVolume\<close>, without a caller.\<close>

definition cleanupPodSpecificResources :: "'w env \<Rightarrow> VolumeObject \<Rightarrow> string \<Rightarrow> ('w, error + unit) prog" where
  "cleanupPodSpecificResources env sv podNamespace =
     (let pvcName = pv_pvc_name (ReferenceValue (vo_Spec sv)) podNamespace;
          pvName = pv_pvc_name (ReferenceValue (vo_Spec sv)) podNamespace
      in bindE (isSharedVolumeStillInUse env sv podNamespace) (\<lambda>stillInUse.
         if stillInUse then ret (Inr ())
         else bindE (forceDeletePVC env pvcName podNamespace) (\<lambda>_. forceDeletePV env pvName)))"

text \<open>One round of the loop; a volume that is not there is passed over.\<close>

definition volume_of_cref :: "'w env \<Rightarrow> SharedVolumeRef_cleanup \<Rightarrow> ('w, error + VolumeObject) prog" where
  "volume_of_cref env svRef =
     (if cref_Namespace svRef = ''shared-volume-controller''
      then GetVolume env ClusterSharedVolume [] (cref_Name svRef)
      else GetVolume env SharedVolume (cref_Namespace svRef) (cref_Name svRef))"

definition cleanup_reference :: "'w env \<Rightarrow> Pod \<Rightarrow> SharedVolumeRef_cleanup \<Rightarrow> ('w, error + unit) prog" where
  "cleanup_reference env pod svRef = do {
     r \<leftarrow> volume_of_cref env svRef;
     case r of
       Inl err \<Rightarrow> if IsNotFound err then ret (Inr ()) else ret (Inl err)
     | Inr v \<Rightarrow> cleanupPodSpecificResourcesByRef env svRef (ReferenceValue (vo_Spec v)) (om_Namespace (pod_Meta pod))
   }"

definition cleanupSharedVolumeResources :: "'w env \<Rightarrow> Pod \<Rightarrow> ('w, error + unit) prog" where
  "cleanupSharedVolumeResources env pod =
     (let svRefs = extractSharedVolumeAnnotations_cleanup pod
      in if svRefs = [] then ret (Inr ()) else for_err svRefs (cleanup_reference env pod))"

section \<open>Orphaned pods\<close>

definition owned_by_ReplicaSet :: "OwnerReference \<Rightarrow> bool" where
  "owned_by_ReplicaSet owner \<longleftrightarrow> or_Kind owner = ''ReplicaSet'' \<and> or_APIVersion owner = ''apps/v1''"

definition isOrphanedByReplicaSet :: "'w env \<Rightarrow> Pod \<Rightarrow> ('w, bool) prog" where
  "isOrphanedByReplicaSet env pod =
     (case find owned_by_ReplicaSet (om_OwnerReferences (pod_Meta pod)) of
        None \<Rightarrow> ret False
      | Some replicaSetOwner \<Rightarrow> do {
          r \<leftarrow> GetReplicaSet env (om_Namespace (pod_Meta pod)) (or_Name replicaSetOwner);
          case r of
            Inl err \<Rightarrow> if IsNotFound err then ret True else ret False
          | Inr replicaSet \<Rightarrow>
              ret (om_DeletionTimestamp (rs_Meta replicaSet) \<noteq> None \<or> rs_Replicas replicaSet = Some 0)
        })"

section \<open>The reconciler\<close>

text \<open>The part for a pod under deletion; the error of \<open>forceDeletePod\<close> is only logged.\<close>

definition reconcile_deleted :: "'w env \<Rightarrow> Pod \<Rightarrow> ('w, error + unit) prog" where
  "reconcile_deleted env pod =
     (if om_DeletionTimestamp (pod_Meta pod) \<noteq> None then do {
        _ \<leftarrow> forceDeletePod env pod;
        bindE (cleanupSharedVolumeResources env pod) (\<lambda>_.
        removeFinalizer env pod SharedVolumePodFinalizer)
      }
      else ret (Inr ()))"

definition reconcile_orphan :: "'w env \<Rightarrow> Pod \<Rightarrow> ('w, error + unit) prog" where
  "reconcile_orphan env pod =
     bindE (if extractSharedVolumeAnnotations_cleanup pod \<noteq> [] then cleanupSharedVolumeResources env pod
            else ret (Inr ())) (\<lambda>_. do {
     r \<leftarrow> Delete env (OPod pod);
     case r of
       Inl err \<Rightarrow> if IsNotFound err then ret (Inr ()) else ret (Inl err)
     | Inr _ \<Rightarrow> ret (Inr ()) })"

definition Reconcile_Pod :: "'w env \<Rightarrow> string \<Rightarrow> string \<Rightarrow> ('w, error + unit) prog" where
  "Reconcile_Pod env req_ns req_name = do {
     r \<leftarrow> GetPod env req_ns req_name;
     case r of
       Inl err \<Rightarrow> ret (case IgnoreNotFound err of None \<Rightarrow> Inr () | Some err \<Rightarrow> Inl err)
     | Inr pod \<Rightarrow>
         if hasFinalizer pod SharedVolumePodFinalizer then reconcile_deleted env pod
         else do {
           isOrphaned \<leftarrow> isOrphanedByReplicaSet env pod;
           if isOrphaned then reconcile_orphan env pod
           else if extractSharedVolumeAnnotations_cleanup pod = [] then ret (Inr ())
           else if om_DeletionTimestamp (pod_Meta pod) = None then addFinalizer env pod SharedVolumePodFinalizer
           else reconcile_deleted env pod
         }
   }"

text \<open>The pods \<open>SetupWithManager\<close> lets through to the reconciler.\<close>

definition pod_event_filter :: "Pod \<Rightarrow> bool" where
  "pod_event_filter pod \<longleftrightarrow>
     (case map_of (om_Annotations (pod_Meta pod)) SharedVolumeAnnotationKey of None \<Rightarrow> False | Some names \<Rightarrow> names \<noteq> [])
     \<or> hasFinalizer pod SharedVolumePodFinalizer
     \<or> list_ex owned_by_ReplicaSet (om_OwnerReferences (pod_Meta pod))"

section \<open>What the parts write\<close>

text \<open>The objects of the pod's namespace that a reconciliation may write, with an honest server.\<close>

lemma strip_writes:
  "emits (writes_in (\<lambda>k. k = (KPersistentVolumeClaim, om_Namespace (pvc_Meta pvc), om_Name (pvc_Meta pvc)))) (removePVCFinalizersWithRetry env pvc)"
  "emits (writes_in (\<lambda>k. k = (KPersistentVolume, [], om_Name (pv_Meta pv)))) (removePVFinalizersWithRetry env pv)"
  if "honest env"
proof -
  have once: "emits (writes_in (\<lambda>key. key = (k, ns, n))) (strip_once env k ns n rc)" for k ns n rc
    unfolding strip_once_def force_remove_finalizers_with_patch_def
    by (intro keeps_intro) (auto dest!: honest_decoded(7) [OF that] simp: key_of_def set_finalizers_def)
  show "emits (writes_in (\<lambda>k. k = (KPersistentVolumeClaim, om_Namespace (pvc_Meta pvc), om_Name (pvc_Meta pvc)))) (removePVCFinalizersWithRetry env pvc)"
    "emits (writes_in (\<lambda>k. k = (KPersistentVolume, [], om_Name (pv_Meta pv)))) (removePVFinalizersWithRetry env pv)"
    unfolding removePVCFinalizersWithRetry_def removePVFinalizersWithRetry_def by (rule strip.emits_loop [OF once])+
qed

lemma force_delete_writes:
  assumes "honest env"
  shows "emits (writes_in (\<lambda>k. k = (KPersistentVolumeClaim, ns, n))) (forceDeletePVC env n ns)"
    and "emits (writes_in (\<lambda>k. k = (KPersistentVolume, [], n))) (forceDeletePV env n)"
proof -
  have pvc: "emits (writes_in (\<lambda>k. k = (KPersistentVolumeClaim, ns, n))) (removePVCFinalizersWithRetry env pvc)"
    if "Inr pvc \<in> results (GetPVC env ns n)" for pvc
    using strip_writes(1) [OF assms, of pvc] honest_decoded(3) [OF assms that] by (simp add: key_of_def)
  show "emits (writes_in (\<lambda>k. k = (KPersistentVolumeClaim, ns, n))) (forceDeletePVC env n ns)"
    unfolding forceDeletePVC_def
    by (intro keeps_intro pvc) (auto dest: honest_decoded(3) [OF assms] simp: key_of_def)
  have pv: "emits (writes_in (\<lambda>k. k = (KPersistentVolume, [], n))) (removePVFinalizersWithRetry env pv)"
    if "Inr pv \<in> results (GetPV env n)" for pv
    using strip_writes(2) [OF assms, of pv] honest_decoded(2) [OF assms that] by (simp add: key_of_def)
  show "emits (writes_in (\<lambda>k. k = (KPersistentVolume, [], n))) (forceDeletePV env n)"
    unfolding forceDeletePV_def
    by (intro keeps_intro pv) (auto dest: honest_decoded(2) [OF assms] simp: key_of_def)
qed

lemma release_writes:
  assumes "honest env"
  shows "emits (writes_in (pod_objects ns)) (bindE (forceDeletePVC env (pv_pvc_name ref ns) ns) (\<lambda>_. forceDeletePV env (pv_pvc_name ref ns)))"
  by (intro keeps_intro force_delete_writes [OF assms, THEN emits_weaken]; erule writes_in_mono; auto simp: pod_objects_def)

lemma resources_write:
  assumes "honest env"
  shows "emits (writes_in (pod_objects (om_Namespace (pod_Meta pod)))) (cleanupSharedVolumeResources env pod)"
proof -
  have get: "emits (writes_in K) (volume_of_cref env r)" for K and r
    unfolding volume_of_cref_def by (intro keeps_intro) simp_all
  show ?thesis
    unfolding cleanupSharedVolumeResources_def cleanup_reference_def cleanupPodSpecificResourcesByRef_def isVolumeStillInUseByRef_def Let_def
    by (intro keeps_intro get release_writes [OF assms]; simp)
qed

text \<open>The pod itself, however it is written.\<close>

lemma pod_writes:
  assumes "honest env" and "key_of (OPod pod) = (KPod, ns, n)"
  shows "emits (writes_in (\<lambda>k. k = (KPod, ns, n))) (removeFinalizer env pod f)"
    "emits (writes_in (\<lambda>k. k = (KPod, ns, n))) (addFinalizer env pod f)"
    "emits (writes_in (\<lambda>k. k = (KPod, ns, n))) (forceDeletePod env pod)"
proof -
  have key: "om_Namespace (pod_Meta pod) = ns" "om_Name (pod_Meta pod) = n"
    using assms(2) by (simp_all add: key_of_def)
  have latest: "key_of (OPod (set_pod_finalizers fs p)) = (KPod, ns, n)" if "Inr p \<in> results (GetPod env ns n)" for p fs
    using honest_decoded(1) [OF assms(1) that] by (simp add: key_of_def set_pod_finalizers_def)
  show "emits (writes_in (\<lambda>k. k = (KPod, ns, n))) (removeFinalizer env pod f)"
    "emits (writes_in (\<lambda>k. k = (KPod, ns, n))) (addFinalizer env pod f)"
    "emits (writes_in (\<lambda>k. k = (KPod, ns, n))) (forceDeletePod env pod)"
    unfolding removeFinalizer_def addFinalizer_def forceDeletePod_def key Let_def
    by (intro keeps_intro; simp add: latest)+
qed

lemma orphan_check_writes: "emits (writes_in K) (isOrphanedByReplicaSet env pod)"
  unfolding isOrphanedByReplicaSet_def by (intro keeps_intro) simp_all

text \<open>
  C21. With a server that answers for the object asked for, a reconciliation of a pod writes nothing but
  that pod and the claims and persistent volumes made for its namespace, whose names are a reference
  value and the namespace.
\<close>

theorem pod_reconcile_scope:
  assumes "honest env"
  shows "emits (writes_in (\<lambda>k. k = (KPod, ns, n) \<or> pod_objects ns k)) (Reconcile_Pod env ns n)"
proof -
  let ?P = "writes_in (\<lambda>k. k = (KPod, ns, n) \<or> pod_objects ns k)"
  have pod: "emits (writes_in (\<lambda>k. k = (KPod, ns, n))) m \<Longrightarrow> emits ?P m" for m :: "('a, 'c) prog"
    by (erule emits_weaken, erule writes_in_mono) simp
  have objects: "emits (writes_in (pod_objects ns)) m \<Longrightarrow> emits ?P m" for m :: "('a, 'c) prog"
    by (erule emits_weaken, erule writes_in_mono) simp
  have parts: "emits ?P (reconcile_deleted env p)" "emits ?P (reconcile_orphan env p)" "emits ?P (addFinalizer env p f)"
    if "Inr p \<in> results (GetPod env ns n)" for p f
  proof -
    have key: "key_of (OPod p) = (KPod, ns, n)" by (rule honest_decoded(1) [OF assms that])
    then have "om_Namespace (pod_Meta p) = ns" by (simp add: key_of_def)
    note resources = objects [OF resources_write [OF assms, of p, unfolded this]]
    show "emits ?P (reconcile_deleted env p)" "emits ?P (addFinalizer env p f)"
      unfolding reconcile_deleted_def by (intro keeps_intro resources pod pod_writes [OF assms key])+
    show "emits ?P (reconcile_orphan env p)"
      unfolding reconcile_orphan_def using key by (intro keeps_intro resources) (simp_all add: key_of_def)
  qed
  show ?thesis
    unfolding Reconcile_Pod_def by (intro keeps_intro parts orphan_check_writes) simp_all
qed

section \<open>Claims are released only when nobody uses them\<close>

lemma force_delete_grows:
  "emits (\<lambda>_. True) (bindE (forceDeletePVC env n ns) (\<lambda>_. forceDeletePV env n'))"
proof -
  have strip: "emits (\<lambda>_. True) (strip_loop env k ns n 0)" for k ns n
    by (rule strip.emits_loop) (unfold strip_once_def force_remove_finalizers_with_patch_def, intro keeps_intro; simp)
  show ?thesis
    unfolding forceDeletePVC_def forceDeletePV_def removePVCFinalizersWithRetry_def removePVFinalizersWithRetry_def
    by (intro keeps_intro strip; simp)
qed

lemma list_check:
  assumes "run_state (bindE (ListPods env sel) (\<lambda>pods. ret (Inr (list_ex uses pods)))) w = (Inr False, w')"
  shows "\<exists>es. w_hist w' = w_hist w @ es \<and> (\<exists>e \<in> set es. shows_unused sel uses e)"
proof -
  from assms obtain pods where "run_state (ListPods env sel) w = (Inr pods, w')" "\<not> list_ex uses pods"
    by (auto split: prod.splits sum.splits)
  then show ?thesis by (rule ListPods_unused)
qed

interpretation controller_release: release_if_unused
  "isVolumeStillInUseByRef env svRef" "bindE (forceDeletePVC env n ns) (\<lambda>_. forceDeletePV env n)"
  "shows_unused (users_selector svRef) (isPodUsingVolumeByRef svRef)" for env svRef n ns
proof
  show "emits reads_only (isVolumeStillInUseByRef env svRef)"
    unfolding isVolumeStillInUseByRef_def by (intro keeps_intro) simp
qed (unfold isVolumeStillInUseByRef_def, erule list_check, rule force_delete_grows)

interpretation legacy_release: release_if_unused
  "isSharedVolumeStillInUse env sv podNamespace" "bindE (forceDeletePVC env n ns) (\<lambda>_. forceDeletePV env n)"
  "shows_unused (InNamespace podNamespace) (\<lambda>pod. isPodUsingSharedVolume pod sv)" for env sv podNamespace n ns
proof
  show "emits reads_only (isSharedVolumeStillInUse env sv podNamespace)"
    unfolding isSharedVolumeStillInUse_def by (intro keeps_intro) simp
qed (unfold isSharedVolumeStillInUse_def, erule list_check, rule force_delete_grows)

text \<open>
  C12. The cleanup controller, too, touches a claim or a persistent volume only after the server has
  answered with a list of pods (of the volume's namespace, or of all for a cluster volume) in which
  no pod that stays names the volume; the variant that takes the volume itself does the same.
\<close>

theorem controller_releases_unused:
  "preceded (shows_unused (users_selector svRef) (isPodUsingVolumeByRef svRef)) is_write_event
     (emitted (cleanupPodSpecificResourcesByRef env svRef ref ns) w)
   \<and> preceded (shows_unused (InNamespace ns) (\<lambda>pod. isPodUsingSharedVolume pod sv)) is_write_event
     (emitted (cleanupPodSpecificResources env sv ns) w)"
  unfolding cleanupPodSpecificResourcesByRef_def cleanupPodSpecificResources_def Let_def
  by (intro conjI guarded_emitted controller_release.release_guarded legacy_release.release_guarded)

section \<open>A pod that stays keeps its claims\<close>

text \<open>The lists that tell the users of a volume hold the pod.\<close>

definition lists_pod :: "'w env \<Rightarrow> Pod \<Rightarrow> bool" where
  "lists_pod env pod \<longleftrightarrow> (\<forall>r \<in> set (extractSharedVolumeAnnotations_cleanup pod). \<forall>s objs.
     fst (e_api env (ListReq KPod (users_selector r)) s) = RObjects objs \<longrightarrow> OPod pod \<in> set objs)"

lemma names_itself:
  assumes "r \<in> set (extractSharedVolumeAnnotations_cleanup pod)" and "om_DeletionTimestamp (pod_Meta pod) = None"
  shows "isPodUsingVolumeByRef r pod"
  using assms by (auto simp: extractSharedVolumeAnnotations_cleanup_def isPodUsingVolumeByRef_def list_ex_iff)

lemma listed_pod_in_use:
  assumes "lists_pod env pod" and "r \<in> set (extractSharedVolumeAnnotations_cleanup pod)" and "om_DeletionTimestamp (pod_Meta pod) = None"
    and "Inr used \<in> results (isVolumeStillInUseByRef env r)"
  shows "used"
proof -
  obtain pods where pods: "Inr pods \<in> results (ListPods env (users_selector r))" "used = list_ex (isPodUsingVolumeByRef r) pods"
    using assms(4) unfolding isVolumeStillInUseByRef_def by (auto dest!: results_bindED)
  then obtain s objs where "fst (e_api env (ListReq KPod (users_selector r)) s) = RObjects objs" "those (map the_pod objs) = Some pods"
    unfolding List_as_def as_list_def
    by (auto dest!: results_bindD simp: results_api_call split: response.splits option.splits)
  then have "pod \<in> set pods"
    using assms(1,2) those_pods unfolding lists_pod_def by fastforce
  with names_itself [OF assms(2,3)] pods(2) show ?thesis
    by (auto simp: list_ex_iff)
qed

lemma listed_resources_write:
  assumes "lists_pod env pod" and "om_DeletionTimestamp (pod_Meta pod) = None"
  shows "emits reads_only (cleanupSharedVolumeResources env pod)"
proof -
  have check: "emits reads_only (isVolumeStillInUseByRef env r)" and get: "emits reads_only (volume_of_cref env r)" for r
    unfolding isVolumeStillInUseByRef_def volume_of_cref_def by (intro keeps_intro; simp)+
  have "emits reads_only (cleanupPodSpecificResourcesByRef env r ref ns)"
    if "r \<in> set (extractSharedVolumeAnnotations_cleanup pod)" for r ref ns
    unfolding cleanupPodSpecificResourcesByRef_def Let_def
    by (intro keeps_intro check) (use listed_pod_in_use [OF assms(1) that assms(2)] in auto)
  then show ?thesis
    unfolding cleanupSharedVolumeResources_def cleanup_reference_def Let_def by (intro keeps_intro get)
qed


section \<open>The finalizers are given up first\<close>

text \<open>
  An answer that lets the pod go: an update that takes all its finalizers off and is not refused,
  or a read that does not find it. And one that does not: such an update refused, or a read
  answered with neither the pod nor its absence.
\<close>

fun released :: "string \<Rightarrow> string \<Rightarrow> event \<Rightarrow> bool" where
  "released ns n (EApi (UpdateReq (OPod p)) rp) =
     (key_of (OPod p) = (KPod, ns, n) \<and> om_Finalizers (pod_Meta p) = [] \<and> (\<forall>e. rp \<noteq> RError e))"
| "released ns n (EApi (GetReq k a b) (RError e)) = (k = KPod \<and> a = ns \<and> b = n \<and> IsNotFound e)"
| "released ns n _ = False"

fun refused :: "string \<Rightarrow> string \<Rightarrow> event \<Rightarrow> bool" where
  "refused ns n (EApi (UpdateReq (OPod p)) rp) =
     (key_of (OPod p) = (KPod, ns, n) \<and> om_Finalizers (pod_Meta p) = [] \<and> (\<exists>e. rp = RError e))"
| "refused ns n (EApi (GetReq k a b) (RObject obj)) = False"
| "refused ns n (EApi (GetReq k a b) (RError e)) = (k = KPod \<and> a = ns \<and> b = n \<and> \<not> IsNotFound e)"
| "refused ns n (EApi (GetReq k a b) _) = (k = KPod \<and> a = ns \<and> b = n)"
| "refused ns n _ = False"

fun deletes_storage :: "event \<Rightarrow> bool" where
  "deletes_storage (EApi (DeleteReq k _ _ _) _) = (k = KPersistentVolumeClaim \<or> k = KPersistentVolume)"
| "deletes_storage _ = False"

lemma forceDeletePod_outcome:
  assumes "honest env" and "run_state (forceDeletePod env pod) w = (r, w')" and "key_of (OPod pod) = (KPod, ns, n)"
    and "om_DeletionTimestamp (pod_Meta pod) \<noteq> None" and "om_Finalizers (pod_Meta pod) \<noteq> []"
  shows "\<exists>es. w_hist w' = w_hist w @ es \<and> (\<exists>e \<in> set es. released ns n e \<or> refused ns n e)"
proof -
  let ?rp = "fst (e_api env (GetReq KPod ns n) (w_srv w))"
  have key: "om_Namespace (pod_Meta pod) = ns" "om_Name (pod_Meta pod) = n"
    using assms(3) by (simp_all add: key_of_def)
  have pod: "\<exists>p. obj = OPod p \<and> om_Namespace (pod_Meta p) = ns \<and> om_Name (pod_Meta p) = n" if "?rp = RObject obj" for obj
    using that assms(1) unfolding honest_def has_key_def by (cases obj) fastforce+
  show ?thesis
  proof (cases "\<exists>obj. ?rp = RObject obj")
    case True
    then obtain p where "?rp = RObject (OPod p)" "om_Namespace (pod_Meta p) = ns" "om_Name (pod_Meta p) = n"
      using pod by blast
    with assms(2,4,5) key show ?thesis
      by (auto simp: forceDeletePod_def Get_as_def UpdateDone_def run_api_call as_object_def set_pod_finalizers_def key_of_def)
  next
    case False
    with assms(2,4,5) key have "w_hist w' = w_hist w @ [EApi (GetReq KPod ns n) ?rp]"
      by (cases ?rp) (auto simp: forceDeletePod_def Get_as_def run_api_call as_object_def split: if_splits)
    with False show ?thesis by (cases ?rp) auto
  qed
qed

text \<open>
  C38. For a pod under deletion that carries the finalizer, the controller tries to take all its
  finalizers off, its own included, before it deletes a claim or a persistent volume: before the
  first deletion the server has either accepted that update or not found the pod, or it has
  refused the update or its read, an error the controller only logs. Once the pod is gone nothing
  is retried: a reconciliation that does not find the pod only reads, so claims and volumes left
  by a cleanup that failed stay.
\<close>

theorem finalizers_given_up_first:
  fixes env :: "'w env"
  assumes "honest env" and "run_state (GetPod env ns n) w = (Inr pod, w1)"
    and "om_DeletionTimestamp (pod_Meta pod) \<noteq> None" and "SharedVolumePodFinalizer \<in> set (om_Finalizers (pod_Meta pod))"
  shows "preceded (\<lambda>e. released ns n e \<or> refused ns n e) deletes_storage (emitted (Reconcile_Pod env ns n) w)
    \<and> (\<forall>w2 m. fst (e_api env (GetReq KPod ns n) (w_srv w2)) = RError (NotFound m) \<longrightarrow>
         fst (run_state (Reconcile_Pod env ns n) w2) = Inr () \<and> list_all reads_only (emitted (Reconcile_Pod env ns n) w2))"
proof (intro conjI allI impI)
  let ?A = "\<lambda>e. released ns n e \<or> refused ns n e"
  let ?rest = "bindE (cleanupSharedVolumeResources env pod) (\<lambda>_. removeFinalizer env pod SharedVolumePodFinalizer)"
  have key: "key_of (OPod pod) = (KPod, ns, n)"
    using honest_Get_as [OF assms(1) resultsI [OF assms(2)]] by (auto simp: has_key_def key_of_def decoded)
  have "emits (\<lambda>_. True) (cleanupPodSpecificResourcesByRef env r ref ns')" for r ref ns'
    unfolding cleanupPodSpecificResourcesByRef_def isVolumeStillInUseByRef_def Let_def
    by (intro keeps_intro force_delete_grows) simp
  then have rest: "emits (\<lambda>_. True) ?rest"
    unfolding cleanupSharedVolumeResources_def cleanup_reference_def volume_of_cref_def removeFinalizer_def Let_def
    by (intro keeps_intro; simp)
  have nonempty: "om_Finalizers (pod_Meta pod) \<noteq> []" using assms(4) by auto
  have "emits (\<lambda>e. \<not> deletes_storage e) (forceDeletePod env pod)"
    unfolding forceDeletePod_def by (intro keeps_intro) simp_all
  then have "guarded ?A deletes_storage (do { _ \<leftarrow> forceDeletePod env pod; ?rest })"
    using forceDeletePod_outcome [OF assms(1) _ key assms(3) nonempty] rest by (intro guarded_bind disjI1 conjI)
  then have deleted: "guarded ?A deletes_storage (reconcile_deleted env pod)"
    by (simp add: reconcile_deleted_def assms(3))
  obtain e where e: "w_hist w1 = w_hist w @ [e]" "\<not> deletes_storage e"
    using assms(2) by (auto simp: Get_as_def run_api_call)
  have "preceded ?A deletes_storage ([e] @ emitted (reconcile_deleted env pod) w1)"
    using e(2) deleted by (intro preceded_append) (auto intro: guarded_emitted)
  moreover obtain es where "w_hist (snd (run_state (reconcile_deleted env pod) w1)) = w_hist w1 @ es"
    using deleted unfolding guarded_def by blast
  then have "emitted (Reconcile_Pod env ns n) w = [e] @ emitted (reconcile_deleted env pod) w1"
    using assms(2,4) e(1) by (simp add: emitted_def Reconcile_Pod_def hasFinalizer_def list_ex_iff)
  ultimately show "preceded ?A deletes_storage (emitted (Reconcile_Pod env ns n) w)" by simp
next
  fix w2 :: "'w world" and m assume "fst (e_api env (GetReq KPod ns n) (w_srv w2)) = RError (NotFound m)"
  then show "fst (run_state (Reconcile_Pod env ns n) w2) = Inr ()" "list_all reads_only (emitted (Reconcile_Pod env ns n) w2)"
    by (simp_all add: Reconcile_Pod_def Get_as_def run_api_call as_object_def IgnoreNotFound_def emitted_def)
qed

section \<open>Webhook and controller\<close>

definition to_cref :: "SharedVolumeRef \<Rightarrow> SharedVolumeRef_cleanup" where
  "to_cref r = \<lparr>cref_Namespace = (if svr_IsCluster r then ClusterSharedVolumeOperationNamespace else svr_Namespace r),
     cref_Name = svr_Name r\<rparr>"

text \<open>
  C24. The controller finds in a pod the references the webhook found, in the same order, and for every
  pod of a namespace other than the controller's it looks up the same volume for each of them and,
  among the pods outside the controller's namespace, means the same by its users. In the controller's own namespace it takes a \<open>SharedVolume\<close>
  for a cluster volume and looks up another object.
\<close>

theorem webhook_and_controller_agree:
  "extractSharedVolumeAnnotations_cleanup pod = map to_cref (extractSharedVolumeAnnotations pod)
   \<and> (\<forall>r \<in> set (extractSharedVolumeAnnotations pod).
        (emitted (volume_of_cref env (to_cref r)) w = emitted (volume_of_ref env r suffix) w
           \<longleftrightarrow> svr_IsCluster r \<or> om_Namespace (pod_Meta pod) \<noteq> ''shared-volume-controller'')
        \<and> (om_Namespace (pod_Meta pod) \<noteq> ''shared-volume-controller'' \<and> om_Namespace (pod_Meta other) \<noteq> ''shared-volume-controller'' \<longrightarrow>
             isPodUsingVolumeByRef (to_cref r) other
               = (om_DeletionTimestamp (pod_Meta other) = None \<and> list_ex (same_volume r) (extractSharedVolumeAnnotations other))))"
proof (intro conjI ballI impI)
  show "extractSharedVolumeAnnotations_cleanup pod = map to_cref (extractSharedVolumeAnnotations pod)"
    by (simp add: extractSharedVolumeAnnotations_cleanup_def extractSharedVolumeAnnotations_def to_cref_def)
next
  fix r assume r: "r \<in> set (extractSharedVolumeAnnotations pod)"
  then have ns: "\<not> svr_IsCluster r \<Longrightarrow> svr_Namespace r = om_Namespace (pod_Meta pod)"
    by (auto simp: extractSharedVolumeAnnotations_def)
  then show "emitted (volume_of_cref env (to_cref r)) w = emitted (volume_of_ref env r suffix) w
      \<longleftrightarrow> svr_IsCluster r \<or> om_Namespace (pod_Meta pod) \<noteq> ''shared-volume-controller''"
    by (auto simp: emitted_def volume_of_cref_def to_cref_def volume_of_ref_def wrap_err_def GetVolume_def Get_as_def
        run_api_call ClusterSharedVolumeOperationNamespace_def split: sum.splits)
  assume "om_Namespace (pod_Meta pod) \<noteq> ''shared-volume-controller'' \<and> om_Namespace (pod_Meta other) \<noteq> ''shared-volume-controller''"
  with ns r show "isPodUsingVolumeByRef (to_cref r) other
      = (om_DeletionTimestamp (pod_Meta other) = None \<and> list_ex (same_volume r) (extractSharedVolumeAnnotations other))"
    by (auto simp: isPodUsingVolumeByRef_def to_cref_def same_volume_def extractSharedVolumeAnnotations_def
        ClusterSharedVolumeOperationNamespace_def list_ex_iff)
qed

section \<open>The theorems on a stored pod\<close>

definition going_pod :: Pod where
  "going_pod = (pod_naming ''vol'')\<lparr>pod_Meta := (pod_Meta (pod_naming ''vol''))
     \<lparr>om_DeletionTimestamp := Some 0, om_Finalizers := [SharedVolumePodFinalizer]\<rparr>\<rparr>"

theorem pod_reconcile_scope_witness:
  "\<forall>n. emits (writes_in (\<lambda>k. k = (KPod, ''team'', n) \<or> pod_objects ''team'' k)) (Reconcile_Pod store_env ''team'' n)"
  using pod_reconcile_scope [OF honest_store_env] by blast

text \<open>A server that keeps answering with the pod of a user.\<close>

definition pod_env :: "store env" where
  "pod_env = store_env\<lparr>e_api := (\<lambda>rq st. case rq of
     GetReq k ns n \<Rightarrow> if k = KPod then (RObject (OPod (pod_naming ''vol'')), st) else store_api rq st
   | ListReq k sel \<Rightarrow> (RObjects [OPod (pod_naming ''vol'')], st)
   | _ \<Rightarrow> store_api rq st)\<rparr>"


theorem finalizers_given_up_first_witness:
  "preceded (\<lambda>e. released ''team'' ''app'' e \<or> refused ''team'' ''app'' e) deletes_storage
     (emitted (Reconcile_Pod store_env ''team'' ''app'') (world_of [OPod going_pod]))
   \<and> fst (run_state (Reconcile_Pod store_env ''team'' ''app'') (world_of [])) = Inr ()"
proof -
  have "run_state (GetPod store_env ''team'' ''app'') (world_of [OPod going_pod])
      = (Inr going_pod, snd (run_state (GetPod store_env ''team'' ''app'') (world_of [OPod going_pod])))"
    by (simp add: client_simps store_simps going_pod_def pod_naming_def empty_meta_def)
  note gone = finalizers_given_up_first [OF honest_store_env this]
  have "fst (e_api store_env (GetReq KPod ''team'' ''app'') (w_srv (world_of ([] :: store)))) = RError (NotFound ''app'')"
    by (simp add: store_env_def world_of_def)
  with gone show ?thesis
    by (simp add: going_pod_def)
qed

theorem webhook_and_controller_agree_witness:
  "extractSharedVolumeAnnotations_cleanup (pod_naming ''vol'') = [\<lparr>cref_Namespace = ''team'', cref_Name = ''vol''\<rparr>]"
  using webhook_and_controller_agree [of "pod_naming ''vol''" store_env one_volume "[]" "pod_naming []"]
  by (simp add: sample_refs to_cref_def)

end
