(* ===== verification/Lifecycle.thy ===== *)
theory Lifecycle
  imports Reconcile
begin

text \<open>
  Servers that delete objects the way Kubernetes documents it, and a judgement on what programs make of
  the stored objects. An object with finalizers is only marked when its deletion is asked for,
  and goes when an update takes its last finalizer off. A pod may stay marked for its grace period
  whatever its finalizers are. No other client is at work.
\<close>

section \<open>Deletion and finalizers\<close>

text \<open>\<open>marked obj obj'\<close>: \<open>obj'\<close> is \<open>obj\<close> with a deletion timestamp and some resource version.\<close>

definition marked :: "kobj \<Rightarrow> kobj \<Rightarrow> bool" where
  "marked obj obj' \<longleftrightarrow> (\<exists>ts rv. obj' =
     map_meta (\<lambda>m. m\<lparr>om_DeletionTimestamp := Some ts, om_ResourceVersion := rv\<rparr>) obj)"

text \<open>What is stored for an object once its deletion has been asked for, with the grace period \<open>g\<close>.\<close>

definition deleted :: "int option \<Rightarrow> kobj \<Rightarrow> kobj option \<Rightarrow> bool" where
  "deleted g obj x \<longleftrightarrow> (case x of
     None \<Rightarrow> om_Finalizers (meta_of obj) = []
   | Some obj' \<Rightarrow> marked obj obj' \<and> (om_Finalizers (meta_of obj) \<noteq> [] \<or> kind_of obj = KPod \<and> g \<noteq> Some 0))"

definition with_finalizers :: "string list \<Rightarrow> string \<Rightarrow> kobj \<Rightarrow> kobj" where
  "with_finalizers fs rv obj = map_meta (\<lambda>m. m\<lparr>om_Finalizers := fs, om_ResourceVersion := rv\<rparr>) obj"

text \<open>What is stored for an object whose finalizers are changed to \<open>fs\<close>, with a new resource version.\<close>

definition refinalized :: "string list \<Rightarrow> string \<Rightarrow> kobj \<Rightarrow> kobj option \<Rightarrow> bool" where
  "refinalized fs rv obj x \<longleftrightarrow> (case x of
     None \<Rightarrow> fs = [] \<and> om_DeletionTimestamp (meta_of obj) \<noteq> None
   | Some obj' \<Rightarrow> obj' = with_finalizers fs rv obj
       \<and> (fs \<noteq> [] \<or> om_DeletionTimestamp (meta_of obj) = None \<or> kind_of obj = KPod))"

lemma marked_fields:
  "marked obj obj' \<Longrightarrow> kind_of obj' = kind_of obj \<and> key_of obj' = key_of obj
     \<and> om_Finalizers (meta_of obj') = om_Finalizers (meta_of obj) \<and> om_DeletionTimestamp (meta_of obj') \<noteq> None"
  by (auto simp: marked_def key_of_def)

lemma with_finalizers_fields [simp]:
  "kind_of (with_finalizers fs rv obj) = kind_of obj" "om_Finalizers (meta_of (with_finalizers fs rv obj)) = fs"
  "om_Name (meta_of (with_finalizers fs rv obj)) = om_Name (meta_of obj)"
  "om_Namespace (meta_of (with_finalizers fs rv obj)) = om_Namespace (meta_of obj)"
  "om_DeletionTimestamp (meta_of (with_finalizers fs rv obj)) = om_DeletionTimestamp (meta_of obj)"
  by (simp_all add: with_finalizers_def)

definition lifecycle :: "'w env \<Rightarrow> ('w \<Rightarrow> key \<Rightarrow> kobj option) \<Rightarrow> bool" where
  "lifecycle env objs \<longleftrightarrow>
     (\<forall>s k obj. objs s k = Some obj \<longrightarrow> key_of obj = k)
     \<and> (\<forall>s k ns n. e_api env (GetReq k ns n) s =
          (case objs s (k, ns, n) of None \<Rightarrow> RError (NotFound n) | Some obj \<Rightarrow> RObject obj, s))
     \<and> (\<forall>s k sel. \<exists>xs. e_api env (ListReq k sel) s = (RObjects xs, s)
          \<and> set xs = {obj. objs s (key_of obj) = Some obj \<and> kind_of obj = k \<and> selects sel obj})
     \<and> (\<forall>s obj fs. objs s (key_of obj) = Some obj \<longrightarrow>
          (\<exists>rv x. fst (e_api env (UpdateReq (set_finalizers fs obj)) s) = RObject (with_finalizers fs rv obj)
            \<and> refinalized fs rv obj x
            \<and> objs (snd (e_api env (UpdateReq (set_finalizers fs obj)) s)) = (objs s)(key_of obj := x)))
     \<and> (\<forall>s obj. objs s (key_of obj) = None \<longrightarrow>
          e_api env (UpdateReq obj) s = (RError (NotFound (om_Name (meta_of obj))), s))
     \<and> (\<forall>s k ns n obj. objs s (k, ns, n) = Some obj \<longrightarrow>
          (\<exists>rv x. fst (e_api env (PatchFinalizersNullReq k ns n) s) = RDone
            \<and> refinalized [] rv obj x
            \<and> objs (snd (e_api env (PatchFinalizersNullReq k ns n) s)) = (objs s)((k, ns, n) := x)))
     \<and> (\<forall>s k ns n g obj. objs s (k, ns, n) = Some obj \<longrightarrow>
          (\<exists>x. fst (e_api env (DeleteReq k ns n g) s) = RDone \<and> deleted g obj x
            \<and> objs (snd (e_api env (DeleteReq k ns n g) s)) = (objs s)((k, ns, n) := x)))
     \<and> (\<forall>s k ns n g. objs s (k, ns, n) = None \<longrightarrow>
          e_api env (DeleteReq k ns n g) s = (RError (NotFound n), s)
          \<and> e_api env (PatchFinalizersNullReq k ns n) s = (RError (NotFound n), s))
     \<and> (\<forall>s d. objs (e_sleep env d s) = objs s)"

lemma lifecycleD:
  assumes "lifecycle env objs"
  shows lifecycle_key: "objs s k = Some obj \<Longrightarrow> key_of obj = k"
    and lifecycle_Get: "e_api env (GetReq kd ns n) s =
      (case objs s (kd, ns, n) of None \<Rightarrow> RError (NotFound n) | Some obj \<Rightarrow> RObject obj, s)"
    and lifecycle_List: "\<exists>xs. e_api env (ListReq kd sel) s = (RObjects xs, s)
      \<and> set xs = {obj. objs s (key_of obj) = Some obj \<and> kind_of obj = kd \<and> selects sel obj}"
    and lifecycle_Update: "objs s (key_of obj) = Some obj \<Longrightarrow>
      \<exists>rv x. fst (e_api env (UpdateReq (set_finalizers fs obj)) s) = RObject (with_finalizers fs rv obj)
        \<and> refinalized fs rv obj x
        \<and> objs (snd (e_api env (UpdateReq (set_finalizers fs obj)) s)) = (objs s)(key_of obj := x)"
    and lifecycle_Update_None: "objs s (key_of obj) = None \<Longrightarrow>
      e_api env (UpdateReq obj) s = (RError (NotFound (om_Name (meta_of obj))), s)"
    and lifecycle_Patch: "objs s (kd, ns, n) = Some obj \<Longrightarrow>
      \<exists>rv x. fst (e_api env (PatchFinalizersNullReq kd ns n) s) = RDone \<and> refinalized [] rv obj x
        \<and> objs (snd (e_api env (PatchFinalizersNullReq kd ns n) s)) = (objs s)((kd, ns, n) := x)"
    and lifecycle_Delete: "objs s (kd, ns, n) = Some obj \<Longrightarrow>
      \<exists>x. fst (e_api env (DeleteReq kd ns n g) s) = RDone \<and> deleted g obj x
        \<and> objs (snd (e_api env (DeleteReq kd ns n g) s)) = (objs s)((kd, ns, n) := x)"
    and lifecycle_None: "objs s (kd, ns, n) = None \<Longrightarrow>
      e_api env (DeleteReq kd ns n g) s = (RError (NotFound n), s)
      \<and> e_api env (PatchFinalizersNullReq kd ns n) s = (RError (NotFound n), s)"
    and lifecycle_sleep: "objs (e_sleep env d s) = objs s"
  by (insert assms, unfold lifecycle_def, (elim conjE, metis)+)

section \<open>Weakest preconditions on the store\<close>

text \<open>
  \<open>wp objs m Q st\<close>: run on a server that stores \<open>st\<close>, \<open>m\<close> returns an \<open>x\<close> and leaves a store \<open>st'\<close> with
  \<open>Q x st'\<close>. The history and the timers play no part.
\<close>

type_synonym kstore = "key \<Rightarrow> kobj option"

definition wp :: "('w \<Rightarrow> kstore) \<Rightarrow> ('w, 'a) prog \<Rightarrow> ('a \<Rightarrow> kstore \<Rightarrow> bool) \<Rightarrow> kstore \<Rightarrow> bool" where
  "wp objs m Q st \<longleftrightarrow>
     (\<forall>w :: 'w world. objs (w_srv w) = st \<longrightarrow> Q (fst (run_state m w)) (objs (w_srv (snd (run_state m w)))))"

named_theorems wp_intro \<open>rules for the weakest precondition on the store\<close>

lemma wpD: "wp objs m Q (objs (w_srv w)) \<Longrightarrow> run_state m w = (x, w') \<Longrightarrow> Q x (objs (w_srv w'))"
  by (auto simp: wp_def)

lemma wp_mono: "wp objs m Q st \<Longrightarrow> (\<And>x st'. Q x st' \<Longrightarrow> Q' x st') \<Longrightarrow> wp objs m Q' st"
  by (simp add: wp_def)

lemma wp_ret [wp_intro]: "Q x st \<Longrightarrow> wp objs (ret x) Q st"
  by (simp add: wp_def)

lemma wp_bind [wp_intro]:
  "wp objs m (\<lambda>x. wp objs (f x) Q) st \<Longrightarrow> wp objs (State_Monad.bind m f) Q st"
  by (auto simp: wp_def split: prod.split)

lemma wp_if [wp_intro]:
  "(b \<Longrightarrow> wp objs m Q st) \<Longrightarrow> (\<not> b \<Longrightarrow> wp objs n Q st) \<Longrightarrow> wp objs (if b then m else n) Q st"
  by simp

text \<open>The calls below return constructors, so a case distinction on a result is decided.\<close>

lemma wp_case_result [wp_intro]:
  "wp objs (f e) Q st \<Longrightarrow> wp objs (case Inl e of Inl e \<Rightarrow> f e | Inr x \<Rightarrow> g x) Q st"
  "wp objs (g x) Q st \<Longrightarrow> wp objs (case Inr x of Inl e \<Rightarrow> f e | Inr x \<Rightarrow> g x) Q st"
  "wp objs n Q st \<Longrightarrow> wp objs (case None of None \<Rightarrow> n | Some x \<Rightarrow> h x) Q st"
  "wp objs (h y) Q st \<Longrightarrow> wp objs (case Some y of None \<Rightarrow> n | Some x \<Rightarrow> h x) Q st"
  by simp_all

lemma wp_bindE [wp_intro]:
  "wp objs m (\<lambda>r. wp objs (case r of Inl e \<Rightarrow> ret (Inl e) | Inr x \<Rightarrow> f x) Q) st \<Longrightarrow> wp objs (bindE m f) Q st"
  unfolding bindE_def by (rule wp_bind)

lemma wp_case_option:
  "(r = None \<Longrightarrow> wp objs n Q st) \<Longrightarrow> (\<And>x. r = Some x \<Longrightarrow> wp objs (g x) Q st)
     \<Longrightarrow> wp objs (case r of None \<Rightarrow> n | Some x \<Rightarrow> g x) Q st"
  by (simp split: option.split)

lemma wp_Let [wp_intro]: "(\<And>x. x = t \<Longrightarrow> wp objs (f x) Q st) \<Longrightarrow> wp objs (Let t f) Q st"
  by simp

lemma wp_time_Now [wp_intro]: "(\<And>t. Q t st) \<Longrightarrow> wp objs (time_Now env) Q st"
  by (simp add: wp_def time_Now_def)

lemma wp_Sleep: "lifecycle env objs \<Longrightarrow> Q () st \<Longrightarrow> wp objs (time_Sleep env d) Q st"
  by (auto simp: wp_def time_Sleep_def lifecycle_sleep)

text \<open>Every store on the way holds its objects under their keys.\<close>

lemma wp_keys:
  assumes "lifecycle env objs" and "(\<And>k obj. st k = Some obj \<Longrightarrow> key_of obj = k) \<Longrightarrow> wp objs m Q st"
  shows "wp objs m Q st"
  using assms lifecycle_key unfolding wp_def by metis

section \<open>The client\<close>

lemma wp_Get:
  fixes env :: "'w env" and objs :: "'w \<Rightarrow> kstore"
  assumes "lifecycle env objs"
    and "st (k, ns, n) = None \<Longrightarrow> Q (Inl (NotFound n)) st"
    and "\<And>obj. st (k, ns, n) = Some obj \<Longrightarrow> kind_of obj = k \<Longrightarrow> key_of obj = (k, ns, n) \<Longrightarrow> Q (as_object dec (RObject obj)) st"
  shows "wp objs (Get_as dec env k ns n) Q st"
proof (rule wp_keys [OF assms(1)])
  assume keys: "\<And>k obj. st k = Some obj \<Longrightarrow> key_of obj = k"
  show ?thesis
  proof (cases "st (k, ns, n)")
    case None
    with assms(2) show ?thesis
      by (auto simp: wp_def Get_as_def run_api_call lifecycle_Get [OF assms(1)] as_object_def)
  next
    case (Some obj)
    with keys [OF Some] assms(3) show ?thesis
      by (auto simp: wp_def Get_as_def run_api_call lifecycle_Get [OF assms(1)] key_of_def)
  qed
qed

lemma those_decoded: "(\<And>obj. obj \<in> set objs \<Longrightarrow> \<exists>x. dec obj = Some x) \<Longrightarrow> those (map dec objs) = Some (map (the \<circ> dec) objs)"
  by (induction objs) fastforce+

lemma wp_List:
  fixes env :: "'w env" and objs :: "'w \<Rightarrow> kstore"
  assumes "lifecycle env objs" and dec: "\<And>obj. kind_of obj = k \<Longrightarrow> \<exists>x. dec obj = Some x \<and> enc x = obj"
    and "\<And>xs. enc ` set xs = {obj. st (key_of obj) = Some obj \<and> kind_of obj = k \<and> selects sel obj} \<Longrightarrow> Q (Inr xs) st"
  shows "wp objs (List_as dec env k sel) Q st"
  unfolding wp_def
proof (intro allI impI)
  fix w :: "'w world" assume st: "objs (w_srv w) = st"
  obtain os where os: "e_api env (ListReq k sel) (w_srv w) = (RObjects os, w_srv w)"
      "set os = {obj. st (key_of obj) = Some obj \<and> kind_of obj = k \<and> selects sel obj}"
    using lifecycle_List [OF assms(1)] st by metis
  have "\<exists>x. dec obj = Some x" if "obj \<in> set os" for obj
    using that os(2) dec by blast
  then have those: "those (map dec os) = Some (map (the \<circ> dec) os)"
    by (rule those_decoded)
  have "enc (the (dec obj)) = obj" if "obj \<in> set os" for obj
    using that os(2) dec [of obj] by force
  then have "enc ` set (map (the \<circ> dec) os) = set os"
    by (force simp: image_iff)
  with os(2) assms(3) have "Q (Inr (map (the \<circ> dec) os)) st" by simp
  with those st os(1) show "Q (fst (run_state (List_as dec env k sel) w)) (objs (w_srv (snd (run_state (List_as dec env k sel) w))))"
    by (simp add: List_as_def run_api_call as_list_def)
qed

lemma kind_constructors:
  "kind_of obj = KPod \<Longrightarrow> \<exists>x. the_pod obj = Some x \<and> OPod x = obj"
  "kind_of obj = KPersistentVolume \<Longrightarrow> \<exists>x. the_pv obj = Some x \<and> OPersistentVolume x = obj"
  "kind_of obj = KPersistentVolumeClaim \<Longrightarrow> \<exists>x. the_pvc obj = Some x \<and> OPersistentVolumeClaim x = obj"
  "kind_of obj = KReplicaSet \<Longrightarrow> \<exists>x. the_rs obj = Some x \<and> OReplicaSet x = obj"
  "kind_of obj = KService \<Longrightarrow> \<exists>x. the_svc obj = Some x \<and> OService x = obj"
  "kind_of obj = KNfsServer \<Longrightarrow> \<exists>x. the_nfs obj = Some x \<and> ONfsServer x = obj"
  by (cases obj; simp)+

lemmas wp_ListPods = wp_List [where dec = the_pod and enc = OPod, OF _ kind_constructors(1)]
lemmas wp_ListPVs = wp_List [where dec = the_pv and enc = OPersistentVolume, OF _ kind_constructors(2)]
lemmas wp_ListPVCs = wp_List [where dec = the_pvc and enc = OPersistentVolumeClaim, OF _ kind_constructors(3)]

text \<open>A stored object is decoded into the type of its kind.\<close>

lemma wp_Get_typed:
  assumes "lifecycle env objs" and "\<And>obj. kind_of obj = k \<Longrightarrow> \<exists>x. dec obj = Some x \<and> enc x = obj"
    and "st (k, ns, n) = None \<Longrightarrow> Q (Inl (NotFound n)) st"
    and "\<And>x. st (k, ns, n) = Some (enc x) \<Longrightarrow> key_of (enc x) = (k, ns, n) \<Longrightarrow> Q (Inr x) st"
  shows "wp objs (Get_as dec env k ns n) Q st"
proof (rule wp_Get [OF assms(1)])
  fix obj assume obj: "st (k, ns, n) = Some obj" "kind_of obj = k" "key_of obj = (k, ns, n)"
  then obtain x where "dec obj = Some x" "enc x = obj"
    using assms(2) by blast
  with obj assms(4) show "Q (as_object dec (RObject obj)) st"
    by (auto simp: as_object_def)
qed (rule assms(3))

lemmas wp_GetPod = wp_Get_typed [where dec = the_pod and enc = OPod, OF _ kind_constructors(1)]
lemmas wp_GetPV = wp_Get_typed [where dec = the_pv and enc = OPersistentVolume, OF _ kind_constructors(2)]
lemmas wp_GetPVC = wp_Get_typed [where dec = the_pvc and enc = OPersistentVolumeClaim, OF _ kind_constructors(3)]
lemmas wp_GetReplicaSet = wp_Get_typed [where dec = the_rs and enc = OReplicaSet, OF _ kind_constructors(4)]
lemmas wp_GetService = wp_Get_typed [where dec = the_svc and enc = OService, OF _ kind_constructors(5)]
lemmas wp_GetNfsServer = wp_Get_typed [where dec = the_nfs and enc = ONfsServer, OF _ kind_constructors(6)]

lemma the_kind_self: "kind_of obj = k \<Longrightarrow> \<exists>x. the_kind k obj = Some x \<and> id x = obj"
  by simp

lemmas wp_GetObject = wp_Get_typed [where dec = "the_kind k" and k = k and enc = id for k, OF _ the_kind_self, unfolded id_apply]

text \<open>Updates of the finalizers, the patch that sets them to null, and deletion.\<close>

lemma wp_Update:
  fixes env :: "'w env" and objs :: "'w \<Rightarrow> kstore"
  assumes "lifecycle env objs" and "obj = set_finalizers fs cur" and "st (key_of cur) = Some cur"
    and "\<And>rv x. refinalized fs rv cur x \<Longrightarrow> Q (Inr (with_finalizers fs rv cur)) (st(key_of cur := x))"
  shows "wp objs (Update env obj) Q st"
  unfolding wp_def
proof (intro allI impI)
  fix w :: "'w world" assume st: "objs (w_srv w) = st"
  obtain rv x where "fst (e_api env (UpdateReq obj) (w_srv w)) = RObject (with_finalizers fs rv cur)"
      "refinalized fs rv cur x" "objs (snd (e_api env (UpdateReq obj) (w_srv w))) = st(key_of cur := x)"
    using lifecycle_Update [OF assms(1)] assms(2,3) st by metis
  then show "Q (fst (run_state (Update env obj) w)) (objs (w_srv (snd (run_state (Update env obj) w))))"
    using assms(4) by (simp add: Update_def run_api_call as_object_def with_finalizers_def the_kind_def assms(2))
qed

lemma wp_Update_None:
  fixes env :: "'w env" and objs :: "'w \<Rightarrow> kstore"
  assumes "lifecycle env objs" and "st (key_of obj) = None" and "\<And>n. Q (Inl (NotFound n)) st"
  shows "wp objs (Update env obj) Q st"
  unfolding wp_def using assms lifecycle_Update_None [OF assms(1)]
  by (auto simp: Update_def run_api_call as_object_def)

lemma wp_Patch:
  fixes env :: "'w env" and objs :: "'w \<Rightarrow> kstore"
  assumes "lifecycle env objs" and "st (k, ns, n) = None \<Longrightarrow> Q (Inl (NotFound n)) st"
    and "\<And>cur rv x. st (k, ns, n) = Some cur \<Longrightarrow> refinalized [] rv cur x \<Longrightarrow> Q (Inr ()) (st((k, ns, n) := x))"
  shows "wp objs (PatchFinalizersNull env k ns n) Q st"
  unfolding wp_def
proof (intro allI impI)
  fix w :: "'w world" assume st: "objs (w_srv w) = st"
  show "Q (fst (run_state (PatchFinalizersNull env k ns n) w)) (objs (w_srv (snd (run_state (PatchFinalizersNull env k ns n) w))))"
  proof (cases "st (k, ns, n)")
    case None
    with st lifecycle_None [OF assms(1)] assms(2) show ?thesis
      by (simp add: PatchFinalizersNull_def run_api_call as_done_def)
  next
    case (Some cur)
    with st lifecycle_Patch [OF assms(1), of "w_srv w" k ns n cur] assms(3) show ?thesis
      by (auto simp: PatchFinalizersNull_def run_api_call as_done_def)
  qed
qed

definition delete_request :: "'w env \<Rightarrow> int option \<Rightarrow> kobj \<Rightarrow> ('w, error + unit) prog" where
  "delete_request env g obj = (if g = None then Delete env obj else DeleteNow env obj)"

lemma wp_delete_request:
  fixes env :: "'w env" and objs :: "'w \<Rightarrow> kstore"
  assumes "lifecycle env objs" and "g = None \<or> g = Some 0" and "key_of obj = k" and "st k = None \<Longrightarrow> Q (Inl (NotFound (snd (snd k)))) st"
    and "\<And>cur x. st k = Some cur \<Longrightarrow> kind_of cur = fst k \<Longrightarrow> deleted g cur x \<Longrightarrow> Q (Inr ()) (st(k := x))"
  shows "wp objs (delete_request env g obj) Q st"
proof (rule wp_keys [OF assms(1)], unfold wp_def, intro allI impI)
  fix w :: "'w world" assume st: "objs (w_srv w) = st" and keys: "\<And>k obj. st k = Some obj \<Longrightarrow> key_of obj = k"
  have run: "run_state (delete_request env g obj) w =
      (as_done (fst (e_api env (DeleteReq (fst k) (fst (snd k)) (snd (snd k)) g) (w_srv w))),
       snd (run_state (api_call env (DeleteReq (fst k) (fst (snd k)) (snd (snd k)) g)) w))"
    using assms(2,3) by (auto simp: delete_request_def Delete_def DeleteNow_def run_api_call key_of_def)
  show "Q (fst (run_state (delete_request env g obj) w)) (objs (w_srv (snd (run_state (delete_request env g obj) w))))"
  proof (cases "st k")
    case None
    with lifecycle_None [OF assms(1), of "w_srv w" "fst k" "fst (snd k)" "snd (snd k)" g] assms(4) st show ?thesis
      unfolding run by (simp add: run_api_call as_done_def)
  next
    case (Some cur)
    with lifecycle_Delete [OF assms(1), of "w_srv w" "fst k" "fst (snd k)" "snd (snd k)" cur g] st obtain x where
      "fst (e_api env (DeleteReq (fst k) (fst (snd k)) (snd (snd k)) g) (w_srv w)) = RDone" "deleted g cur x"
      "objs (snd (e_api env (DeleteReq (fst k) (fst (snd k)) (snd (snd k)) g) (w_srv w))) = st(k := x)"
      by auto
    with assms(5) [OF Some] keys [OF Some] show ?thesis
      unfolding run by (auto simp: run_api_call as_done_def key_of_def)
  qed
qed

lemma wp_Delete:
  assumes "lifecycle env objs" and "key_of obj = k" and "st k = None \<Longrightarrow> Q (Inl (NotFound (snd (snd k)))) st"
    and "\<And>cur x. st k = Some cur \<Longrightarrow> kind_of cur = fst k \<Longrightarrow> deleted None cur x \<Longrightarrow> Q (Inr ()) (st(k := x))"
  shows "wp objs (Delete env obj) Q st"
  using wp_delete_request [OF assms(1), of None obj k st Q] assms(2-4) by (auto simp: delete_request_def)

lemma wp_DeleteNow:
  assumes "lifecycle env objs" and "key_of obj = k" and "st k = None \<Longrightarrow> Q (Inl (NotFound (snd (snd k)))) st"
    and "\<And>cur x. st k = Some cur \<Longrightarrow> kind_of cur = fst k \<Longrightarrow> deleted (Some 0) cur x \<Longrightarrow> Q (Inr ()) (st(k := x))"
  shows "wp objs (DeleteNow env obj) Q st"
  using wp_delete_request [OF assms(1), of "Some 0" obj k st Q] assms(2-4) by (auto simp: delete_request_def)

text \<open>Persistent volumes have no namespace.\<close>

definition cluster_scoped :: "('w \<Rightarrow> kstore) \<Rightarrow> bool" where
  "cluster_scoped objs \<longleftrightarrow> (\<forall>s ns n. objs s (KPersistentVolume, ns, n) \<noteq> None \<longrightarrow> ns = [])"

lemma wp_scoped:
  assumes "cluster_scoped objs" and "(\<And>ns n. st (KPersistentVolume, ns, n) \<noteq> None \<Longrightarrow> ns = []) \<Longrightarrow> wp objs m Q st"
  shows "wp objs m Q st"
  using assms unfolding wp_def cluster_scoped_def by metis

section \<open>A server with the life cycle\<close>

text \<open>A list of objects; persistent volumes with a namespace are not seen.\<close>

definition life_objs :: "store \<Rightarrow> key \<Rightarrow> kobj option" where
  "life_objs st k = (if fst k = KPersistentVolume \<and> fst (snd k) \<noteq> [] then None else store_objs st k)"

fun put :: "key \<Rightarrow> kobj option \<Rightarrow> store \<Rightarrow> store" where
  "put k None st = filter (\<lambda>y. key_of y \<noteq> k) st"
| "put k (Some obj) st = map (\<lambda>y. if key_of y = k then obj else y) st"

definition settle :: "kobj \<Rightarrow> kobj option" where
  "settle obj = (if om_Finalizers (meta_of obj) = [] \<and> om_DeletionTimestamp (meta_of obj) \<noteq> None then None else Some obj)"

definition on_stored :: "key \<Rightarrow> (kobj \<Rightarrow> response \<times> kobj option) \<Rightarrow> store \<Rightarrow> response \<times> store" where
  "on_stored k f st = (case life_objs st k of
     None \<Rightarrow> (RError (NotFound (snd (snd k))), st)
   | Some cur \<Rightarrow> let (rp, x) = f cur in (rp, put k x st))"

fun life_api :: "request \<Rightarrow> store \<Rightarrow> response \<times> store" where
  "life_api (GetReq k ns n) st =
     (case life_objs st (k, ns, n) of None \<Rightarrow> RError (NotFound n) | Some obj \<Rightarrow> RObject obj, st)"
| "life_api (ListReq k sel) st =
     (RObjects (filter (\<lambda>obj. life_objs st (key_of obj) = Some obj \<and> kind_of obj = k \<and> selects sel obj) st), st)"
| "life_api (UpdateReq obj) st = on_stored (key_of obj) (\<lambda>cur. (RObject obj, settle obj)) st"
| "life_api (DeleteReq k ns n g) st =
     on_stored (k, ns, n) (\<lambda>cur. (RDone, settle (map_meta (\<lambda>m. m\<lparr>om_DeletionTimestamp := Some 0\<rparr>) cur))) st"
| "life_api (PatchFinalizersNullReq k ns n) st =
     on_stored (k, ns, n) (\<lambda>cur. (RDone, settle (set_finalizers [] cur))) st"
| "life_api rq st = store_api rq st"

definition life_env :: "store env" where
  "life_env = store_env\<lparr>e_api := life_api\<rparr>"

lemma store_objs_key: "store_objs st k = Some obj \<Longrightarrow> key_of obj = k"
  by (auto simp: store_objs_find find_Some_iff)

lemma find_put_Some: "key_of obj = k \<Longrightarrow> find (\<lambda>y. key_of y = k') (map (\<lambda>y. if key_of y = k then obj else y) st) =
    (if k' = k then if find (\<lambda>y. key_of y = k) st = None then None else Some obj else find (\<lambda>y. key_of y = k') st)"
  by (induction st) auto

lemma find_put: "find (\<lambda>y. key_of y = k) st \<noteq> None \<Longrightarrow> (\<And>obj. x = Some obj \<Longrightarrow> key_of obj = k)
    \<Longrightarrow> find (\<lambda>y. key_of y = k') (put k x st) = (if k' = k then x else find (\<lambda>y. key_of y = k') st)"
  by (cases x) (auto simp: find_filter_key find_put_Some)

lemma life_objs_put:
  assumes "life_objs st k \<noteq> None" and "\<And>obj. x = Some obj \<Longrightarrow> key_of obj = k"
  shows "life_objs (put k x st) = (life_objs st)(k := x)"
proof
  fix k'
  have "find (\<lambda>y. key_of y = k) st \<noteq> None"
    using assms(1) by (auto simp: life_objs_def store_objs_find split: if_splits)
  with assms show "life_objs (put k x st) k' = ((life_objs st)(k := x)) k'"
    by (auto simp: life_objs_def store_objs_find find_put split: if_splits)
qed

lemma settle_key: "settle obj = Some obj' \<Longrightarrow> obj' = obj"
  by (auto simp: settle_def split: if_splits)

lemma on_stored_cases:
  "life_objs st k = None \<Longrightarrow> on_stored k f st = (RError (NotFound (snd (snd k))), st)"
  "life_objs st k = Some cur \<Longrightarrow> on_stored k f st = (fst (f cur), put k (snd (f cur)) st)"
  by (simp_all add: on_stored_def split_beta)

lemma set_finalizers_with: "set_finalizers fs obj = with_finalizers fs (om_ResourceVersion (meta_of obj)) obj"
  by (cases obj) (simp_all add: set_finalizers_def with_finalizers_def)

lemma settle_finalizers: "refinalized fs (om_ResourceVersion (meta_of obj)) obj (settle (set_finalizers fs obj))"
  by (simp add: refinalized_def settle_def set_finalizers_with)

lemma settle_deleted: "deleted g obj (settle (map_meta (\<lambda>m. m\<lparr>om_DeletionTimestamp := Some 0\<rparr>) obj))"
proof -
  have "map_meta (\<lambda>m. m\<lparr>om_DeletionTimestamp := Some 0\<rparr>) obj
      = map_meta (\<lambda>m. m\<lparr>om_DeletionTimestamp := Some 0, om_ResourceVersion := om_ResourceVersion (meta_of obj)\<rparr>) obj"
    by (cases obj) simp_all
  then have "marked obj (map_meta (\<lambda>m. m\<lparr>om_DeletionTimestamp := Some 0\<rparr>) obj)"
    unfolding marked_def by blast
  then show ?thesis
    by (simp add: deleted_def settle_def)
qed

lemma key_of_meta [simp]:
  "key_of (set_finalizers fs obj) = key_of obj" "key_of (map_meta (\<lambda>m. m\<lparr>om_DeletionTimestamp := t\<rparr>) obj) = key_of obj"
  by (simp_all add: key_of_def)

lemma life_objs_key: "life_objs st k = Some obj \<Longrightarrow> key_of obj = k"
  by (auto simp: life_objs_def store_objs_key split: if_splits)

lemma life_put:
  assumes "life_objs st k = Some cur" and "key_of obj = k"
  shows "life_objs (put k (settle obj) st) = (life_objs st)(k := settle obj)"
  by (rule life_objs_put) (use assms in \<open>auto dest: settle_key\<close>)

lemma life_listed: "life_objs st (key_of obj) = Some obj \<Longrightarrow> obj \<in> set st"
  by (auto simp: life_objs_def store_objs_find find_Some_iff split: if_splits)

lemma life_lifecycle: "lifecycle life_env life_objs"
proof -
  have api: "e_api life_env = life_api" "e_sleep life_env = (\<lambda>d st. st)"
    by (simp_all add: life_env_def store_env_def)
  have upd: "life_api (UpdateReq (set_finalizers fs obj)) st
      = (RObject (set_finalizers fs obj), put (key_of obj) (settle (set_finalizers fs obj)) st)"
    if "life_objs st (key_of obj) = Some obj" for st fs obj
    using that by (simp add: on_stored_cases)
  have rest: "life_api (DeleteReq k ns n g) st = (RDone, put (k, ns, n) (settle (map_meta (\<lambda>m. m\<lparr>om_DeletionTimestamp := Some 0\<rparr>) obj)) st)"
    "life_api (PatchFinalizersNullReq k ns n) st = (RDone, put (k, ns, n) (settle (set_finalizers [] obj)) st)"
    if "life_objs st (k, ns, n) = Some obj" for st k ns n g obj
    using that by (simp_all add: on_stored_cases)
  show ?thesis
    unfolding lifecycle_def api
  proof (intro conjI allI impI, goal_cases)
    case (3 st k sel)
    show ?case by (auto simp: life_listed)
  next
    case (4 st obj fs)
    then show ?case
      unfolding upd [OF 4] using settle_finalizers [of fs obj] life_put [OF 4, of "set_finalizers fs obj"]
      by (intro exI [of _ "om_ResourceVersion (meta_of obj)"] exI [of _ "settle (set_finalizers fs obj)"])
         (simp add: set_finalizers_with [symmetric])
  next
    case (6 st k ns n obj)
    then show ?case
      unfolding rest(2) [OF 6] using settle_finalizers [of "[]" obj] life_put [OF 6, of "set_finalizers [] obj"] life_objs_key [OF 6]
      by auto
  next
    case (7 st k ns n g obj)
    then show ?case
      unfolding rest(1) [OF 7] using settle_deleted [of g obj] life_put [OF 7] life_objs_key [OF 7]
      by auto
  qed (auto simp: life_objs_key on_stored_cases, simp add: key_of_def)
qed

lemma life_cluster_scoped: "cluster_scoped life_objs"
  by (simp add: cluster_scoped_def life_objs_def)

end
