(* ===== verification/Deletion.thy ===== *)
theory Deletion
  imports Lifecycle
begin

text \<open>
  What the deletion of a volume leaves behind on a server with the documented life cycle of
  objects (Lifecycle): each forced deletion removes its object, finalizers or not; each pass of the
  cleanup removes the objects it is for and nothing else; and one reconciliation of a volume under
  deletion takes away the volume and what was made for it.
\<close>

section \<open>Forced deletion removes an object\<close>

text \<open>Finalizers off first, then deletion: gone, unless it is a pod in its grace period.\<close>

lemma deleted_bare: "deleted g obj x \<Longrightarrow> om_Finalizers (meta_of obj) = [] \<Longrightarrow> kind_of obj \<noteq> KPod \<or> g = Some 0 \<Longrightarrow> x = None"
  by (auto simp: deleted_def split: option.splits)

lemma refinalized_marked:
  "refinalized [] rv obj x \<Longrightarrow> om_DeletionTimestamp (meta_of obj) \<noteq> None \<Longrightarrow> kind_of obj \<noteq> KPod \<Longrightarrow> x = None"
  by (auto simp: refinalized_def split: option.splits)

lemma deleted_kept:
  "deleted g obj (Some obj') \<Longrightarrow> marked obj obj' \<and> om_DeletionTimestamp (meta_of obj') \<noteq> None
     \<and> om_Finalizers (meta_of obj') = om_Finalizers (meta_of obj) \<and> kind_of obj' = kind_of obj
     \<and> (kind_of obj \<noteq> KPod \<longrightarrow> om_Finalizers (meta_of obj) \<noteq> [])"
  by (auto simp: deleted_def dest: marked_fields)

lemma refinalized_kept:
  "refinalized fs rv obj (Some obj') \<Longrightarrow> om_Finalizers (meta_of obj') = fs \<and> kind_of obj' = kind_of obj
     \<and> om_DeletionTimestamp (meta_of obj') = om_DeletionTimestamp (meta_of obj)"
  by (auto simp: refinalized_def)

lemmas deletion_dests = deleted_bare deleted_kept refinalized_kept refinalized_marked

lemma wp_strip_pvc:
  assumes "lifecycle env objs" and "key_of (OPersistentVolumeClaim pvc) = k"
    and "st k = None \<Longrightarrow> Q (Inr ()) st"
    and "\<And>cur rv x. st k = Some cur \<Longrightarrow> kind_of cur = fst k \<Longrightarrow> refinalized [] rv cur x \<Longrightarrow> Q (Inr ()) (st(k := x))"
  shows "wp objs (RemovePVCFinalizersWithRetry env pvc) Q st"
  unfolding RemovePVCFinalizersWithRetry_def
  by (subst strip_pvc_loop.simps, unfold strip_pvc_once_def,
      intro wp_intro wp_GetPVC [OF assms(1)] wp_Update [OF assms(1) HOL.refl])
     (use assms(2-4) in \<open>auto simp: key_of_def\<close>)

lemma wp_strip:
  assumes "lifecycle env objs"
    and "\<And>cur. st (kd, ns, n) = None \<or> st (kd, ns, n) = Some cur \<and> om_Finalizers (meta_of cur) = [] \<Longrightarrow> Q (Inr ()) st"
    and "\<And>cur rv x. st (kd, ns, n) = Some cur \<Longrightarrow> kind_of cur = kd \<Longrightarrow> refinalized [] rv cur x \<Longrightarrow> Q (Inr ()) (st((kd, ns, n) := x))"
  shows "wp objs (strip_loop env kd ns n 0) Q st"
  by (subst strip_loop.simps, unfold strip_once_def,
      intro wp_intro wp_GetObject [OF assms(1)] wp_Update [OF assms(1) HOL.refl])
     (use assms(2-3) in \<open>auto simp: key_of_def\<close>)

text \<open>The three forced deletions.\<close>

lemma wp_ForceDeletePVC:
  assumes "lifecycle env objs"
  shows "wp objs (ForceDeletePVC env pvc) (\<lambda>_ st'. st' = st(key_of (OPersistentVolumeClaim pvc) := None)) st"
  unfolding ForceDeletePVC_def
  by (intro wp_intro wp_strip_pvc [OF assms HOL.refl] wp_Delete [OF assms HOL.refl] wp_GetPVC [OF assms])
     (auto simp: key_of_def dest!: deletion_dests)

lemma wp_ForceDeletePV:
  assumes "lifecycle env objs" and "om_Namespace (pv_Meta pv) = []"
  shows "wp objs (ForceDeletePV env pv) (\<lambda>_ st'. st' = st(key_of (OPersistentVolume pv) := None)) st"
  unfolding ForceDeletePV_def RemovePVFinalizersWithRetry_def forceRemovePVFinalizersWithPatch_def
    force_remove_finalizers_with_patch_def
  by (intro wp_intro wp_strip [OF assms(1)] wp_Delete [OF assms(1) HOL.refl] wp_GetPV [OF assms(1)]
      wp_Sleep [OF assms(1)] wp_Patch [OF assms(1)])
     (auto simp: key_of_def assms(2) dest!: deletion_dests)

lemma wp_ForceDeletePod:
  assumes "lifecycle env objs"
  shows "wp objs (ForceDeletePod env pod) (\<lambda>_ st'. st' = st(key_of (OPod pod) := None)) st"
  unfolding ForceDeletePod_def
  by (intro wp_intro wp_Delete [OF assms HOL.refl] wp_GetPod [OF assms]
      wp_Sleep [OF assms] wp_Update [OF assms HOL.refl] wp_DeleteNow [OF assms HOL.refl])
     (auto simp: key_of_def dest!: deletion_dests)

section \<open>Passes\<close>

text \<open>\<open>sweep P st\<close>: the store without the objects in \<open>P\<close>.\<close>

definition sweep :: "(kobj \<Rightarrow> bool) \<Rightarrow> kstore \<Rightarrow> kstore" where
  "sweep P st = (\<lambda>k. case st k of None \<Rightarrow> None | Some obj \<Rightarrow> if P obj then None else Some obj)"

lemma sweep_False [simp]: "sweep (\<lambda>_. False) st = st"
  by (auto simp: sweep_def fun_eq_iff split: option.split)

lemma sweep_sweep: "sweep P (sweep R st) = sweep (\<lambda>obj. R obj \<or> P obj) st"
  by (auto simp: sweep_def fun_eq_iff split: option.split)

lemma sweep_cong: "(\<And>k obj. st k = Some obj \<Longrightarrow> P obj \<longleftrightarrow> R obj) \<Longrightarrow> sweep P st = sweep R st"
  by (auto simp: sweep_def fun_eq_iff split: option.split)

lemma sweep_one:
  assumes "\<And>k obj. st k = Some obj \<Longrightarrow> key_of obj = k" and "st (key_of x) = None \<or> st (key_of x) = Some x"
  shows "st(key_of x := None) = sweep (\<lambda>obj. obj = x) st"
  using assms by (fastforce simp: sweep_def fun_eq_iff split: option.split)

lemma sweep_key:
  assumes "\<And>k obj. st k = Some obj \<Longrightarrow> key_of obj = k"
  shows "st(k := None) = sweep (\<lambda>obj. key_of obj = k) st"
  using assms by (fastforce simp: sweep_def fun_eq_iff split: option.split)

text \<open>A loop over listed objects, each round of which removes its object or leaves the store alone.\<close>

lemma wp_for_each_sweeps:
  assumes laws: "lifecycle env objs"
    and body: "\<And>x st. x \<in> set xs \<Longrightarrow> st (key_of (enc x)) = None \<or> st (key_of (enc x)) = Some (enc x)
      \<Longrightarrow> wp objs (body x) (\<lambda>_ st'. st' = (if Q x then st(key_of (enc x) := None) else st)) st"
    and "\<And>x. x \<in> set xs \<Longrightarrow> st (key_of (enc x)) = None \<or> st (key_of (enc x)) = Some (enc x)"
  shows "wp objs (for_each xs body) (\<lambda>_ st'. st' = sweep (\<lambda>obj. \<exists>x \<in> set xs. Q x \<and> obj = enc x) st) st"
  using body assms(3)
proof (induction xs arbitrary: st)
  case Nil
  show ?case by (auto intro: wp_ret)
next
  case (Cons y ys)
  show ?case
  proof (rule wp_keys [OF laws])
    assume keys: "\<And>k obj. st k = Some obj \<Longrightarrow> key_of obj = k"
    have y: "(if Q y then st(key_of (enc y) := None) else st) = sweep (\<lambda>obj. Q y \<and> obj = enc y) st" (is "_ = ?st")
      using sweep_one [OF keys] Cons.prems(2) by auto
    have "wp objs (for_each ys body) (\<lambda>_ st'. st' = sweep (\<lambda>obj. \<exists>x \<in> set ys. Q x \<and> obj = enc x) ?st) ?st"
    proof (rule Cons.IH [OF Cons.prems(1)])
      show "?st (key_of (enc x)) = None \<or> ?st (key_of (enc x)) = Some (enc x)" if "x \<in> set ys" for x
        using Cons.prems(2) [of x] that by (auto simp: sweep_def split: option.split)
    qed auto
    then have "wp objs (for_each ys body) (\<lambda>_ st'. st' = sweep (\<lambda>obj. \<exists>x \<in> set (y # ys). Q x \<and> obj = enc x) st) ?st"
      by (rule wp_mono) (auto simp: sweep_sweep intro: sweep_cong)
    then show "wp objs (for_each (y # ys) body) (\<lambda>_ st'. st' = sweep (\<lambda>obj. \<exists>x \<in> set (y # ys). Q x \<and> obj = enc x) st) st"
      using Cons.prems(1) [of y st] Cons.prems(2) [of y] y
      by (auto intro!: wp_bind elim: wp_mono)
  qed
qed

text \<open>The same over a list of all stored objects of a kind and selection.\<close>

lemma wp_listed_sweeps:
  assumes "lifecycle env objs"
    and "enc ` set xs = {obj. st (key_of obj) = Some obj \<and> kind_of obj = k \<and> selects sel obj}"
    and "\<And>x st. x \<in> set xs \<Longrightarrow> st (key_of (enc x)) = None \<or> st (key_of (enc x)) = Some (enc x)
      \<Longrightarrow> wp objs (body x) (\<lambda>_ st'. st' = (if P (enc x) then st(key_of (enc x) := None) else st)) st"
  shows "wp objs (for_each xs body) (\<lambda>_ st'. st' = sweep (\<lambda>obj. kind_of obj = k \<and> selects sel obj \<and> P obj) st) st"
proof (rule wp_keys [OF assms(1)])
  assume keys: "\<And>k obj. st k = Some obj \<Longrightarrow> key_of obj = k"
  have "wp objs (for_each xs body) (\<lambda>_ st'. st' = sweep (\<lambda>obj. \<exists>x \<in> set xs. P (enc x) \<and> obj = enc x) st) st"
    by (rule wp_for_each_sweeps [OF assms(1,3)]) (use assms(2) in auto)
  moreover have "sweep (\<lambda>obj. \<exists>x \<in> set xs. P (enc x) \<and> obj = enc x) st
      = sweep (\<lambda>obj. kind_of obj = k \<and> selects sel obj \<and> P obj) st"
  proof (rule sweep_cong)
    fix kk obj assume "st kk = Some obj"
    then have "obj \<in> enc ` set xs \<longleftrightarrow> kind_of obj = k \<and> selects sel obj"
      using keys assms(2) by auto
    then show "(\<exists>x \<in> set xs. P (enc x) \<and> obj = enc x) \<longleftrightarrow> kind_of obj = k \<and> selects sel obj \<and> P obj"
      by auto
  qed
  ultimately show ?thesis by simp
qed

text \<open>
  \<open>left_by R D st st'\<close>: from \<open>st\<close> to \<open>st'\<close> the objects in \<open>R\<close> have gone, the deletion of those in \<open>D\<close> has been
  asked for once (gone, or marked if they carry finalizers), and all others are as they were.
\<close>

definition left_by :: "(kobj \<Rightarrow> bool) \<Rightarrow> (kobj \<Rightarrow> bool) \<Rightarrow> kstore \<Rightarrow> kstore \<Rightarrow> bool" where
  "left_by R D st st' \<longleftrightarrow> (\<forall>k. case st k of
     None \<Rightarrow> st' k = None
   | Some obj \<Rightarrow> if R obj then st' k = None else if D obj then deleted None obj (st' k) else st' k = Some obj)"

lemma left_by_refl: "left_by (\<lambda>_. False) (\<lambda>_. False) st st"
  by (simp add: left_by_def split: option.split)

lemma left_by_sweep: "left_by P (\<lambda>_. False) st (sweep P st)"
  by (simp add: left_by_def sweep_def split: option.split)

lemma left_by_cong:
  "left_by R D st st' \<Longrightarrow> (\<And>obj. R obj = R' obj) \<Longrightarrow> (\<And>obj. D obj = D' obj) \<Longrightarrow> left_by R' D' st st'"
proof -
  assume "left_by R D st st'" "\<And>obj. R obj = R' obj" "\<And>obj. D obj = D' obj"
  moreover from this(2,3) have "R = R'" "D = D'" by (auto simp: fun_eq_iff)
  ultimately show ?thesis by simp
qed

lemma left_by_cong_stored:
  assumes "left_by R D st st'" and "\<And>k obj. st k = Some obj \<Longrightarrow> R obj = R' obj" and "\<And>obj. D obj = D' obj"
  shows "left_by R' D' st st'"
  unfolding left_by_def
proof
  fix k
  show "case st k of None \<Rightarrow> st' k = None
      | Some obj \<Rightarrow> if R' obj then st' k = None else if D' obj then deleted None obj (st' k) else st' k = Some obj"
    using assms(1) [unfolded left_by_def, rule_format, of k] assms(2) [of k] assms(3) by (cases "st k") auto
qed

lemma left_by_trans:
  assumes "left_by R D st st1" and "left_by R' D' st1 st2"
    and "\<And>x y. D x \<Longrightarrow> key_of y = key_of x \<Longrightarrow> \<not> R' y \<and> \<not> D' y"
  shows "left_by (\<lambda>obj. R obj \<or> R' obj) (\<lambda>obj. D obj \<or> D' obj) st st2"
  unfolding left_by_def
proof
  fix k
  have 1: "case st k of None \<Rightarrow> st1 k = None
      | Some obj \<Rightarrow> if R obj then st1 k = None else if D obj then deleted None obj (st1 k) else st1 k = Some obj"
    and 2: "case st1 k of None \<Rightarrow> st2 k = None
      | Some obj \<Rightarrow> if R' obj then st2 k = None else if D' obj then deleted None obj (st2 k) else st2 k = Some obj"
    using assms(1,2) unfolding left_by_def by blast+
  have marked: "deleted None x (Some y) \<Longrightarrow> key_of y = key_of x" for x y
    by (metis deleted_kept marked_fields)
  show "case st k of None \<Rightarrow> st2 k = None
      | Some obj \<Rightarrow> if R obj \<or> R' obj then st2 k = None else if D obj \<or> D' obj then deleted None obj (st2 k) else st2 k = Some obj"
    using 1 2 assms(3) marked by (fastforce split: option.splits if_splits)
qed

text \<open>A pass leaves every store like that; passes follow one another.\<close>

definition clears :: "('w \<Rightarrow> kstore) \<Rightarrow> (kobj \<Rightarrow> bool) \<Rightarrow> (kobj \<Rightarrow> bool) \<Rightarrow> ('w, 'a) prog \<Rightarrow> bool" where
  "clears objs R D m \<longleftrightarrow> (\<forall>st. wp objs m (\<lambda>_. left_by R D st) st)"

lemma clearsD: "clears objs R D m \<Longrightarrow> wp objs m (\<lambda>_. left_by R D st) st"
  by (simp add: clears_def)

lemma clears_sweep: "(\<And>st. wp objs m (\<lambda>_ st'. st' = sweep P st) st) \<Longrightarrow> clears objs P (\<lambda>_. False) m"
  unfolding clears_def using left_by_sweep by (blast intro: wp_mono)

lemma clears_ret: "clears objs (\<lambda>_. False) (\<lambda>_. False) (ret x)"
  unfolding clears_def by (blast intro: wp_ret left_by_refl)

lemma clears_cong:
  "clears objs R D m \<Longrightarrow> (\<And>obj. R obj = R' obj) \<Longrightarrow> (\<And>obj. D obj = D' obj) \<Longrightarrow> clears objs R' D' m"
  unfolding clears_def by (blast intro: wp_mono left_by_cong)

lemma clears_bind:
  assumes "clears objs R D m" and "\<And>x. clears objs R' D' (f x)"
    and "\<And>x y. D x \<Longrightarrow> key_of y = key_of x \<Longrightarrow> \<not> R' y \<and> \<not> D' y"
  shows "clears objs (\<lambda>obj. R obj \<or> R' obj) (\<lambda>obj. D obj \<or> D' obj) (State_Monad.bind m f)"
  unfolding clears_def
proof
  fix st
  have "wp objs m (\<lambda>_. left_by R D st) st"
    using assms(1) unfolding clears_def by blast
  then show "wp objs (State_Monad.bind m f) (\<lambda>_. left_by (\<lambda>obj. R obj \<or> R' obj) (\<lambda>obj. D obj \<or> D' obj) st) st"
  proof (rule wp_bind [OF wp_mono])
    fix x st1 assume st1: "left_by R D st st1"
    have "wp objs (f x) (\<lambda>_. left_by R' D' st1) st1"
      using assms(2) unfolding clears_def by blast
    then show "wp objs (f x) (\<lambda>_. left_by (\<lambda>obj. R obj \<or> R' obj) (\<lambda>obj. D obj \<or> D' obj) st) st1"
      by (rule wp_mono) (rule left_by_trans [OF st1 _ assms(3)])
  qed
qed

section \<open>The passes of the cleanup\<close>

fun annotated_pod :: "VolumeObject \<Rightarrow> string \<Rightarrow> kobj \<Rightarrow> bool" where
  "annotated_pod v ns (OPod p) \<longleftrightarrow> (\<exists>(key, val) \<in> set (om_Annotations (pod_Meta p)).
     strings_HasPrefix key annotation_prefix \<and> val = ''true'' \<and> annotation_volume p key = (ns, GetName v))"
| "annotated_pod v ns _ \<longleftrightarrow> False"

lemma wp_ignore: "wp objs m (\<lambda>_. P) st \<Longrightarrow> wp objs (do { _ \<leftarrow> m; ret x }) (\<lambda>_. P) st"
  by (intro wp_bind) (erule wp_mono, erule wp_ret)

lemma wp_for_each_once:
  assumes "\<And>y st. wp objs (body y) (\<lambda>_ st'. st' = (if R y then st(k := None) else st)) st"
  shows "wp objs (for_each ys body) (\<lambda>_ st'. st' = (if \<exists>y \<in> set ys. R y then st(k := None) else st)) st"
proof (induction ys arbitrary: st)
  case (Cons y ys)
  show ?case
    unfolding for_each.simps
    by (rule wp_bind, rule wp_mono [OF assms], simp only:, rule wp_mono [OF Cons.IH]) auto
qed (auto intro: wp_ret)

lemma clears_annotated:
  assumes "lifecycle env objs"
  shows "clears objs (annotated_pod v ns) (\<lambda>_. False) (CleanupAllPodsUsingVolumeInNamespace env v ns)"
proof (rule clears_sweep)
  fix st
  have body: "wp objs (for_each (om_Annotations (pod_Meta pod)) (\<lambda>(key, value).
           if strings_HasPrefix key annotation_prefix \<and> value = ''true'' \<and> annotation_volume pod key = (ns, GetName v)
           then do { _ \<leftarrow> ForceDeletePod env pod; ret () } else ret ()))
      (\<lambda>_ st'. st' = (if annotated_pod v ns (OPod pod) then st(key_of (OPod pod) := None) else st)) st" for pod st
    unfolding annotated_pod.simps
    by (rule wp_for_each_once) (auto intro!: wp_if wp_ignore wp_ForceDeletePod [OF assms] wp_ret)
  have kind: "kind_of obj = KPod \<and> selects AllNamespaces obj \<and> annotated_pod v ns obj \<longleftrightarrow> annotated_pod v ns obj" for obj
    by (cases obj) auto
  show "wp objs (CleanupAllPodsUsingVolumeInNamespace env v ns) (\<lambda>_ st'. st' = sweep (annotated_pod v ns) st) st"
    unfolding CleanupAllPodsUsingVolumeInNamespace_def
    by (intro wp_intro wp_ListPods [OF assms])
       (use wp_listed_sweeps [OF assms, where k = KPod and sel = AllNamespaces and enc = OPod and P = "annotated_pod v ns", unfolded kind, OF _ body] in auto)
qed

definition app_pod :: "string \<Rightarrow> string \<Rightarrow> kobj \<Rightarrow> bool" where
  "app_pod ns ref obj \<longleftrightarrow> kind_of obj = KPod \<and> om_Namespace (meta_of obj) = ns
     \<and> map_of (om_Labels (meta_of obj)) ''app'' = Some ref"

text \<open>A delete of the object found under a key.\<close>

lemma left_by_deleted:
  assumes "\<And>k obj. st k = Some obj \<Longrightarrow> key_of obj = k" and "case st k of None \<Rightarrow> x = None | Some cur \<Rightarrow> deleted None cur x"
  shows "left_by (\<lambda>_. False) (\<lambda>obj. key_of obj = k) st (st(k := x))"
  unfolding left_by_def using assms by (auto split: option.splits)

lemma wp_delete_found:
  assumes "lifecycle env objs" and "\<And>k obj. st k = Some obj \<Longrightarrow> key_of obj = k" and "st k = Some cur" and "key_of obj = k"
  shows "wp objs (Delete env obj) (\<lambda>_. left_by (\<lambda>_. False) (\<lambda>obj. key_of obj = k) st) st"
  by (rule wp_Delete [OF assms(1,4)]) (auto simp: assms(3) intro!: left_by_deleted [OF assms(2)])

lemma clears_get_delete:
  assumes "lifecycle env objs" and "\<And>obj. kind_of obj = kd \<Longrightarrow> \<exists>x. dec obj = Some x \<and> enc x = obj"
  shows "clears objs (\<lambda>_. False) (\<lambda>obj. key_of obj = (kd, ns, n)) (do {
      r \<leftarrow> Get_as dec env kd ns n;
      case r of Inl err \<Rightarrow> ret () | Inr x \<Rightarrow> do { _ \<leftarrow> Delete env (enc x); ret () } })"
  unfolding clears_def
proof
  fix st
  let ?Q = "left_by (\<lambda>_. False) (\<lambda>obj. key_of obj = (kd, ns, n)) st"
  show "wp objs (do { r \<leftarrow> Get_as dec env kd ns n;
      case r of Inl err \<Rightarrow> ret () | Inr x \<Rightarrow> do { _ \<leftarrow> Delete env (enc x); ret () } }) (\<lambda>_. ?Q) st"
  proof (rule wp_keys [OF assms(1)], rule wp_bind, rule wp_Get_typed [OF assms])
    assume keys: "\<And>k obj. st k = Some obj \<Longrightarrow> key_of obj = k"
    {
      assume "st (kd, ns, n) = None"
      then have "?Q st"
        using left_by_deleted [where st = st and k = "(kd, ns, n)" and x = None] keys by (simp add: fun_upd_idem)
      then show "wp objs (case Inl (NotFound n) of Inl err \<Rightarrow> ret ()
          | Inr x \<Rightarrow> do { _ \<leftarrow> Delete env (enc x); ret () }) (\<lambda>_. ?Q) st"
        by (intro wp_intro)
    next
      fix x assume "st (kd, ns, n) = Some (enc x)" "key_of (enc x) = (kd, ns, n)"
      then have "wp objs (Delete env (enc x)) (\<lambda>_. ?Q) st"
        by (intro wp_delete_found [OF assms(1)] keys)
      then show "wp objs (case Inr x of Inl err \<Rightarrow> ret ()
          | Inr x \<Rightarrow> do { _ \<leftarrow> Delete env (enc x); ret () }) (\<lambda>_. ?Q) st"
        unfolding sum.case by (rule wp_ignore)
    }
  qed simp
qed

lemma clears_service:
  assumes "lifecycle env objs"
  shows "clears objs (\<lambda>_. False) (\<lambda>obj. key_of obj = (KService, ns, ref)) (CleanupServiceInNamespace env ref ns)"
  unfolding CleanupServiceInNamespace_def by (rule clears_get_delete [OF assms kind_constructors(5)])

text \<open>The managed server of a volume.\<close>

definition managed_server :: "VolumeObject \<Rightarrow> string \<Rightarrow> kobj \<Rightarrow> bool" where
  "managed_server v ns obj \<longleftrightarrow> (\<exists>nfs. NfsServer (vo_Spec v) = Some nfs \<and> \<not> IsExternalNfsServer (Some nfs)
     \<and> nfs_Name nfs \<noteq> [] \<and> key_of obj = (KNfsServer, ns, nfs_Name nfs))"

lemma clears_nfs:
  assumes "lifecycle env objs"
  shows "clears objs (\<lambda>_. False) (managed_server v ns) (CleanupNFSServerInNamespace env v ns)"
proof (cases "\<exists>nfs. NfsServer (vo_Spec v) = Some nfs \<and> \<not> IsExternalNfsServer (Some nfs) \<and> nfs_Name nfs \<noteq> []")
  case True
  then obtain nfs where "NfsServer (vo_Spec v) = Some nfs" "\<not> IsExternalNfsServer (Some nfs)" "nfs_Name nfs \<noteq> []" by blast
  then show ?thesis
    using clears_get_delete [where kd = KNfsServer and ns = ns and n = "nfs_Name nfs", OF assms kind_constructors(6)]
    by (auto simp: CleanupNFSServerInNamespace_def GetVolumeSpec_def managed_server_def elim: clears_cong)
next
  case False
  then have "CleanupNFSServerInNamespace env v ns = ret ()"
    by (auto simp: CleanupNFSServerInNamespace_def GetVolumeSpec_def split: option.split)
  moreover have "managed_server v ns obj \<longleftrightarrow> False" for obj
    using False by (auto simp: managed_server_def)
  ultimately show ?thesis
    using clears_ret [of objs "()"] by (auto intro: clears_cong)
qed

text \<open>The pods of the ReplicaSet, deleted with it and once more by force.\<close>

lemma app_pod_listed:
  "kind_of obj = KPod \<and> selects (InNamespaceMatching ns [(''app'', ref)]) obj \<and> True \<longleftrightarrow> app_pod ns ref obj"
  by (auto simp: app_pod_def)

lemma wp_force_delete_pods:
  assumes "lifecycle env objs"
    and "OPod ` set pods = {obj. st (key_of obj) = Some obj \<and> kind_of obj = KPod \<and> selects (InNamespaceMatching ns [(''app'', ref)]) obj}"
  shows "wp objs (force_delete_pods env pods) (\<lambda>_ st'. st' = sweep (app_pod ns ref) st) st"
  unfolding force_delete_pods_def
  by (rule wp_listed_sweeps [OF assms, where P = "\<lambda>_. True", unfolded app_pod_listed])
     (auto intro!: wp_ignore wp_ForceDeletePod [OF assms(1)])

lemma sweep_keys:
  "(\<And>k obj. st k = Some obj \<Longrightarrow> key_of obj = k) \<Longrightarrow> sweep P st k = Some obj \<Longrightarrow> key_of obj = k"
  by (auto simp: sweep_def split: option.splits if_splits)

lemma wp_replica_set:
  assumes "lifecycle env objs"
  shows "wp objs (CleanupReplicaSetInNamespace env ref ns) (\<lambda>_ st'. \<exists>R. (\<forall>obj. R obj \<longrightarrow> app_pod ns ref obj)
    \<and> left_by R (\<lambda>obj. key_of obj = (KReplicaSet, ns, ref)) st st') st" (is "wp objs _ (\<lambda>_. ?Q) st")
  unfolding CleanupReplicaSetInNamespace_def
proof (rule wp_keys [OF assms], rule wp_bind, rule wp_GetReplicaSet [OF assms], assumption, unfold sum.case, rule wp_ret)
  let ?D = "\<lambda>obj. key_of obj = (KReplicaSet, ns, ref)"
  assume keys: "\<And>k obj. st k = Some obj \<Longrightarrow> key_of obj = k" and none: "st (KReplicaSet, ns, ref) = None"
  have "left_by (\<lambda>_. False) ?D st (st((KReplicaSet, ns, ref) := None))"
    by (rule left_by_deleted [OF keys]) (simp_all add: none)
  moreover have "st((KReplicaSet, ns, ref) := None) = st"
    using none by (rule fun_upd_idem)
  ultimately show "?Q st" by auto
next
  let ?D = "\<lambda>obj. key_of obj = (KReplicaSet, ns, ref)"
  let ?st = "sweep (app_pod ns ref) st"
  fix rs assume keys: "\<And>k obj. st k = Some obj \<Longrightarrow> key_of obj = k" and rs: "st (KReplicaSet, ns, ref) = Some (OReplicaSet rs)"
    and k: "key_of (OReplicaSet rs) = (KReplicaSet, ns, ref)"
  have "?st (KReplicaSet, ns, ref) = Some (OReplicaSet rs)"
    by (simp add: sweep_def rs app_pod_def)
  then have "wp objs (Delete env (OReplicaSet rs)) (\<lambda>_. left_by (\<lambda>_. False) ?D ?st) ?st"
    by (intro wp_delete_found [OF assms _ _ k]) (rule sweep_keys [OF keys])
  moreover have "?Q st'" if "left_by (\<lambda>_. False) ?D ?st st'" for st'
    using left_by_trans [OF left_by_sweep that] by auto
  ultimately have del: "wp objs (Delete env (OReplicaSet rs)) (\<lambda>_. ?Q) ?st"
    by (rule wp_mono)
  show "wp objs (do {
         l \<leftarrow> ListPods env (InNamespaceMatching ns [(''app'', ref)]);
         _ \<leftarrow> (case l of Inl err \<Rightarrow> ret () | Inr pods \<Rightarrow> force_delete_pods env pods);
         _ \<leftarrow> Delete env (OReplicaSet rs);
         ret () }) (\<lambda>_. ?Q) st"
    by (intro wp_intro wp_ListPods [OF assms] wp_mono [OF wp_force_delete_pods [OF assms]]) (auto intro: wp_mono [OF del] wp_ret)
qed

lemma wp_force_pod:
  assumes "lifecycle env objs" and "st (key_of (OPod pod)) = None \<or> st (key_of (OPod pod)) = Some (OPod pod)"
  shows "wp objs (do {
           r \<leftarrow> Update env (set_finalizers [] (OPod pod));
           _ \<leftarrow> DeleteNow env (case r of Inl err \<Rightarrow> set_finalizers [] (OPod pod) | Inr updated \<Rightarrow> updated);
           ret () }) (\<lambda>_ st'. st' = st(key_of (OPod pod) := None)) st"
proof (cases "st (key_of (OPod pod))")
  case None
  then show ?thesis
    by (intro wp_intro wp_Update_None [OF assms(1)] wp_DeleteNow [OF assms(1) HOL.refl])
       (auto simp: key_of_def fun_upd_idem)
next
  case (Some x)
  with assms(2) have x: "x = OPod pod" by simp
  show ?thesis
    by (intro wp_intro wp_Update [OF assms(1) HOL.refl] wp_DeleteNow [OF assms(1) HOL.refl])
       (use Some x in \<open>auto simp: key_of_def dest!: deletion_dests\<close>)
qed

lemma clears_replica_set:
  assumes "lifecycle env objs"
  shows "clears objs (app_pod ns ref) (\<lambda>obj. key_of obj = (KReplicaSet, ns, ref))
    (do { _ \<leftarrow> CleanupReplicaSetInNamespace env ref ns; ForceCleanupAllResourcesInNamespace env ref ns })"
proof -
  let ?D = "\<lambda>obj. key_of obj = (KReplicaSet, ns, ref)"
  have force: "wp objs (ForceCleanupAllResourcesInNamespace env ref ns) (\<lambda>_ st'. st' = sweep (app_pod ns ref) st) st" for st
    unfolding ForceCleanupAllResourcesInNamespace_def Let_def
    by (rule wp_bind, rule wp_ListPods [OF assms], assumption, rule wp_case_result(2),
        rule wp_listed_sweeps [where k = KPod and sel = "InNamespaceMatching ns [(''app'', ref)]" and enc = OPod
          and P = "\<lambda>_. True", OF assms, unfolded app_pod_listed])
       (auto intro!: wp_force_pod [OF assms])
  show ?thesis
    unfolding clears_def
  proof (intro allI wp_bind wp_mono [OF wp_replica_set [OF assms]])
    fix st st1 assume "\<exists>R. (\<forall>obj. R obj \<longrightarrow> app_pod ns ref obj) \<and> left_by R ?D st st1"
    then obtain R where R: "\<forall>obj. R obj \<longrightarrow> app_pod ns ref obj" "left_by R ?D st st1" by blast
    have "left_by (\<lambda>obj. R obj \<or> app_pod ns ref obj) (\<lambda>obj. ?D obj \<or> False) st (sweep (app_pod ns ref) st1)"
      by (rule left_by_trans [OF R(2) left_by_sweep]) (auto simp: app_pod_def key_of_def)
    then have "left_by (app_pod ns ref) ?D st (sweep (app_pod ns ref) st1)"
      by (rule left_by_cong) (use R(1) in auto)
    then show "wp objs (ForceCleanupAllResourcesInNamespace env ref ns) (\<lambda>_. left_by (app_pod ns ref) ?D st) st1"
      by (intro wp_mono [OF force]) simp
  qed
qed

text \<open>Looking an object up and removing it by force, and the passes over claims and persistent volumes.\<close>

lemma clears_get_force:
  assumes "lifecycle env objs" and "\<And>obj. kind_of obj = kd \<Longrightarrow> \<exists>x. dec obj = Some x \<and> enc x = obj"
    and "\<And>x st. key_of (enc x) = (kd, ns, n) \<Longrightarrow> wp objs (force x) (\<lambda>_ st'. st' = st((kd, ns, n) := None)) st"
  shows "clears objs (\<lambda>obj. key_of obj = (kd, ns, n)) (\<lambda>_. False) (do {
      r \<leftarrow> Get_as dec env kd ns n;
      case r of Inl err \<Rightarrow> ret () | Inr x \<Rightarrow> do { _ \<leftarrow> force x; ret () } })"
proof (rule clears_sweep, rule wp_keys [OF assms(1)], rule wp_bind, rule wp_Get_typed [OF assms(1,2)])
  fix st assume keys: "\<And>k obj. st k = Some obj \<Longrightarrow> key_of obj = k"
  let ?Q = "\<lambda>_ st'. st' = sweep (\<lambda>obj. key_of obj = (kd, ns, n)) st"
  have swept: "st((kd, ns, n) := None) = sweep (\<lambda>obj. key_of obj = (kd, ns, n)) st"
    by (rule sweep_key [OF keys])
  {
    assume "st (kd, ns, n) = None"
    then have "st = sweep (\<lambda>obj. key_of obj = (kd, ns, n)) st"
      using swept by (metis fun_upd_idem)
    then show "wp objs (case Inl (NotFound n) of Inl err \<Rightarrow> ret () | Inr x \<Rightarrow> do { _ \<leftarrow> force x; ret () }) ?Q st"
      unfolding sum.case by (rule wp_ret)
  next
    fix x assume "key_of (enc x) = (kd, ns, n)"
    then have "wp objs (force x) (\<lambda>_ st'. st' = st((kd, ns, n) := None)) st"
      by (rule assms(3))
    then show "wp objs (case Inr x of Inl err \<Rightarrow> ret () | Inr x \<Rightarrow> do { _ \<leftarrow> force x; ret () }) ?Q st"
      unfolding swept sum.case by (rule wp_ignore)
  }
qed simp

definition claim_of :: "string \<Rightarrow> string \<Rightarrow> kobj \<Rightarrow> bool" where
  "claim_of ns ref obj \<longleftrightarrow> kind_of obj = KPersistentVolumeClaim
     \<and> (key_of obj = (KPersistentVolumeClaim, ns, ref) \<or> strings_HasPrefix (om_Name (meta_of obj)) (ref @ ''-''))"

lemma clears_claims:
  assumes "lifecycle env objs"
  shows "clears objs (claim_of ns ref) (\<lambda>_. False) (CleanupAllPVCsInNamespace env ref ns)"
proof -
  let ?P = "\<lambda>obj. strings_HasPrefix (om_Name (meta_of obj)) (ref @ ''-'')"
  have split: "CleanupAllPVCsInNamespace env ref ns = do {
      _ \<leftarrow> do { r \<leftarrow> GetPVC env ns ref; case r of Inl err \<Rightarrow> ret () | Inr pvc \<Rightarrow> do { _ \<leftarrow> ForceDeletePVC env pvc; ret () } };
      l \<leftarrow> ListPVCs env;
      case l of Inl err \<Rightarrow> ret ()
      | Inr pvcs \<Rightarrow> for_each pvcs (\<lambda>pvcItem. if strings_HasPrefix (om_Name (pvc_Meta pvcItem)) (ref @ ''-'')
           then do { _ \<leftarrow> ForceDeletePVC env pvcItem; ret () } else ret ()) }"
    by (simp add: CleanupAllPVCsInNamespace_def bind_assoc)
  have own: "clears objs (\<lambda>obj. key_of obj = (KPersistentVolumeClaim, ns, ref)) (\<lambda>_. False)
      (do { r \<leftarrow> GetPVC env ns ref; case r of Inl err \<Rightarrow> ret () | Inr pvc \<Rightarrow> do { _ \<leftarrow> ForceDeletePVC env pvc; ret () } })"
  proof (rule clears_get_force [OF assms kind_constructors(3)], assumption)
    fix pvc st assume "key_of (OPersistentVolumeClaim pvc) = (KPersistentVolumeClaim, ns, ref)"
    with wp_ForceDeletePVC [OF assms, of pvc st]
    show "wp objs (ForceDeletePVC env pvc) (\<lambda>_ st'. st' = st((KPersistentVolumeClaim, ns, ref) := None)) st"
      by simp
  qed
  have listed: "clears objs (\<lambda>obj. kind_of obj = KPersistentVolumeClaim \<and> selects AllNamespaces obj \<and> ?P obj) (\<lambda>_. False) (do {
      l \<leftarrow> ListPVCs env;
      case l of Inl err \<Rightarrow> ret ()
      | Inr pvcs \<Rightarrow> for_each pvcs (\<lambda>pvcItem. if strings_HasPrefix (om_Name (pvc_Meta pvcItem)) (ref @ ''-'')
           then do { _ \<leftarrow> ForceDeletePVC env pvcItem; ret () } else ret ()) })"
    by (rule clears_sweep, rule wp_bind, rule wp_ListPVCs [OF assms], assumption, rule wp_case_result(2),
        rule wp_listed_sweeps [OF assms, where enc = OPersistentVolumeClaim and P = ?P])
       (auto intro!: wp_ignore wp_ForceDeletePVC [OF assms] wp_ret)
  show ?thesis
    unfolding split
    by (rule clears_cong [OF clears_bind [OF own listed]]) (auto simp: claim_of_def key_of_def)
qed

definition persistent_volume_of :: "VolumeObject \<Rightarrow> string \<Rightarrow> kobj \<Rightarrow> bool" where
  "persistent_volume_of v ref obj \<longleftrightarrow> kind_of obj = KPersistentVolume
     \<and> (om_Name (meta_of obj) = ''pv-'' @ ref
        \<or> map_of (om_Labels (meta_of obj)) ''shared-volume.io/reference'' = Some ref
        \<or> map_of (om_Labels (meta_of obj)) ''shared-volume.io/owner'' = Some (GetName v @ ''.'' @ GetNamespace v)
        \<or> strings_HasPrefix (om_Name (meta_of obj)) (ref @ ''-'')
        \<or> strings_HasPrefix (om_Name (meta_of obj)) (''pv-'' @ ref @ ''-''))"

lemma clears_persistent_volumes:
  assumes "lifecycle env objs" and "cluster_scoped objs"
  shows "clears objs (persistent_volume_of v ref) (\<lambda>_. False) (CleanupAllPVs env v ref)"
proof -
  let ?P = "\<lambda>obj. (\<exists>pv. obj = OPersistentVolume pv \<and> related_pv v ref pv) \<and> om_Name (meta_of obj) \<noteq> ''pv-'' @ ref"
  have split: "CleanupAllPVs env v ref = do {
      _ \<leftarrow> do { r \<leftarrow> GetPV env (''pv-'' @ ref); case r of Inl err \<Rightarrow> ret () | Inr pv \<Rightarrow> do { _ \<leftarrow> ForceDeletePV env pv; ret () } };
      l \<leftarrow> ListPVs env;
      case l of Inl err \<Rightarrow> ret ()
      | Inr pvs \<Rightarrow> for_each pvs (\<lambda>pvItem. if related_pv v ref pvItem \<and> om_Name (pv_Meta pvItem) \<noteq> ''pv-'' @ ref
           then do { _ \<leftarrow> ForceDeletePV env pvItem; ret () } else ret ()) }"
    unfolding CleanupAllPVs_def Let_def bind_assoc by (rule HOL.refl)
  have own: "clears objs (\<lambda>obj. key_of obj = (KPersistentVolume, [], ''pv-'' @ ref)) (\<lambda>_. False)
      (do { r \<leftarrow> GetPV env (''pv-'' @ ref); case r of Inl err \<Rightarrow> ret () | Inr pv \<Rightarrow> do { _ \<leftarrow> ForceDeletePV env pv; ret () } })"
  proof (rule clears_get_force [OF assms(1) kind_constructors(2)], assumption)
    fix pv st assume k: "key_of (OPersistentVolume pv) = (KPersistentVolume, [], ''pv-'' @ ref)"
    with wp_ForceDeletePV [OF assms(1), of pv st]
    show "wp objs (ForceDeletePV env pv) (\<lambda>_ st'. st' = st((KPersistentVolume, [], ''pv-'' @ ref) := None)) st"
      by (simp add: key_of_def)
  qed
  have listed: "clears objs (\<lambda>obj. kind_of obj = KPersistentVolume \<and> selects AllNamespaces obj \<and> ?P obj) (\<lambda>_. False) (do {
      l \<leftarrow> ListPVs env;
      case l of Inl err \<Rightarrow> ret ()
      | Inr pvs \<Rightarrow> for_each pvs (\<lambda>pvItem. if related_pv v ref pvItem \<and> om_Name (pv_Meta pvItem) \<noteq> ''pv-'' @ ref
           then do { _ \<leftarrow> ForceDeletePV env pvItem; ret () } else ret ()) })" (is "clears objs ?R _ ?m")
  proof (rule clears_sweep, rule wp_scoped [OF assms(2)], rule wp_bind, rule wp_ListPVs [OF assms(1)], assumption, rule wp_case_result(2))
    fix st and pvs :: "PersistentVolume list"
    assume scoped: "\<And>ns n. st (KPersistentVolume, ns, n) \<noteq> None \<Longrightarrow> ns = []"
      and pvs: "OPersistentVolume ` set pvs = {obj. st (key_of obj) = Some obj \<and> kind_of obj = KPersistentVolume \<and> selects AllNamespaces obj}"
    have "om_Namespace (pv_Meta pv) = []" if "pv \<in> set pvs" for pv
    proof -
      have "st (key_of (OPersistentVolume pv)) = Some (OPersistentVolume pv)"
        using pvs that by blast
      then have "st (KPersistentVolume, om_Namespace (pv_Meta pv), om_Name (pv_Meta pv)) \<noteq> None"
        by (simp add: key_of_def)
      then show ?thesis by (rule scoped)
    qed
    then show "wp objs (for_each pvs (\<lambda>pvItem. if related_pv v ref pvItem \<and> om_Name (pv_Meta pvItem) \<noteq> ''pv-'' @ ref
           then do { _ \<leftarrow> ForceDeletePV env pvItem; ret () } else ret ())) (\<lambda>_ st'. st' = sweep ?R st) st"
      by (intro wp_listed_sweeps [OF assms(1) pvs, where P = ?P])
         (auto intro!: wp_if wp_ignore wp_ForceDeletePV [OF assms(1)] wp_ret)
  qed
  have both: "(key_of obj = (KPersistentVolume, [], ''pv-'' @ ref) \<or> ?R obj) = persistent_volume_of v ref obj"
    if "kind_of obj = KPersistentVolume \<longrightarrow> om_Namespace (meta_of obj) = []" for obj
    using that kind_constructors(2) [of obj]
    by (cases "kind_of obj = KPersistentVolume") (auto simp: persistent_volume_of_def related_pv_def key_of_def)
  show ?thesis
    unfolding clears_def
  proof (intro allI, rule wp_keys [OF assms(1)], rule wp_scoped [OF assms(2)])
    fix st assume keys: "\<And>k obj. st k = Some obj \<Longrightarrow> key_of obj = k" and scoped: "\<And>ns n. st (KPersistentVolume, ns, n) \<noteq> None \<Longrightarrow> ns = []"
    have "kind_of obj = KPersistentVolume \<longrightarrow> om_Namespace (meta_of obj) = []" if "st k = Some obj" for k obj
      using keys [OF that] that scoped [of "om_Namespace (meta_of obj)" "om_Name (meta_of obj)"] by (auto simp: key_of_def)
    then have stored: "(key_of obj = (KPersistentVolume, [], ''pv-'' @ ref) \<or> ?R obj) = persistent_volume_of v ref obj"
      if "st k = Some obj" for k obj
      using that both by blast
    show "wp objs (CleanupAllPVs env v ref) (\<lambda>_. left_by (persistent_volume_of v ref) (\<lambda>_. False) st) st"
      unfolding split
    proof (rule wp_mono [OF clears_bind [OF own listed, THEN clearsD]])
      fix st' assume "left_by (\<lambda>obj. key_of obj = (KPersistentVolume, [], ''pv-'' @ ref) \<or> ?R obj) (\<lambda>obj. False \<or> False) st st'"
      then show "left_by (persistent_volume_of v ref) (\<lambda>_. False) st st'"
        by (rule left_by_cong_stored) (use stored in blast)+
    qed simp
  qed
qed

section \<open>The whole cleanup\<close>

text \<open>The wait for the persistent volumes ends at its first look, since they are gone.\<close>

lemma left_by_gone: "left_by R (\<lambda>_. False) st st' \<Longrightarrow> st' k = Some obj \<Longrightarrow> st k = Some obj \<and> \<not> R obj"
  unfolding left_by_def by (erule allE [of _ k]) (auto split: option.splits if_splits)

lemma wp_wait_for_pvs:
  assumes "lifecycle env objs" and "\<And>k obj. st k = Some obj \<Longrightarrow> \<not> persistent_volume_of v ref obj" and "0 < fuel"
  shows "wp objs (wait_for_pvs env ref deadline fuel) (\<lambda>r st'. r = Inr () \<and> st' = st) st"
proof -
  obtain n where n: "fuel = Suc n" using assms(3) by (cases fuel) auto
  have look: "wp objs (pvs_still_exist env ref) (\<lambda>r st'. \<not> r \<and> st' = st) st"
  proof (unfold pvs_still_exist_def, intro wp_bind wp_GetPV [OF assms(1)] wp_ListPVs [OF assms(1)] wp_ret)
    fix pvs assume "OPersistentVolume ` set pvs = {obj. st (key_of obj) = Some obj \<and> kind_of obj = KPersistentVolume \<and> selects AllNamespaces obj}"
    then have "\<not> persistent_volume_of v ref (OPersistentVolume pv)" if "pv \<in> set pvs" for pv
      using assms(2) that by blast
    then show "\<not> ((case Inl (NotFound (''pv-'' @ ref)) of Inl err \<Rightarrow> False | Inr pv \<Rightarrow> True)
       \<or> (case Inr pvs of Inl err \<Rightarrow> False
          | Inr pvs \<Rightarrow> list_ex (\<lambda>pv. strings_HasPrefix (om_Name (pv_Meta pv)) (ref @ ''-'')) pvs)) \<and> st = st"
      by (auto simp: list_ex_iff persistent_volume_of_def)
  next
    fix pv and pvs :: "PersistentVolume list"
    assume "st (KPersistentVolume, [], ''pv-'' @ ref) = Some (OPersistentVolume pv)"
      and "key_of (OPersistentVolume pv) = (KPersistentVolume, [], ''pv-'' @ ref)"
    with assms(2) show "\<not> ((case Inr pv of Inl err \<Rightarrow> False | Inr pv \<Rightarrow> True)
       \<or> (case Inr pvs of Inl err \<Rightarrow> False
          | Inr pvs \<Rightarrow> list_ex (\<lambda>pv. strings_HasPrefix (om_Name (pv_Meta pv)) (ref @ ''-'')) pvs)) \<and> st = st"
      by (fastforce simp: persistent_volume_of_def key_of_def)
  qed simp_all
  show ?thesis
    unfolding n wait_for_pvs.simps
    by (intro wp_bind wp_time_Now wp_if wp_ret wp_mono [OF look]) (auto intro: wp_ret)
qed

text \<open>Programs that return \<open>r\<close> and leave the store by \<open>R\<close> and \<open>D\<close>.\<close>

definition clears_to :: "('w \<Rightarrow> kstore) \<Rightarrow> 'a \<Rightarrow> (kobj \<Rightarrow> bool) \<Rightarrow> (kobj \<Rightarrow> bool) \<Rightarrow> ('w, 'a) prog \<Rightarrow> bool" where
  "clears_to objs r R D m \<longleftrightarrow> (\<forall>st. wp objs m (\<lambda>x st'. x = r \<and> left_by R D st st') st)"

lemma clears_toD: "clears_to objs r R D m \<Longrightarrow> wp objs m (\<lambda>x st'. x = r \<and> left_by R D st st') st"
  by (simp add: clears_to_def)

lemma clears_to_ret: "clears_to objs r (\<lambda>_. False) (\<lambda>_. False) (ret r)"
  unfolding clears_to_def by (auto intro!: wp_ret left_by_refl)

lemma clears_to_cong:
  "clears_to objs r R D m \<Longrightarrow> (\<And>obj. R obj = R' obj) \<Longrightarrow> (\<And>obj. D obj = D' obj) \<Longrightarrow> clears_to objs r R' D' m"
  unfolding clears_to_def by (blast intro: wp_mono left_by_cong)

lemma clears_to_bind:
  assumes "clears objs R D m" and "\<And>x. clears_to objs r R' D' (f x)"
    and "\<And>x y. D x \<Longrightarrow> key_of y = key_of x \<Longrightarrow> \<not> R' y \<and> \<not> D' y"
  shows "clears_to objs r (\<lambda>obj. R obj \<or> R' obj) (\<lambda>obj. D obj \<or> D' obj) (State_Monad.bind m f)"
  unfolding clears_to_def
proof (intro allI, rule wp_bind [OF wp_mono [OF clearsD [OF assms(1)]]])
  fix st st1 x assume st1: "left_by R D st st1"
  have "wp objs (f x) (\<lambda>y st'. y = r \<and> left_by R' D' st1 st') st1"
    using assms(2) unfolding clears_to_def by blast
  then show "wp objs (f x) (\<lambda>y st'. y = r \<and> left_by (\<lambda>obj. R obj \<or> R' obj) (\<lambda>obj. D obj \<or> D' obj) st st') st1"
    by (rule wp_mono) (auto intro: left_by_trans [OF st1 _ assms(3)])
qed

lemma clears_to_bindE:
  fixes m :: "('w, 'e + 'c) prog" and f :: "'c \<Rightarrow> ('w, 'e + 'd) prog"
  assumes "clears_to objs (Inr a) R D m" and "clears_to objs r R' D' (f a)"
    and "\<And>x y. D x \<Longrightarrow> key_of y = key_of x \<Longrightarrow> \<not> R' y \<and> \<not> D' y"
  shows "clears_to objs r (\<lambda>obj. R obj \<or> R' obj) (\<lambda>obj. D obj \<or> D' obj) (bindE m f)"
  unfolding clears_to_def
proof (intro allI, rule wp_bindE [OF wp_mono])
  fix st show "wp objs m (\<lambda>x st'. x = Inr a \<and> left_by R D st st') st"
    using assms(1) unfolding clears_to_def by blast
next
  fix st st1 and x :: "'e + 'c" assume st1: "x = Inr a \<and> left_by R D st st1"
  have "wp objs (f a) (\<lambda>y st'. y = r \<and> left_by R' D' st1 st') st1"
    using assms(2) unfolding clears_to_def by blast
  then have "wp objs (f a) (\<lambda>y st'. y = r \<and> left_by (\<lambda>obj. R obj \<or> R' obj) (\<lambda>obj. D obj \<or> D' obj) st st') st1"
    by (rule wp_mono) (use st1 in \<open>auto intro: left_by_trans [OF _ _ assms(3)]\<close>)
  then show "wp objs (case x of Inl e \<Rightarrow> ret (Inl e) | Inr x \<Rightarrow> f x)
      (\<lambda>y st'. y = r \<and> left_by (\<lambda>obj. R obj \<or> R' obj) (\<lambda>obj. D obj \<or> D' obj) st st') st1"
    using st1 by simp
qed

lemma clears_wait:
  assumes "lifecycle env objs" and "cluster_scoped objs" and "0 < e_fuel env"
  shows "clears_to objs (Inr ()) (persistent_volume_of v ref) (\<lambda>_. False) (CleanupAllPVsWithWait env v ref)"
  unfolding clears_to_def CleanupAllPVsWithWait_def
proof (intro allI wp_bind wp_time_Now wp_mono [OF clearsD [OF clears_persistent_volumes [OF assms(1,2)]]])
  fix st st1 now assume st1: "left_by (persistent_volume_of v ref) (\<lambda>_. False) st st1"
  then have gone: "\<And>k obj. st1 k = Some obj \<Longrightarrow> \<not> persistent_volume_of v ref obj"
    by (blast dest: left_by_gone)
  show "wp objs (wait_for_pvs env ref (now + 2 * minute) (e_fuel env))
      (\<lambda>x st'. x = Inr () \<and> left_by (persistent_volume_of v ref) (\<lambda>_. False) st st') st1"
    by (rule wp_mono [OF wp_wait_for_pvs [OF assms(1) gone assms(3)]]) (use st1 in simp_all)
qed

text \<open>
  What is made for a volume: removed with it (\<open>made_for\<close>), or asked to be deleted, which leaves it to other
  controllers when they have finalizers on it (\<open>released_with\<close>).
\<close>

definition made_for :: "VolumeObject \<Rightarrow> kobj \<Rightarrow> bool" where
  "made_for v obj \<longleftrightarrow> (let ns = operational_namespace v; ref = ReferenceValue (vo_Spec v)
     in ref \<noteq> [] \<and> (annotated_pod v ns obj \<or> app_pod ns ref obj \<or> claim_of ns ref obj \<or> persistent_volume_of v ref obj))"

definition released_with :: "VolumeObject \<Rightarrow> kobj \<Rightarrow> bool" where
  "released_with v obj \<longleftrightarrow> (let ns = operational_namespace v; ref = ReferenceValue (vo_Spec v)
     in ref \<noteq> [] \<and> (key_of obj = (KReplicaSet, ns, ref) \<or> key_of obj = (KService, ns, ref) \<or> managed_server v ns obj))"

lemma clears_StopSync: "clears (objs :: 'w \<Rightarrow> kstore) (\<lambda>_. False) (\<lambda>_. False) (StopSync b v)"
proof -
  have "w_srv (snd (run_state (StopSync b v) w)) = w_srv w" for w :: "'w world"
    by (simp add: StopSync_def StopSyncForSharedVolume_def StopSyncForClusterSharedVolume_def run_stopSyncTimer
        split: volume_type.split)
  then show ?thesis
    by (simp add: clears_def wp_def left_by_refl)
qed

lemma clears_cleanup:
  assumes "lifecycle env objs" and "cluster_scoped objs" and "0 < e_fuel env"
  shows "clears_to objs (Inr ()) (made_for v) (released_with v) (CleanupResources env b v)"
proof (cases "ReferenceValue (vo_Spec v) = []")
  case True
  then have "CleanupResources env b v = do { _ \<leftarrow> StopSync b v; ret (Inr ()) }"
    by (simp add: CleanupResources_def CleanupResourcesInNamespace_def GetVolumeSpec_def)
  moreover have "clears_to objs (Inr ()) (made_for v) (released_with v) (do { _ \<leftarrow> StopSync b v; ret (Inr ()) })"
    by (rule clears_to_cong [OF clears_to_bind [OF clears_StopSync clears_to_ret]])
       (simp_all add: made_for_def released_with_def True)
  ultimately show ?thesis by simp
next
  case False
  let ?ns = "operational_namespace v" and ?ref = "ReferenceValue (vo_Spec v)"
  have nfs: "clears_to objs (Inr ()) (\<lambda>_. False) (managed_server v ?ns)
      (do { _ \<leftarrow> CleanupNFSServerInNamespace env v ?ns; ret (Inr ()) })"
    by (rule clears_to_cong [OF clears_to_bind [OF clears_nfs [OF assms(1)] clears_to_ret]]) auto
  let ?last = "do { _ \<leftarrow> CleanupServiceInNamespace env ?ref ?ns; _ \<leftarrow> CleanupNFSServerInNamespace env v ?ns; ret (Inr ()) }"
  have last: "clears_to objs (Inr ()) (\<lambda>_. False) (\<lambda>obj. key_of obj = (KService, ?ns, ?ref) \<or> managed_server v ?ns obj) ?last"
    by (rule clears_to_cong [OF clears_to_bind [OF clears_service [OF assms(1)] nfs]]) (auto simp: managed_server_def)
  have tail: "clears_to objs (Inr ()) (persistent_volume_of v ?ref)
      (\<lambda>obj. key_of obj = (KService, ?ns, ?ref) \<or> managed_server v ?ns obj)
      (bindE (CleanupAllPVsWithWait env v ?ref) (\<lambda>_. ?last))"
    by (rule clears_to_cong [OF clears_to_bindE [OF clears_wait [OF assms], where f = "\<lambda>_. ?last", OF last]]) auto
  have passes: "CleanupResources env b v = do { _ \<leftarrow> StopSync b v; _ \<leftarrow> CleanupAllPodsUsingVolumeInNamespace env v ?ns;
      _ \<leftarrow> do { _ \<leftarrow> CleanupReplicaSetInNamespace env ?ref ?ns; ForceCleanupAllResourcesInNamespace env ?ref ?ns };
      _ \<leftarrow> CleanupAllPVCsInNamespace env ?ref ?ns;
      bindE (CleanupAllPVsWithWait env v ?ref) (\<lambda>_. ?last) }"
    using False by (simp add: CleanupResources_def CleanupResourcesInNamespace_def GetVolumeSpec_def Let_def bind_assoc)
  show ?thesis
    unfolding passes
    by (rule clears_to_cong [OF clears_to_bind [OF clears_StopSync clears_to_bind [OF clears_annotated [OF assms(1)]
          clears_to_bind [OF clears_replica_set [OF assms(1)] clears_to_bind [OF clears_claims [OF assms(1)] tail]]]]])
       (auto simp: managed_server_def claim_of_def persistent_volume_of_def key_of_def made_for_def released_with_def
          Let_def False)
qed

section \<open>Reconciling a volume under deletion\<close>

lemma wp_remove_finalizer:
  assumes "lifecycle env objs" and "st (key_of (OVolume v)) = Some (OVolume u)" and "f \<in> set (om_Finalizers (vo_Meta u))"
    and "\<And>obj rv x. refinalized (filter (\<lambda>y. y \<noteq> f) (om_Finalizers (vo_Meta u))) rv (OVolume u) x
      \<Longrightarrow> Q (Inr obj) (st(key_of (OVolume v) := x))"
  shows "wp objs (RemoveFinalizerWithRetry env (OVolume v) f) Q st"
proof (rule wp_keys [OF assms(1)])
  assume "\<And>k obj. st k = Some obj \<Longrightarrow> key_of obj = k"
  with assms(2) have k: "key_of (OVolume u) = key_of (OVolume v)" by blast
  show ?thesis
    unfolding RemoveFinalizerWithRetry_def
    by (subst remove_finalizer_loop.simps, unfold remove_finalizer_once_def get_latest_def,
        intro wp_intro wp_GetObject [OF assms(1)] wp_Update [OF assms(1) HOL.refl])
       (use assms(2-4) k in \<open>auto simp: key_of_def\<close>)
qed

lemma left_by_remove:
  assumes "left_by R D st st1" and "\<And>k obj. st k = Some obj \<Longrightarrow> key_of obj = k"
  shows "left_by (\<lambda>obj. R obj \<or> key_of obj = k) D st (st1(k := None))"
  unfolding left_by_def
proof
  fix k'
  show "case st k' of None \<Rightarrow> (st1(k := None)) k' = None
      | Some obj \<Rightarrow> if R obj \<or> key_of obj = k then (st1(k := None)) k' = None
          else if D obj then deleted None obj ((st1(k := None)) k') else (st1(k := None)) k' = Some obj"
    using assms(1) [unfolded left_by_def, rule_format, of k'] assms(2) [of k'] by (cases "st k'") auto
qed

lemma wp_handleDeletion:
  assumes "lifecycle env objs" and "cluster_scoped objs" and "0 < e_fuel env"
    and "st (key_of (OVolume v)) = Some (OVolume u)" and "vo_Meta u = vo_Meta v"
    and "om_DeletionTimestamp (vo_Meta v) \<noteq> None" and "set (om_Finalizers (vo_Meta v)) = {f}"
  shows "wp objs (handleDeletion env b v f) (\<lambda>r st'. r = Inr None
    \<and> left_by (\<lambda>obj. made_for v obj \<or> key_of obj = key_of (OVolume v)) (released_with v) st st') st"
proof (rule wp_keys [OF assms(1)])
  assume keys: "\<And>k obj. st k = Some obj \<Longrightarrow> key_of obj = k"
  let ?k = "key_of (OVolume v)"
  let ?R = "\<lambda>obj. made_for v obj \<or> key_of obj = ?k"
  have volume: "\<not> made_for v (OVolume x)" "\<not> released_with v (OVolume x)" for x
    by (simp_all add: made_for_def released_with_def app_pod_def claim_of_def persistent_volume_of_def
        managed_server_def key_of_def Let_def)
  have fs: "filter (\<lambda>y. y \<noteq> f) (om_Finalizers (vo_Meta u)) = []" "f \<in> set (om_Finalizers (vo_Meta u))"
    using assms(5,7) by auto
  have rest: "wp objs (bindE (RemoveFinalizerWithRetry env (OVolume v) f) (\<lambda>_. ret (Inr None)))
      (\<lambda>r st'. r = Inr None \<and> left_by ?R (released_with v) st st') st1"
    if st1: "left_by (made_for v) (released_with v) st st1" for st1
  proof (rule wp_bindE, rule wp_remove_finalizer [OF assms(1) _ fs(2)])
    show "st1 ?k = Some (OVolume u)"
      using st1 [unfolded left_by_def, rule_format, of ?k] assms(4) volume by simp
    fix obj rv x assume "refinalized (filter (\<lambda>y. y \<noteq> f) (om_Finalizers (vo_Meta u))) rv (OVolume u) x"
    then have "refinalized [] rv (OVolume u) x"
      unfolding fs(1) .
    then have "x = None"
      by (rule refinalized_marked) (use assms(5,6) in simp_all)
    moreover have "left_by ?R (released_with v) st (st1(?k := None))"
      by (rule left_by_remove [OF st1 keys])
    ultimately show "wp objs (case Inr obj of Inl e \<Rightarrow> ret (Inl e) | Inr x \<Rightarrow> ret (Inr None))
        (\<lambda>r st'. r = Inr None \<and> left_by ?R (released_with v) st st') (st1(?k := x))"
      by (auto intro: wp_ret)
  qed
  have f: "\<not> \<not> ContainsString (om_Finalizers (vo_Meta v)) f"
    using assms(7) by simp
  show ?thesis
    unfolding handleDeletion_def if_not_P [OF f]
    by (rule wp_bindE, rule wp_mono [OF clears_toD [OF clears_cleanup [OF assms(1-3)]]]) (auto intro: rest)
qed

lemma made_for_fields:
  assumes "vo_type v' = vo_type v" and "vo_Meta v' = vo_Meta v" and "vo_Spec v' = vo_Spec v"
  shows "made_for v' = made_for v" and "released_with v' = released_with v"
proof -
  have ns: "operational_namespace v' = operational_namespace v"
    using assms by (simp add: operational_namespace_def split: volume_type.split)
  have "annotated_pod v' ns obj = annotated_pod v ns obj" for ns obj
    using assms by (cases obj) simp_all
  then show "made_for v' = made_for v" "released_with v' = released_with v"
    using assms by (simp_all add: fun_eq_iff made_for_def released_with_def ns persistent_volume_of_def managed_server_def)
qed

lemma kind_volume: "kind_of obj = KVolume t \<Longrightarrow> \<exists>x. the_volume t obj = Some x \<and> OVolume x = obj"
  by (cases obj) simp_all

lemma wp_reconcile_deleted:
  assumes laws: "lifecycle env objs" "cluster_scoped objs" "0 < e_fuel env"
    and stored: "st (KVolume (VolumeObjFactory config), ns, n) = Some (OVolume v)"
    and v: "om_DeletionTimestamp (vo_Meta v) \<noteq> None" "set (om_Finalizers (vo_Meta v)) = {FinalizerName config}"
    and namespace: "st (KNamespace, [], ControllerNamespace b) \<noteq> None"
  shows "wp objs (ReconcileGeneric env b ns n config)
    (\<lambda>r st'. r = Inr 0 \<and> left_by (\<lambda>obj. made_for v obj \<or> obj = OVolume v) (released_with v) st st') st"
proof (rule wp_keys [OF laws(1)])
  assume keys: "\<And>k obj. st k = Some obj \<Longrightarrow> key_of obj = k"
  let ?v = "EnsureAPIVersionAndKind env v (APIVersion config) (Kind config)"
  let ?Q = "\<lambda>r st'. r = Inr 0 \<and> left_by (\<lambda>obj. made_for v obj \<or> obj = OVolume v) (released_with v) st st'"
  have fields: "vo_type ?v = vo_type v" "vo_Meta ?v = vo_Meta v" "vo_Spec ?v = vo_Spec v"
    by (simp_all add: EnsureAPIVersionAndKind_def Let_def)
  have k: "key_of (OVolume ?v) = key_of (OVolume v)" "key_of (OVolume v) = (KVolume (VolumeObjFactory config), ns, n)"
    using keys [OF stored] fields by (simp_all add: key_of_def)
  have same: "key_of obj = key_of (OVolume v) \<longleftrightarrow> obj = OVolume v" if "st kk = Some obj" for kk obj
    using keys [OF that] that stored k(2) by auto
  have del: "wp objs (handleDeletion env b ?v (FinalizerName config)) (\<lambda>r st'. r = Inr None
      \<and> left_by (\<lambda>obj. made_for v obj \<or> obj = OVolume v) (released_with v) st st') st"
    by (rule wp_mono [OF wp_handleDeletion [OF laws, of st ?v v]])
       (use stored v fields k made_for_fields [OF fields] same in \<open>auto elim!: left_by_cong_stored\<close>)
  have ensure: "wp objs (EnsureControllerNamespace env b) (\<lambda>r st'. r = Inr () \<and> st' = st) st"
    unfolding EnsureControllerNamespace_def
  proof (rule wp_bind, rule wp_Get [OF laws(1)])
    fix obj assume "kind_of obj = KNamespace"
    then obtain m where "obj = ONamespace m" by (cases obj) simp_all
    then show "wp objs (case as_object the_ns (RObject obj) of Inr _ \<Rightarrow> ret (Inr ())
       | Inl err \<Rightarrow> if \<not> IsNotFound err then ret (Inl err)
           else Create env (ONamespace (empty_meta\<lparr>om_Name := ControllerNamespace b\<rparr>))) (\<lambda>r st'. r = Inr () \<and> st' = st) st"
      by (simp add: as_object_def wp_ret)
  qed (use namespace in simp)
  have reconcile: "wp objs (ReconcileVolume env b ?v (FinalizerName config) (Namespace config) onReady onNotReady) ?Q st"
    for onReady onNotReady
    unfolding ReconcileVolume_def HandleFinalizerLogic_def if_P [OF v(1) [folded fields(2)]]
    by (rule wp_bindE, rule wp_mono [OF ensure], elim conjE, hypsubst, unfold sum.case,
        rule wp_bindE, rule wp_mono [OF del]) (auto intro: wp_ret)
  show ?thesis
    unfolding ReconcileGeneric_def GetVolume_def
  proof (rule wp_bind, rule wp_Get_typed [OF laws(1) kind_volume], assumption)
    assume "st (KVolume (VolumeObjFactory config), ns, n) = None"
    with stored show "wp objs (case Inl (NotFound n) of
        Inl err \<Rightarrow> ret (case IgnoreNotFound err of None \<Rightarrow> Inr 0 | Some err \<Rightarrow> Inl err)
      | Inr v \<Rightarrow> ReconcileVolume env b (EnsureAPIVersionAndKind env v (APIVersion config) (Kind config))
           (FinalizerName config) (Namespace config)
           (Some (CreateSyncReadyCallback b)) (Some (CreateSyncNotReadyCallback b))) ?Q st"
      by simp
  next
    fix x assume "st (KVolume (VolumeObjFactory config), ns, n) = Some (OVolume x)"
    with stored reconcile show "wp objs (case Inr x of
        Inl err \<Rightarrow> ret (case IgnoreNotFound err of None \<Rightarrow> Inr 0 | Some err \<Rightarrow> Inl err)
      | Inr v \<Rightarrow> ReconcileVolume env b (EnsureAPIVersionAndKind env v (APIVersion config) (Kind config))
           (FinalizerName config) (Namespace config)
           (Some (CreateSyncReadyCallback b)) (Some (CreateSyncNotReadyCallback b))) ?Q st"
      by simp
  qed
qed

text \<open>
  C1. Deleting a volume. On a server with the documented life cycle of objects (deletion marks what has
  finalizers, an object goes with its last finalizer, pods may stay for their grace period), one reconciliation of a
  volume under deletion that carries only the controller's finalizer succeeds and takes away the
  volume, its pods, all its claims in any namespace and all its persistent volumes, with or without finalizers; the
  deletion of its ReplicaSet, its service and its managed NFS server has been asked for, so that they are
  gone or, with finalizers of other controllers, marked; and every other object of the cluster
  is exactly as it was. The wait for the persistent volumes needs one round.
\<close>

theorem deletion_leaves_nothing:
  assumes "lifecycle env objs" and "cluster_scoped objs" and "0 < e_fuel env"
    and "objs (w_srv w) (KVolume (VolumeObjFactory config), ns, n) = Some (OVolume v)"
    and "om_DeletionTimestamp (vo_Meta v) \<noteq> None" and "set (om_Finalizers (vo_Meta v)) = {FinalizerName config}"
    and "objs (w_srv w) (KNamespace, [], ControllerNamespace b) \<noteq> None"
  shows "\<exists>w'. run_state (ReconcileGeneric env b ns n config) w = (Inr 0, w')
    \<and> left_by (\<lambda>obj. made_for v obj \<or> obj = OVolume v) (released_with v) (objs (w_srv w)) (objs (w_srv w'))"
proof -
  obtain r w' where run: "run_state (ReconcileGeneric env b ns n config) w = (r, w')" by fastforce
  from wpD [OF wp_reconcile_deleted [OF assms] this] run show ?thesis by auto
qed

text \<open>A volume under deletion with two claims that carry finalizers, and a claim of another volume.\<close>

definition protected_claim :: "string \<Rightarrow> string \<Rightarrow> PersistentVolumeClaim" where
  "protected_claim ns n = \<lparr>pvc_Meta = empty_meta\<lparr>om_Name := n, om_Namespace := ns,
     om_Finalizers := [''kubernetes.io/pvc-protection'']\<rparr>, pvc_AccessModes = [], pvc_Request = Quantity ''1Gi'',
     pvc_VolumeName = ''pv-'' @ n, pvc_StorageClassName = None, pvc_Phase = ''Bound''\<rparr>"

definition deletion_store :: store where
  "deletion_store = [ONamespace (empty_meta\<lparr>om_Name := ''shared-volume-controller''\<rparr>), OVolume deleted_volume,
     OPersistentVolumeClaim (protected_claim ''team'' ''sv-a1''), OPersistentVolumeClaim (protected_claim ''app'' ''sv-a1-app''),
     OPersistentVolumeClaim (protected_claim ''team'' ''sv-b2'')]"

theorem deletion_leaves_nothing_witness:
  "\<exists>w'. run_state (ReconcileGeneric life_env sample_base ''team'' ''vol'' (sv_config ''team'')) (world_of deletion_store) = (Inr 0, w')
    \<and> life_objs (w_srv w') (KVolume SharedVolume, ''team'', ''vol'') = None
    \<and> life_objs (w_srv w') (KPersistentVolumeClaim, ''team'', ''sv-a1'') = None
    \<and> life_objs (w_srv w') (KPersistentVolumeClaim, ''app'', ''sv-a1-app'') = None
    \<and> life_objs (w_srv w') (KPersistentVolumeClaim, ''team'', ''sv-b2'')
        = Some (OPersistentVolumeClaim (protected_claim ''team'' ''sv-b2''))"
proof -
  note eval = deletion_store_def life_objs_def store_objs_def has_key_def deleted_volume_def sample_volume_simps
    protected_claim_def sv_config_def world_of_def sample_base_def
  have fuel: "0 < e_fuel life_env"
    by (simp add: life_env_def store_env_def)
  have stored: "life_objs deletion_store (KVolume SharedVolume, ''team'', ''vol'') = Some (OVolume deleted_volume)"
    "life_objs deletion_store (KPersistentVolumeClaim, ''team'', ''sv-a1'') = Some (OPersistentVolumeClaim (protected_claim ''team'' ''sv-a1''))"
    "life_objs deletion_store (KPersistentVolumeClaim, ''app'', ''sv-a1-app'') = Some (OPersistentVolumeClaim (protected_claim ''app'' ''sv-a1-app''))"
    "life_objs deletion_store (KPersistentVolumeClaim, ''team'', ''sv-b2'') = Some (OPersistentVolumeClaim (protected_claim ''team'' ''sv-b2''))"
    by (simp_all add: eval)
  have "\<exists>w'. run_state (ReconcileGeneric life_env sample_base ''team'' ''vol'' (sv_config ''team'')) (world_of deletion_store) = (Inr 0, w')
    \<and> left_by (\<lambda>obj. made_for deleted_volume obj \<or> obj = OVolume deleted_volume) (released_with deleted_volume)
        (life_objs deletion_store) (life_objs (w_srv w'))"
    using deletion_leaves_nothing [OF life_lifecycle life_cluster_scoped fuel, of "world_of deletion_store"
        "sv_config ''team''" "''team''" "''vol''" deleted_volume sample_base]
    by (simp add: eval)
  then obtain w' where w': "run_state (ReconcileGeneric life_env sample_base ''team'' ''vol'' (sv_config ''team'')) (world_of deletion_store) = (Inr 0, w')"
    "left_by (\<lambda>obj. made_for deleted_volume obj \<or> obj = OVolume deleted_volume) (released_with deleted_volume)
        (life_objs deletion_store) (life_objs (w_srv w'))" by blast
  have fate: "made_for deleted_volume (OPersistentVolumeClaim (protected_claim ''team'' ''sv-a1''))"
    "made_for deleted_volume (OPersistentVolumeClaim (protected_claim ''app'' ''sv-a1-app''))"
    "\<not> made_for deleted_volume (OPersistentVolumeClaim (protected_claim ''team'' ''sv-b2''))"
    "\<not> released_with deleted_volume (OPersistentVolumeClaim (protected_claim ''team'' ''sv-b2''))"
    by (simp_all add: made_for_def released_with_def claim_of_def app_pod_def persistent_volume_of_def managed_server_def
        key_of_def operational_namespace_def eval strings_HasPrefix_def)
  note left = w'(2) [unfolded left_by_def, rule_format]
  from left [of "(KVolume SharedVolume, ''team'', ''vol'')"] left [of "(KPersistentVolumeClaim, ''team'', ''sv-a1'')"]
    left [of "(KPersistentVolumeClaim, ''app'', ''sv-a1-app'')"] left [of "(KPersistentVolumeClaim, ''team'', ''sv-b2'')"]
  have "life_objs (w_srv w') (KVolume SharedVolume, ''team'', ''vol'') = None
    \<and> life_objs (w_srv w') (KPersistentVolumeClaim, ''team'', ''sv-a1'') = None
    \<and> life_objs (w_srv w') (KPersistentVolumeClaim, ''app'', ''sv-a1-app'') = None
    \<and> life_objs (w_srv w') (KPersistentVolumeClaim, ''team'', ''sv-b2'')
        = Some (OPersistentVolumeClaim (protected_claim ''team'' ''sv-b2''))"
    unfolding stored by (simp add: fate)
  with w'(1) show ?thesis by blast
qed

end
