(* ===== verification/Created_Objects.thy ===== *)
theory Created_Objects
  imports Deletion Pod_Admission
begin

text \<open>
  The cleanup of a volume is complete: what the reconciler and the pod webhook create for a volume is among
  the objects its deletion removes or releases (Deletion).
\<close>

fun creates_in :: "(kobj \<Rightarrow> bool) \<Rightarrow> event \<Rightarrow> bool" where
  "creates_in K (EApi (CreateReq obj) _) = K obj"
| "creates_in K _ = True"

lemma creates_in_mono: "creates_in K e \<Longrightarrow> (\<And>obj. K obj \<Longrightarrow> L obj) \<Longrightarrow> creates_in L e"
  by (cases "(K, e)" rule: creates_in.cases) auto

text \<open>The objects of the reconciler.\<close>

lemma reconciled_objects:
  assumes "ReferenceValue (vo_Spec v) \<noteq> []"
  defines "ns \<equiv> operational_namespace v"
  shows "made_for v (OPersistentVolume (volume_object v ns q a p))"
    and "made_for v (OPersistentVolumeClaim (claim_object env v ns q))"
    and "released_with v (OReplicaSet (replica_set_object env v ns))"
    and "released_with v (OService (service_object env v ns))"
  using assms(1)
  by (simp_all add: made_for_def released_with_def ns_def persistent_volume_of_def claim_of_def volume_object_def
      claim_object_def replica_set_object_def service_object_def pv_name_def GetVolumeSpec_def key_of_def empty_meta_def Let_def)

lemma created_resources:
  assumes "ReferenceValue (vo_Spec v) \<noteq> []"
  shows "emits (creates_in (\<lambda>obj. made_for v obj \<or> released_with v obj))
    (ReconcileRequiredResources env v (operational_namespace v))"
  unfolding ReconcileRequiredResources_def ReconcilePersistentVolume_def ReconcilePersistentVolumeClaim_def
    ReconcileReplicaSet_def ReconcileService_def
  by (intro keeps_intro) (simp_all add: reconciled_objects [OF assms])

lemma created_server:
  assumes "ReferenceValue (vo_Spec v) \<noteq> []" and "\<And>nfs. NfsServer (vo_Spec v) = Some nfs \<Longrightarrow> nfs_Name nfs \<noteq> []"
  shows "emits (creates_in (\<lambda>obj. made_for v obj \<or> released_with v obj))
    (CreateAndOwnNfsServer env v (operational_namespace v))"
proof -
  have "released_with v (ONfsServer (nfs_server_object env v (operational_namespace v) nfs st))"
    if "NfsServer (vo_Spec v) = Some nfs" "\<not> IsExternalNfsServer (Some nfs)" for nfs st
    using assms that by (simp add: released_with_def managed_server_def nfs_server_object_def key_of_def empty_meta_def Let_def)
  then show ?thesis
    unfolding CreateAndOwnNfsServer_def Let_def GetVolumeSpec_def by (intro keeps_intro) auto
qed

text \<open>The objects of the pod webhook: their names begin with the reference value and a dash.\<close>

lemma admitted_objects:
  assumes "ReferenceValue (vo_Spec v) \<noteq> []"
    and n: "n = pv_pvc_name (ReferenceValue (vo_Spec v)) podns"
  shows "made_for v (OPersistentVolume (pod_volume_object n q a p))"
    and "made_for v (OPersistentVolumeClaim (pod_claim_object n podns n q))"
  using assms(1) strings_HasPrefix_append [of "ReferenceValue (vo_Spec v) @ ''-''" podns]
  by (simp_all add: made_for_def persistent_volume_of_def claim_of_def pod_volume_object_def pod_claim_object_def
      n pv_pvc_name_def empty_meta_def Let_def)

lemma created_by_webhook:
  "emits (creates_in (\<lambda>obj. \<exists>v. Inr v \<in> results (volume_of_ref env svRef []) \<and> (ReferenceValue (vo_Spec v) = [] \<or> made_for v obj)))
     (processSharedVolume env pod svRef)"
proof -
  have reads: "emits (creates_in K) (volume_of_ref env svRef [])" for K
    unfolding volume_of_ref_def wrap_err_def by (intro keeps_intro) simp_all
  show ?thesis
    unfolding processSharedVolume_def ensurePersistentVolumeGeneric_def ensurePersistentVolumeClaimGeneric_def wrap_err_def Let_def
    by (intro keeps_intro reads) (auto intro: admitted_objects)
qed

text \<open>
  C2. The cleanup is complete. Every object a reconciliation creates for a volume (its persistent volume, its
  claim, its ReplicaSet, its service and its NFS server) is one that the deletion of the volume removes or releases;
  so is every pod that carries the label of the ReplicaSet's pods; and every persistent volume and claim
  the pod webhook creates is removed by the deletion of the volume the webhook looked up, if that has a reference value.
  This holds whatever the API server answers.
\<close>

theorem creations_are_cleaned_up:
  assumes "ReferenceValue (vo_Spec v) \<noteq> []" and "\<And>nfs. NfsServer (vo_Spec v) = Some nfs \<Longrightarrow> nfs_Name nfs \<noteq> []"
    and "om_Namespace (pod_Meta p) = operational_namespace v"
    and "set (rs_TemplateLabels (replica_set_object env v (operational_namespace v))) \<subseteq> set (om_Labels (pod_Meta p))" and "distinct (map fst (om_Labels (pod_Meta p)))"
  shows "emits (creates_in (\<lambda>obj. made_for v obj \<or> released_with v obj))
      (ReconcileRequiredResources env v (operational_namespace v))
    \<and> emits (creates_in (\<lambda>obj. made_for v obj \<or> released_with v obj)) (CreateAndOwnNfsServer env v (operational_namespace v))
    \<and> made_for v (OPod p)
    \<and> emits (creates_in (\<lambda>obj. \<exists>u. Inr u \<in> results (volume_of_ref env svRef [])
        \<and> (ReferenceValue (vo_Spec u) = [] \<or> made_for u obj))) (processSharedVolume env pod svRef)"
proof -
  have "map_of (om_Labels (pod_Meta p)) ''app'' = Some (ReferenceValue (vo_Spec v))"
    using assms(4,5) by (simp add: replica_set_object_def GetVolumeSpec_def Let_def)
  then have "made_for v (OPod p)"
    using assms(1,3) by (simp add: made_for_def app_pod_def Let_def)
  then show ?thesis
    using created_resources [OF assms(1)] created_server [OF assms(1,2)] created_by_webhook by blast
qed

text \<open>A pod of the ReplicaSet of the sample volume.\<close>

definition syncer_pod :: Pod where
  "syncer_pod = \<lparr>pod_Meta = empty_meta\<lparr>om_Name := ''sv-a1-x'', om_Namespace := ''team'', om_Labels := [(''app'', ''sv-a1'')]\<rparr>,
     pod_Spec = \<lparr>ps_InitContainers = [], ps_Containers = [], ps_Volumes = []\<rparr>\<rparr>"

theorem creations_are_cleaned_up_witness:
  "emits (creates_in (\<lambda>obj. made_for sample_volume obj \<or> released_with sample_volume obj))
     (ReconcileRequiredResources store_env sample_volume ''team'') \<and> made_for sample_volume (OPod syncer_pod)"
proof -
  have fields: "operational_namespace sample_volume = ''team''" "ReferenceValue (vo_Spec sample_volume) \<noteq> []"
    "NfsServer (vo_Spec sample_volume) = Some sample_nfs" "nfs_Name sample_nfs \<noteq> []"
    by (simp_all add: operational_namespace_def sample_volume_simps)
  have server: "\<And>nfs. NfsServer (vo_Spec sample_volume) = Some nfs \<Longrightarrow> nfs_Name nfs \<noteq> []"
    using fields by simp
  have pod: "om_Namespace (pod_Meta syncer_pod) = ''team''"
    "set (rs_TemplateLabels (replica_set_object store_env sample_volume ''team'')) \<subseteq> set (om_Labels (pod_Meta syncer_pod))"
    "distinct (map fst (om_Labels (pod_Meta syncer_pod)))"
    by (simp_all add: syncer_pod_def replica_set_object_def GetVolumeSpec_def sample_volume_simps Let_def)
  from creations_are_cleaned_up [OF fields(2) server, where p = syncer_pod and env = store_env, unfolded fields(1), OF _ pod]
  show ?thesis by blast
qed

end
