(* ===== verification/Go_Heap.thy ===== *)
theory Go_Heap
  imports Api_Types
begin

text \<open>
  Memory, for the one file of the program whose purpose is aliasing: the generated deep copies.
  A heap maps addresses to cells (variables allocated by \<open>new\<close>, \<open>make\<close> or a composite
  literal) below a limit; a place is a cell together with the part of it that is meant, so
  that \<open>&out.Spec\<close> and \<open>&(*out)[i]\<close> are places of the cell of \<open>out\<close>. A pointer is a place or
  nil, and dereferencing nil or an address without a cell of the right type is a panic.

  The judgement \<open>copies\<close> says that a function fills the place \<open>out\<close> with a deep copy of the
  place \<open>in\<close>: the value read through \<open>out\<close> is the one read through \<open>in\<close>, it is read from cells
  that did not exist before, and no cell that existed before is written but that of \<open>out\<close>.
\<close>

section \<open>Parts of an object\<close>

record ('s, 'a) lens =
  lget :: "'s \<Rightarrow> 'a option"
  lput :: "'a \<Rightarrow> 's \<Rightarrow> 's"

locale lawful_lens =
  fixes l :: "('s, 'a) lens"
  assumes put_get: "lget l s \<noteq> None \<Longrightarrow> lget l (lput l x s) = Some x"
    and put_put: "lget l s \<noteq> None \<Longrightarrow> lput l y (lput l x s) = lput l y s"
    and get_put: "lget l s = Some x \<Longrightarrow> lput l x s = s"

definition whole :: "('a \<Rightarrow> 'c) \<Rightarrow> ('c \<Rightarrow> 'a option) \<Rightarrow> ('c, 'a) lens" where
  "whole mk dest = \<lparr>lget = dest, lput = (\<lambda>x _. mk x)\<rparr>"

definition field :: "('a \<Rightarrow> 'b) \<Rightarrow> (('b \<Rightarrow> 'b) \<Rightarrow> 'a \<Rightarrow> 'a) \<Rightarrow> ('a, 'b) lens" where
  "field f u = \<lparr>lget = (\<lambda>s. Some (f s)), lput = (\<lambda>x. u (\<lambda>_. x))\<rparr>"

definition element :: "nat \<Rightarrow> ('a list, 'a) lens" where
  "element k = \<lparr>lget = (\<lambda>xs. if k < length xs then Some (xs ! k) else None),
                lput = (\<lambda>x xs. xs[k := x])\<rparr>"

definition inside :: "('s, 'a) lens \<Rightarrow> ('a, 'b) lens \<Rightarrow> ('s, 'b) lens" where
  "inside l m = \<lparr>lget = (\<lambda>s. Option.bind (lget l s) (lget m)),
                 lput = (\<lambda>y s. case lget l s of None \<Rightarrow> s | Some x \<Rightarrow> lput l (lput m y x) s)\<rparr>"

lemma field_simps [simp]:
  "lget (field f u) s = Some (f s)" "lput (field f u) x = u (\<lambda>_. x)"
  by (simp_all add: field_def)

text \<open>The three ways to make a lens satisfy the laws, and so does putting one inside another.\<close>

lemma lawful_whole:
  "(\<And>x. dest (mk x) = Some x) \<Longrightarrow> (\<And>c x. dest c = Some x \<Longrightarrow> c = mk x) \<Longrightarrow> lawful_lens (whole mk dest)"
  by unfold_locales (simp_all add: whole_def)

lemma lawful_field:
  "(\<And>s x. f (u (\<lambda>_. x) s) = x) \<Longrightarrow> (\<And>s x y. u (\<lambda>_. y) (u (\<lambda>_. x) s) = u (\<lambda>_. y) s)
     \<Longrightarrow> (\<And>s. u (\<lambda>_. f s) s = s) \<Longrightarrow> lawful_lens (field f u)"
  by unfold_locales auto

lemma lawful_element: "lawful_lens (element k)"
  by unfold_locales (auto simp: element_def split: if_splits)

lemma lawful_inside: "lawful_lens l \<Longrightarrow> lawful_lens m \<Longrightarrow> lawful_lens (inside l m)"
  by unfold_locales
     (auto simp: inside_def lawful_lens.put_get lawful_lens.put_put lawful_lens.get_put
           split: option.splits bind_splits)

section \<open>Heap, places and pointers\<close>

record 'c heap =
  gh_cells :: "nat \<rightharpoonup> 'c"
  gh_limit :: nat

type_synonym ('c, 'a) prog = "('c heap, error + 'a) state"

record ('c, 'a) place =
  pl_base :: nat
  pl_lens :: "('c, 'a) lens"

type_synonym ('c, 'a) pointer = "('c, 'a) place option"

text \<open>A pointer stored in a struct, and a pointer to a cell of a given type.\<close>

type_synonym ptr = "nat option"

definition to_cell :: "('c, 'a) lens \<Rightarrow> nat \<Rightarrow> ('c, 'a) place" where
  "to_cell ty a = \<lparr>pl_base = a, pl_lens = ty\<rparr>"

definition deref :: "('c, 'a) lens \<Rightarrow> ptr \<Rightarrow> ('c, 'a) pointer" where
  "deref ty p = map_option (to_cell ty) p"

text \<open>\<open>&p.F\<close>\<close>

definition part :: "('a, 'b) lens \<Rightarrow> ('c, 'a) place \<Rightarrow> ('c, 'b) place" where
  "part m p = \<lparr>pl_base = pl_base p, pl_lens = inside (pl_lens p) m\<rparr>"

definition amp :: "('a, 'b) lens \<Rightarrow> ('c, 'a) pointer \<Rightarrow> ('c, 'b) pointer" where
  "amp m p = map_option (part m) p"

text \<open>\<open>*p\<close> as an expression, as the target of an assignment, and \<open>*out = *in\<close>.\<close>

definition look :: "'c heap \<Rightarrow> ('c, 'a) place \<Rightarrow> 'a option" where
  "look h p = Option.bind (gh_cells h (pl_base p)) (lget (pl_lens p))"

definition poke :: "('c, 'a) place \<Rightarrow> 'a \<Rightarrow> 'c heap \<Rightarrow> 'c heap" where
  "poke p x h = h\<lparr>gh_cells := (gh_cells h)(pl_base p :=
     map_option (lput (pl_lens p) x) (gh_cells h (pl_base p)))\<rparr>"

definition nil_dereference :: error where
  "nil_dereference = Panic ''invalid memory address or nil pointer dereference''"

definition load :: "('c, 'a) pointer \<Rightarrow> ('c, 'a) prog" where
  "load p = State (\<lambda>h. case Option.bind p (look h) of
     None \<Rightarrow> (Inl nil_dereference, h) | Some x \<Rightarrow> (Inr x, h))"

definition store :: "('c, 'a) pointer \<Rightarrow> 'a \<Rightarrow> ('c, unit) prog" where
  "store p x = State (\<lambda>h. case p of
     None \<Rightarrow> (Inl nil_dereference, h)
   | Some q \<Rightarrow> if look h q = None then (Inl nil_dereference, h) else (Inr (), poke q x h))"

definition assign :: "('c, 'a) pointer \<Rightarrow> ('c, 'a) pointer \<Rightarrow> ('c, unit) prog" where
  "assign pin pout = bindE (load pin) (store pout)"

text \<open>\<open>new(T)\<close>: a cell that holds the zero value of the type.\<close>

definition new_cell :: "'c \<Rightarrow> ('c, nat) prog" where
  "new_cell c = State (\<lambda>h. (Inr (gh_limit h),
     h\<lparr>gh_cells := (gh_cells h)(gh_limit h \<mapsto> c), gh_limit := Suc (gh_limit h)\<rparr>))"

text \<open>
  The block of the generated code for a pointer field, with \<open>into\<close> the statement that fills
  the new variable:
  \<open>if in.F != nil { in, out := &in.F, &out.F; *out = new(T); (*in).DeepCopyInto(*out) }\<close>.
\<close>

definition clone_field ::
  "('c, 'a) lens \<Rightarrow> 'c \<Rightarrow> (('c, 'a) pointer \<Rightarrow> ('c, 'a) pointer \<Rightarrow> ('c, unit) prog)
     \<Rightarrow> ('c, ptr) pointer \<Rightarrow> ('c, ptr) pointer \<Rightarrow> ('c, unit) prog" where
  "clone_field ty zero into pin pout =
     bindE (load pin) (\<lambda>p. if p = None then ret (Inr ()) else
     bindE (new_cell zero) (\<lambda>b.
     bindE (store pout (Some b)) (\<lambda>_.
     bindE (load pin) (\<lambda>p.
     bindE (load pout) (\<lambda>q. into (deref ty p) (deref ty q))))))"

text \<open>
  Slices: a nil slice, or a window of an array. The block of the generated code for a slice
  field makes an array of the length of the window and copies element by element; \<open>index\<close> is
  \<open>&(*p)[k]\<close>, with the bounds check.
\<close>

record slice =
  sl_array :: nat
  sl_start :: nat
  sl_len :: nat

definition index :: "('c, 'a list) lens \<Rightarrow> ('c, slice option) pointer \<Rightarrow> nat \<Rightarrow> ('c, ('c, 'a) pointer) prog" where
  "index ty p k = bindE (load p) (\<lambda>s. case s of
     None \<Rightarrow> ret (Inl (Panic ''index out of range''))
   | Some sl \<Rightarrow>
       if k < sl_len sl
       then ret (Inr (amp (element (sl_start sl + k)) (Some (to_cell ty (sl_array sl)))))
       else ret (Inl (Panic ''index out of range'')))"

definition clone_slice ::
  "('c, 'a list) lens \<Rightarrow> (nat \<Rightarrow> 'c) \<Rightarrow> (('c, 'a) pointer \<Rightarrow> ('c, 'a) pointer \<Rightarrow> ('c, unit) prog)
     \<Rightarrow> ('c, slice option) pointer \<Rightarrow> ('c, slice option) pointer \<Rightarrow> ('c, unit) prog" where
  "clone_slice ty zeros into pin pout =
     bindE (load pin) (\<lambda>s. case s of None \<Rightarrow> ret (Inr ()) | Some sl \<Rightarrow>
     bindE (new_cell (zeros (sl_len sl))) (\<lambda>b.
     bindE (store pout (Some \<lparr>sl_array = b, sl_start = 0, sl_len = sl_len sl\<rparr>)) (\<lambda>_.
     for_err [0..<sl_len sl] (\<lambda>k.
       bindE (index ty pin k) (\<lambda>p. bindE (index ty pout k) (\<lambda>q. into p q))))))"

text \<open>
  \<open>DeepCopy\<close>: \<open>if in == nil { return nil }; out := new(T); in.DeepCopyInto(out); return out\<close>.
\<close>

definition deep_copy ::
  "('c, 'a) lens \<Rightarrow> 'c \<Rightarrow> (('c, 'a) pointer \<Rightarrow> ('c, 'a) pointer \<Rightarrow> ('c, unit) prog)
     \<Rightarrow> ptr \<Rightarrow> ('c, ptr) prog" where
  "deep_copy ty zero into pin =
     (if pin = None then ret (Inr None) else
      bindE (new_cell zero) (\<lambda>b.
      bindE (into (deref ty pin) (deref ty (Some b))) (\<lambda>_. ret (Inr (Some b)))))"

section \<open>How a program may change the heap\<close>

definition heap_ok :: "'c heap \<Rightarrow> bool" where
  "heap_ok h \<longleftrightarrow> (\<forall>a. gh_limit h \<le> a \<longrightarrow> gh_cells h a = None)"

text \<open>The cells from an address on, and all cells but that of a place.\<close>

definition since :: "nat \<Rightarrow> 'c heap \<Rightarrow> (nat \<rightharpoonup> 'c)" where
  "since n h = gh_cells h |` {n..}"

definition without :: "('c, 'a) place \<Rightarrow> 'c heap \<Rightarrow> (nat \<rightharpoonup> 'c)" where
  "without p h = (gh_cells h)(pl_base p := None)"

text \<open>
  \<open>writes K h p y h'\<close>: going from \<open>h\<close> to \<open>h'\<close> stored \<open>y\<close> in the place \<open>p\<close>, left the other
  old cells alone, and the cells it added satisfy \<open>K\<close> (read: are well typed) already in the
  heap of the new cells.
\<close>

definition writes ::
  "((nat \<rightharpoonup> 'c) \<Rightarrow> 'c \<Rightarrow> bool) \<Rightarrow> 'c heap \<Rightarrow> ('c, 'a) place \<Rightarrow> 'a \<Rightarrow> 'c heap \<Rightarrow> bool" where
  "writes K h p y h' \<longleftrightarrow>
     heap_ok h' \<and> gh_limit h \<le> gh_limit h'
     \<and> (\<forall>a. a < gh_limit h \<longrightarrow> a \<noteq> pl_base p \<longrightarrow> gh_cells h' a = gh_cells h a)
     \<and> gh_cells h' (pl_base p) = map_option (lput (pl_lens p) y) (gh_cells h (pl_base p))
     \<and> (\<forall>a c. gh_limit h \<le> a \<longrightarrow> gh_cells h' a = Some c \<longrightarrow> K (since (gh_limit h) h') c)"

definition apart :: "'c heap \<Rightarrow> ('c, 'a) place \<Rightarrow> ('c, 'b) place \<Rightarrow> bool" where
  "apart h i j \<longleftrightarrow> heap_ok h \<and> lawful_lens (pl_lens i) \<and> lawful_lens (pl_lens j)
     \<and> pl_base i \<noteq> pl_base j"

text \<open>
  \<open>copies K shallow val f\<close>: run on two places apart, \<open>f\<close> writes a deep copy. With \<open>shallow\<close>
  the place \<open>out\<close> is known to hold the shallow copy already, which is what the statements
  after \<open>*out = *in\<close> rely on.
\<close>

definition copies ::
  "((nat \<rightharpoonup> 'c) \<Rightarrow> 'c \<Rightarrow> bool) \<Rightarrow> bool \<Rightarrow> ((nat \<rightharpoonup> 'c) \<Rightarrow> 'a \<Rightarrow> 'v option)
     \<Rightarrow> (('c, 'a) pointer \<Rightarrow> ('c, 'a) pointer \<Rightarrow> ('c, unit) prog) \<Rightarrow> bool" where
  "copies K shallow val f \<longleftrightarrow>
     (\<forall>h i j x y v. apart h i j \<longrightarrow> look h i = Some x \<longrightarrow> look h j = Some y
        \<longrightarrow> (shallow \<longrightarrow> y = x) \<longrightarrow> val (without j h) x = Some v
        \<longrightarrow> (\<exists>h' z. run_state (f (Some i) (Some j)) h = (Inr (), h')
               \<and> writes K h j z h' \<and> val (since (gh_limit h) h') z = Some v))"

text \<open>A way to read values that only gets more defined when the heap grows.\<close>

definition monotone_reading :: "((nat \<rightharpoonup> 'c) \<Rightarrow> 'a \<Rightarrow> 'v option) \<Rightarrow> bool" where
  "monotone_reading val \<longleftrightarrow> (\<forall>M N x v. M \<subseteq>\<^sub>m N \<longrightarrow> val M x = Some v \<longrightarrow> val N x = Some v)"

text \<open>The value behind a pointer field.\<close>

definition val_ptr ::
  "('c, 'a) lens \<Rightarrow> ((nat \<rightharpoonup> 'c) \<Rightarrow> 'a \<Rightarrow> 'v option) \<Rightarrow> (nat \<rightharpoonup> 'c) \<Rightarrow> ptr \<Rightarrow> 'v option option" where
  "val_ptr ty val M p = (case p of
     None \<Rightarrow> Some None
   | Some a \<Rightarrow> map_option Some (Option.bind (Option.bind (M a) (lget ty)) (val M)))"

definition val_slice ::
  "('c, 'a list) lens \<Rightarrow> ((nat \<rightharpoonup> 'c) \<Rightarrow> 'a \<Rightarrow> 'v option) \<Rightarrow> (nat \<rightharpoonup> 'c) \<Rightarrow> slice option
     \<Rightarrow> 'v list option option" where
  "val_slice ty val M s = (case s of
     None \<Rightarrow> Some None
   | Some sl \<Rightarrow> Option.bind (Option.bind (M (sl_array sl)) (lget ty)) (\<lambda>xs.
       if sl_start sl + sl_len sl \<le> length xs
       then map_option Some (those (map (val M) (take (sl_len sl) (drop (sl_start sl) xs))))
       else None))"

section \<open>Facts about the heap\<close>

lemma monotone_readingD: "monotone_reading val \<Longrightarrow> M \<subseteq>\<^sub>m N \<Longrightarrow> val M x = Some v \<Longrightarrow> val N x = Some v"
  by (auto simp: monotone_reading_def)

lemma monotone_Some: "monotone_reading (\<lambda>_. Some)"
  by (simp add: monotone_reading_def)

lemma bind_mono:
  "Option.bind (M a) f = Some v \<Longrightarrow> M \<subseteq>\<^sub>m N \<Longrightarrow> Option.bind (N a) f = Some v"
  by (auto simp: map_le_def bind_eq_Some_conv dom_def)

lemma those_map_Some:
  "those (map f xs) = Some vs \<longleftrightarrow> length vs = length xs \<and> (\<forall>k < length xs. f (xs ! k) = Some (vs ! k))"
proof (induction xs arbitrary: vs)
  case (Cons x xs)
  show ?case
  proof (cases vs)
    case (Cons w ws)
    have "(\<forall>k < Suc n. P k) \<longleftrightarrow> P 0 \<and> (\<forall>k < n. P (Suc k))" for n and P :: "nat \<Rightarrow> bool"
      by (metis less_Suc_eq_0_disj)
    with Cons Cons.IH [of ws] show ?thesis
      by (auto split: option.splits)
  qed (auto split: option.splits)
qed auto

lemma monotone_val_slice:
  assumes "monotone_reading val"
  shows "monotone_reading (val_slice ty val)"
  unfolding monotone_reading_def
proof (intro allI impI)
  fix M N :: "nat \<rightharpoonup> 'a" and s v
  assume le: "M \<subseteq>\<^sub>m N" and v: "val_slice ty val M s = Some v"
  show "val_slice ty val N s = Some v"
  proof (cases s)
    case (Some sl)
    with v obtain xs vs where "Option.bind (M (sl_array sl)) (lget ty) = Some xs"
      "sl_start sl + sl_len sl \<le> length xs" "v = Some vs"
      "those (map (val M) (take (sl_len sl) (drop (sl_start sl) xs))) = Some vs"
      by (auto simp: val_slice_def bind_eq_Some_conv split: if_splits)
    moreover have "val N x = Some w" if "val M x = Some w" for x w
      using assms le that by (rule monotone_readingD)
    ultimately show ?thesis
      using Some by (simp add: val_slice_def bind_mono [OF _ le] those_map_Some)
  qed (use v in \<open>simp add: val_slice_def\<close>)
qed

lemma monotone_val_ptr:
  assumes "monotone_reading val"
  shows "monotone_reading (val_ptr ty val)"
  unfolding monotone_reading_def
proof (intro allI impI)
  fix M N :: "nat \<rightharpoonup> 'a" and p v
  assume le: "M \<subseteq>\<^sub>m N" and v: "val_ptr ty val M p = Some v"
  show "val_ptr ty val N p = Some v"
  proof (cases p)
    case (Some a)
    with v obtain x w where "Option.bind (M a) (lget ty) = Some x" "val M x = Some w" "v = Some w"
      by (auto simp: val_ptr_def bind_eq_Some_conv)
    with le assms Some show ?thesis
      by (simp add: val_ptr_def bind_mono [OF _ le] monotone_readingD)
  qed (use v in \<open>simp add: val_ptr_def\<close>)
qed

lemma look_to_cell [simp]: "look h (to_cell ty a) = Option.bind (gh_cells h a) (lget ty)"
  by (simp add: look_def to_cell_def)

lemma base_part [simp]: "pl_base (part m p) = pl_base p"
  by (simp add: part_def)

lemma look_part [simp]: "look h (part m p) = Option.bind (look h p) (lget m)"
  by (cases "gh_cells h (pl_base p)") (simp_all add: look_def part_def inside_def)

lemma lawful_part: "lawful_lens (pl_lens p) \<Longrightarrow> lawful_lens m \<Longrightarrow> lawful_lens (pl_lens (part m p))"
  by (simp add: part_def lawful_inside)

lemma amp_Some [simp]: "amp m (Some p) = Some (part m p)" and amp_None [simp]: "amp m None = None"
  by (simp_all add: amp_def)

lemma deref_simps [simp]: "deref ty None = None" "deref ty (Some a) = Some (to_cell ty a)"
  by (simp_all add: deref_def)

lemma run_load [simp]:
  "run_state (load (Some p)) h =
     (case look h p of None \<Rightarrow> (Inl nil_dereference, h) | Some x \<Rightarrow> (Inr x, h))"
  "run_state (load None) h = (Inl nil_dereference, h)"
  by (simp_all add: load_def)

lemma run_store [simp]:
  "run_state (store (Some p) x) h =
     (if look h p = None then (Inl nil_dereference, h) else (Inr (), poke p x h))"
  "run_state (store None x) h = (Inl nil_dereference, h)"
  by (simp_all add: store_def)

lemma heap_ok_limit: "heap_ok h \<Longrightarrow> gh_cells h a = Some c \<Longrightarrow> a < gh_limit h"
  unfolding heap_ok_def by (metis not_less option.distinct(1))

lemma look_limit: "heap_ok h \<Longrightarrow> look h p = Some x \<Longrightarrow> pl_base p < gh_limit h"
  by (auto simp: look_def bind_eq_Some_conv dest: heap_ok_limit)

lemma heap_ok_poke: "heap_ok h \<Longrightarrow> heap_ok (poke p x h)"
  by (auto simp: heap_ok_def poke_def)

lemma look_poke:
  assumes "lawful_lens (pl_lens p)" and "look h p \<noteq> None"
  shows "look (poke p x h) p = Some x"
  using assms by (auto simp: look_def poke_def bind_eq_Some_conv lawful_lens.put_get)

lemma look_other: "pl_base q \<noteq> pl_base p \<Longrightarrow> look (poke p x h) q = look h q"
  by (simp add: look_def poke_def)

lemma look_new:
  "pl_base p < n \<Longrightarrow> look (h\<lparr>gh_cells := (gh_cells h)(n \<mapsto> c), gh_limit := m\<rparr>) p = look h p"
  by (simp add: look_def)

text \<open>Old cells are not among the new ones, and new cells stay when only old ones are written.\<close>

lemma since_le: "n \<le> m \<Longrightarrow> since m h \<subseteq>\<^sub>m since n h"
  by (auto simp: since_def map_le_def restrict_map_def)

lemma since_grow:
  assumes "heap_ok h1" "pl_base p < n" "n \<le> gh_limit h1" "writes K h1 p y h2"
  shows "since n h1 \<subseteq>\<^sub>m since n h2"
  using assms by (auto simp: since_def map_le_def restrict_map_def writes_def dest: heap_ok_limit)

lemma without_grow:
  assumes "heap_ok h" "writes K h p y h1"
  shows "without p h \<subseteq>\<^sub>m without p h1"
  using assms by (auto simp: without_def map_le_def writes_def dest: heap_ok_limit)

lemma without_part [simp]: "without (part m p) h = without p h"
  by (simp add: without_def)

lemma look_written:
  assumes "writes K h p y h'" "lawful_lens (pl_lens p)" "look h p \<noteq> None"
  shows "look h' p = Some y"
  using assms by (auto simp: writes_def look_def bind_eq_Some_conv lawful_lens.put_get)

lemma look_kept:
  assumes "writes K h p y h'" "heap_ok h" "look h q = Some x" "pl_base q \<noteq> pl_base p"
  shows "look h' q = Some x"
  using assms look_limit [OF assms(2,3)] by (auto simp: writes_def look_def)

lemma apart_later: "apart h i j \<Longrightarrow> heap_ok h' \<Longrightarrow> apart h' i j"
  by (simp add: apart_def)

lemma apart_part:
  "apart h i j \<Longrightarrow> lawful_lens l \<Longrightarrow> lawful_lens m \<Longrightarrow> apart h (part l i) (part m j)"
  by (simp add: apart_def lawful_part)

lemma writes_ok: "writes K h p y h' \<Longrightarrow> heap_ok h'"
  and writes_limit: "writes K h p y h' \<Longrightarrow> gh_limit h \<le> gh_limit h'"
  by (simp_all add: writes_def)

lemma copiesD:
  assumes "copies K sh val f" "apart h i j" "look h i = Some x" "look h j = Some y"
    "sh \<longrightarrow> y = x" "val (without j h) x = Some v"
  obtains h' z where "run_state (f (Some i) (Some j)) h = (Inr (), h')" "writes K h j z h'"
    "val (since (gh_limit h) h') z = Some v"
  using assms unfolding copies_def by blast

lemma copiesI:
  assumes "\<And>h i j x y v. apart h i j \<Longrightarrow> look h i = Some x \<Longrightarrow> look h j = Some y
      \<Longrightarrow> (sh \<Longrightarrow> y = x) \<Longrightarrow> val (without j h) x = Some v
      \<Longrightarrow> \<exists>h' z. run_state (f (Some i) (Some j)) h = (Inr (), h')
            \<and> writes K h j z h' \<and> val (since (gh_limit h) h') z = Some v"
  shows "copies K sh val f"
  unfolding copies_def using assms by blast

lemma copies_shallow: "copies K False val f \<Longrightarrow> copies K True val f"
  by (auto simp: copies_def)

section \<open>Composing copies\<close>

text \<open>
  The typing of cells is the parameter \<open>K\<close>; all the rules need is that a well-typed cell
  stays so when cells are added.
\<close>

locale cell_typing =
  fixes K :: "(nat \<rightharpoonup> 'c) \<Rightarrow> 'c \<Rightarrow> bool"
  assumes typing_grows: "M \<subseteq>\<^sub>m N \<Longrightarrow> K M c \<Longrightarrow> K N c"
begin

lemma poke_writes: "heap_ok h \<Longrightarrow> writes K h p x (poke p x h)"
  unfolding writes_def poke_def heap_ok_def
  by (auto split: if_splits)

lemma writes_nothing:
  "heap_ok h \<Longrightarrow> lawful_lens (pl_lens p) \<Longrightarrow> look h p = Some x \<Longrightarrow> writes K h p x h"
  by (auto simp: writes_def look_def heap_ok_def bind_eq_Some_conv lawful_lens.get_put)

lemma writes_trans:
  assumes "writes K h p x h1" "writes K h1 p y h2" "heap_ok h" "lawful_lens (pl_lens p)"
    "look h p \<noteq> None"
  shows "writes K h p y h2"
proof -
  have base: "pl_base p < gh_limit h"
    using assms(3,5) by (auto dest: look_limit)
  have le: "since (gh_limit h) h1 \<subseteq>\<^sub>m since (gh_limit h) h2"
    by (rule since_grow [OF writes_ok [OF assms(1)] base writes_limit [OF assms(1)] assms(2)])
  have "K (since (gh_limit h) h2) c" if a: "gh_limit h \<le> a" "gh_cells h2 a = Some c" for a c
  proof (cases "a < gh_limit h1")
    case True
    with a base assms(2) have "gh_cells h1 a = Some c"
      by (auto simp: writes_def)
    with a assms(1) show ?thesis
      using typing_grows [OF le] by (auto simp: writes_def)
  next
    case False
    with a(2) assms(2) have "K (since (gh_limit h1) h2) c"
      by (simp add: writes_def not_less)
    then show ?thesis
      using typing_grows since_le writes_limit [OF assms(1)] by blast
  qed
  moreover obtain c where "gh_cells h (pl_base p) = Some c" "lget (pl_lens p) c \<noteq> None"
    using assms(5) by (auto simp: look_def bind_eq_Some_conv)
  ultimately show ?thesis
    using assms base by (auto simp: writes_def lawful_lens.put_put)
qed

lemma copies_assign: "copies K False (\<lambda>_. Some) assign"
  by (rule copiesI) (auto simp: assign_def apart_def intro!: poke_writes)

text \<open>Writing a part of a place writes the place.\<close>

lemma writes_part:
  assumes "writes K h1 (part m j) q h2" "look h1 j = Some y"
  shows "writes K h1 j (lput m q y) h2"
proof -
  obtain c where c: "gh_cells h1 (pl_base j) = Some c" "lget (pl_lens j) c = Some y"
    using assms(2) by (auto simp: look_def bind_eq_Some_conv)
  then have "lput (pl_lens (part m j)) q c = lput (pl_lens j) (lput m q y) c"
    by (simp add: part_def inside_def)
  with c assms(1) show ?thesis
    by (simp add: writes_def)
qed

text \<open>
  The step of a copy that runs field by field: after \<open>out\<close> has been brought to \<open>y\<close>, the
  statement for one more field brings it to \<open>y\<close> with that field set, and everything read from
  new cells before can still be read.
\<close>

lemma copy_field:
  assumes "copies K sh val f" and "monotone_reading val"
    and "apart h i j" "look h i = Some x" "look h j \<noteq> None" and W: "writes K h j y h1"
    and "lawful_lens l" "lawful_lens m" "lget l x = Some a" "lget m y = Some b" "sh \<longrightarrow> b = a"
    and v: "val (without j h) a = Some v"
  obtains h2 q where "run_state (f (Some (part l i)) (Some (part m j))) h1 = (Inr (), h2)"
    "writes K h j (lput m q y) h2" "val (since (gh_limit h) h2) q = Some v"
    "since (gh_limit h) h1 \<subseteq>\<^sub>m since (gh_limit h) h2"
proof -
  have ok: "heap_ok h" "heap_ok h1" "lawful_lens (pl_lens j)" "pl_base i \<noteq> pl_base j"
    using assms(3) W by (auto simp: apart_def writes_ok)
  have y: "look h1 j = Some y"
    using W ok(3) assms(5) by (rule look_written)
  have base: "pl_base j < gh_limit h"
    using ok(1) assms(5) by (auto dest: look_limit)
  obtain h2 q where h2: "run_state (f (Some (part l i)) (Some (part m j))) h1 = (Inr (), h2)"
    "writes K h1 (part m j) q h2" "val (since (gh_limit h1) h2) q = Some v"
  proof (rule copiesD [OF assms(1), of h1 "part l i" "part m j" a b v])
    show "apart h1 (part l i) (part m j)"
      using apart_part apart_later assms(3,7,8) ok(2) by blast
    show "look h1 (part l i) = Some a"
      using look_kept [OF W ok(1) assms(4) ok(4)] assms(9) by simp
    show "val (without (part m j) h1) a = Some v"
      using monotone_readingD [OF assms(2) without_grow [OF ok(1) W] v] by simp
  qed (use y assms(10,11) in auto)
  show thesis
  proof (rule that [OF h2(1)])
    show "writes K h j (lput m q y) h2"
      using writes_trans [OF W writes_part [OF h2(2) y] ok(1,3) assms(5)] .
    show "val (since (gh_limit h) h2) q = Some v"
      using monotone_readingD [OF assms(2) since_le h2(3)] writes_limit [OF W] by blast
    show "since (gh_limit h) h1 \<subseteq>\<^sub>m since (gh_limit h) h2"
      using since_grow [OF ok(2) _ writes_limit [OF W] h2(2)] base by simp
  qed
qed

text \<open>
  The two ends of every block that allocates: putting a new cell \<open>b\<close> of the zero value in the
  heap and a reference \<open>r\<close> to it in the place \<open>out\<close>, and what holds when the cell is filled.
\<close>

definition allocated :: "'c heap \<Rightarrow> 'c \<Rightarrow> 'c heap" where
  "allocated h zero = h\<lparr>gh_cells := (gh_cells h)(gh_limit h \<mapsto> zero), gh_limit := Suc (gh_limit h)\<rparr>"

lemma run_new_cell [simp]: "run_state (new_cell c) h = (Inr (gh_limit h), allocated h c)"
  by (simp add: new_cell_def allocated_def)

lemma look_allocated: "heap_ok h \<Longrightarrow> look h p = Some x \<Longrightarrow> look (allocated h c) p = Some x"
  by (frule (1) look_limit) (simp add: allocated_def look_new)

lemma linked_new:
  assumes "apart h i j" "look h i = Some x" "look h j = Some y"
    and h2_def: "h2 = poke j r (allocated h zero)"
  shows "run_state (store (Some j) r) (allocated h zero) = (Inr (), h2)"
    and "look h2 i = Some x" and "look h2 j = Some r" and "heap_ok h2"
    and "gh_limit h2 = Suc (gh_limit h)" and "gh_cells h2 (gh_limit h) = Some zero"
    and "without j h \<subseteq>\<^sub>m (gh_cells h2)(gh_limit h := None)"
    and "a \<noteq> pl_base j \<Longrightarrow> gh_cells h a = Some c \<Longrightarrow> gh_cells h2 a = Some c"
    and "\<And>h'. heap_ok h' \<Longrightarrow> gh_limit h < gh_limit h' \<Longrightarrow> \<forall>k < gh_limit h. gh_cells h' k = gh_cells h2 k
      \<Longrightarrow> \<forall>k c. gh_limit h \<le> k \<longrightarrow> gh_cells h' k = Some c \<longrightarrow> K (since (gh_limit h) h') c
      \<Longrightarrow> writes K h j r h'"
proof -
  note A = assms(1) [unfolded apart_def]
  have j: "pl_base j < gh_limit h" "look (allocated h zero) j = Some y"
    using A assms(3) look_allocated [of h j y] by (auto dest: look_limit)
  with A show "run_state (store (Some j) r) (allocated h zero) = (Inr (), h2)" "look h2 j = Some r"
    by (simp_all add: h2_def look_poke)
  show "look h2 i = Some x"
    using A assms(2) look_allocated [of h i x] by (simp add: h2_def look_other)
  show "heap_ok h2" "gh_limit h2 = Suc (gh_limit h)" "gh_cells h2 (gh_limit h) = Some zero"
    using A j by (auto simp: heap_ok_def allocated_def h2_def poke_def)
  show "without j h \<subseteq>\<^sub>m (gh_cells h2)(gh_limit h := None)"
    using A by (auto simp: without_def map_le_def h2_def poke_def allocated_def dest: heap_ok_limit)
  show "gh_cells h2 a = Some c" if "a \<noteq> pl_base j" "gh_cells h a = Some c"
    using that A by (auto simp: h2_def poke_def allocated_def dest: heap_ok_limit)
  show "writes K h j r h'" if "heap_ok h'" "gh_limit h < gh_limit h'"
    "\<forall>k < gh_limit h. gh_cells h' k = gh_cells h2 k"
    "\<forall>k c. gh_limit h \<le> k \<longrightarrow> gh_cells h' k = Some c \<longrightarrow> K (since (gh_limit h) h') c" for h'
    using that j(1) by (auto simp: writes_def h2_def poke_def allocated_def)
qed

lemma filled_new:
  assumes w: "writes K h (to_cell ty b) z h'" and h: "gh_limit h = Suc b" "gh_cells h b = Some zero"
    and typed: "K (since b h') (lput ty z zero)"
  shows "heap_ok h'" "b < gh_limit h'" "\<forall>k < b. gh_cells h' k = gh_cells h k"
    "\<forall>k c. b \<le> k \<longrightarrow> gh_cells h' k = Some c \<longrightarrow> K (since b h') c"
    "gh_cells h' b = Some (lput ty z zero)" "since (gh_limit h) h' \<subseteq>\<^sub>m since b h'"
proof -
  show b: "gh_cells h' b = Some (lput ty z zero)"
    using w h(2) by (simp add: writes_def to_cell_def)
  show grow: "since (gh_limit h) h' \<subseteq>\<^sub>m since b h'"
    by (rule since_le) (simp add: h)
  show "\<forall>k c. b \<le> k \<longrightarrow> gh_cells h' k = Some c \<longrightarrow> K (since b h') c"
  proof (intro allI impI)
    fix k c assume k: "b \<le> k" "gh_cells h' k = Some c"
    show "K (since b h') c"
    proof (cases "k = b")
      case False
      with k(1) have "Suc b \<le> k" by simp
      with k(2) w have "K (since (gh_limit h) h') c"
        by (simp add: writes_def h(1))
      then show ?thesis by (rule typing_grows [OF grow])
    qed (use k b typed in simp)
  qed
  show "heap_ok h'" "b < gh_limit h'" "\<forall>k < b. gh_cells h' k = gh_cells h k"
    using w h(1) by (auto simp: writes_def to_cell_def)
qed

text \<open>
  Filling the newest cell \<open>b\<close>, of the zero value, from the cell \<open>a\<close>. The cell type must be
  lawful, hold the zero value in the cell \<open>new\<close> makes, and be well typed whenever its content
  can be read.
\<close>

lemma copies_into_new:
  assumes into: "copies K False val into" and mono: "monotone_reading val"
    and ty: "lawful_lens ty" "lget ty zero \<noteq> None"
    and typed: "\<And>M y v. val M y = Some v \<Longrightarrow> K M (lput ty y zero)"
    and h: "heap_ok h" "gh_limit h = Suc b" "gh_cells h b = Some zero" "a < b"
    and s: "look h (to_cell ty a) = Some s" "val ((gh_cells h)(b := None)) s = Some w"
  obtains h' where "run_state (into (deref ty (Some a)) (deref ty (Some b))) h = (Inr (), h')"
    "heap_ok h'" "b < gh_limit h'" "\<forall>k < b. gh_cells h' k = gh_cells h k"
    "\<forall>k c. b \<le> k \<longrightarrow> gh_cells h' k = Some c \<longrightarrow> K (since b h') c"
    "val_ptr ty val (since b h') (Some b) = Some (Some w)"
proof -
  obtain y where y: "lget ty zero = Some y" using ty(2) by blast
  obtain h' z where h': "run_state (into (Some (to_cell ty a)) (Some (to_cell ty b))) h = (Inr (), h')"
    "writes K h (to_cell ty b) z h'" "val (since (gh_limit h) h') z = Some w"
    by (rule copiesD [OF into, of h "to_cell ty a" "to_cell ty b" s y w])
       (use ty h s y in \<open>auto simp: apart_def without_def\<close>, simp_all add: to_cell_def)
  have "since (gh_limit h) h' \<subseteq>\<^sub>m since b h'"
    by (rule since_le) (simp add: h)
  then have z: "val (since b h') z = Some w"
    using h'(3) by (rule monotone_readingD [OF mono])
  note F = filled_new [OF h'(2) h(2,3) typed [OF z]]
  have "val_ptr ty val (since b h') (Some b) = Some (Some w)"
    using F(5) z y ty by (simp add: val_ptr_def since_def lawful_lens.put_get)
  with h'(1) F show thesis
    by (intro that [of h']) simp_all
qed

text \<open>The block for a pointer field is a copy of the field, given one of the struct pointed to.\<close>

lemma copies_clone_field:
  assumes into: "copies K False val into" and mono: "monotone_reading val"
    and ty: "lawful_lens ty" "lget ty zero \<noteq> None"
    and typed: "\<And>M y v. val M y = Some v \<Longrightarrow> K M (lput ty y zero)"
  shows "copies K True (val_ptr ty val) (clone_field ty zero into)"
proof (rule copiesI, goal_cases)
  case (1 h i j x y v)
  note A = 1(1) [unfolded apart_def]
  show ?case
  proof (cases x)
    case None
    with 1 A writes_nothing [of h j None] show ?thesis
      by (auto simp: clone_field_def val_ptr_def)
  next
    case (Some a)
    let ?b = "gh_limit h"
    define h2 where "h2 = poke j (Some ?b) (allocated h zero)"
    note L = linked_new [OF 1(1-3) h2_def]
    from Some 1(5) obtain s w where s: "Option.bind (without j h a) (lget ty) = Some s"
      "val (without j h) s = Some w" "v = Some w"
      by (auto simp: val_ptr_def bind_eq_Some_conv)
    then obtain c where a: "a \<noteq> pl_base j" "gh_cells h a = Some c" "lget ty c = Some s"
      by (auto simp: without_def bind_eq_Some_conv split: if_splits)
    have run: "run_state (clone_field ty zero into (Some i) (Some j)) h
      = run_state (into (deref ty (Some a)) (deref ty (Some ?b))) h2"
      using 1(2) Some L(1-3) by (simp add: clone_field_def)
    obtain h3 where h3:
      "run_state (into (deref ty (Some a)) (deref ty (Some ?b))) h2 = (Inr (), h3)"
      "heap_ok h3" "?b < gh_limit h3" "\<forall>k < ?b. gh_cells h3 k = gh_cells h2 k"
      "\<forall>k c. ?b \<le> k \<longrightarrow> gh_cells h3 k = Some c \<longrightarrow> K (since ?b h3) c"
      "val_ptr ty val (since ?b h3) (Some ?b) = Some (Some w)"
    proof (rule copies_into_new [OF into mono ty typed L(4-6)])
      show "a < ?b" using A a(2) by (auto dest: heap_ok_limit)
      show "look h2 (to_cell ty a) = Some s" using L(8) a by simp
      show "val ((gh_cells h2)(?b := None)) s = Some w"
        using L(7) s(2) by (rule monotone_readingD [OF mono])
    qed blast+
    have "writes K h j (Some ?b) h3"
      using h3 by (intro L(9)) auto
    then show ?thesis
      using run h3(1,6) s(3) by auto
  qed
qed

text \<open>The loop over the elements of two arrays.\<close>

lemma run_for_err_append:
  "run_state (for_err (xs @ ys) f) s
     = run_state (bindE (for_err xs f) (\<lambda>_. for_err ys f)) s"
  by (induction xs arbitrary: s) (auto split: prod.splits sum.splits)

lemma copies_elements:
  assumes into: "copies K False val into" and mono: "monotone_reading val"
    and A: "apart h i j" "look h i = Some xs" "look h j = Some ys0"
    and body: "\<And>k h' ys. k < length ys0 \<Longrightarrow> writes K h j ys h' \<Longrightarrow> run_state (body k) h'
      = run_state (into (Some (part (element (start + k)) i)) (Some (part (element k) j))) h'"
    and xs: "start + length ys0 \<le> length xs"
    and vs: "\<And>k. k < length ys0 \<Longrightarrow> val (without j h) (xs ! (start + k)) = Some (vs ! k)"
    and "n \<le> length ys0"
  shows "\<exists>h' ys. run_state (for_err [0..<n] body) h = (Inr (), h') \<and> writes K h j ys h'
    \<and> length ys = length ys0 \<and> (\<forall>k < n. val (since (gh_limit h) h') (ys ! k) = Some (vs ! k))"
  using assms(9)
proof (induction n)
  case 0
  have "writes K h j ys0 h"
    using A by (intro writes_nothing) (auto simp: apart_def)
  then show ?case by auto
next
  case (Suc n)
  then obtain h1 ys where IH: "run_state (for_err [0..<n] body) h = (Inr (), h1)"
    "writes K h j ys h1" "length ys = length ys0"
    "\<forall>k < n. val (since (gh_limit h) h1) (ys ! k) = Some (vs ! k)"
    by auto
  have n: "n < length ys0" using Suc.prems by simp
  have jn: "look h j \<noteq> None" using A(3) by simp
  obtain h2 q where h2:
    "run_state (into (Some (part (element (start + n)) i)) (Some (part (element n) j))) h1 = (Inr (), h2)"
    "writes K h j (lput (element n) q ys) h2" "val (since (gh_limit h) h2) q = Some (vs ! n)"
    "since (gh_limit h) h1 \<subseteq>\<^sub>m since (gh_limit h) h2"
    by (rule copy_field [where l = "element (start + n)" and m = "element n" and b = "ys ! n",
            OF into mono A(1,2) jn IH(2) lawful_element lawful_element _ _ _ vs [OF n]])
       (use n xs IH(3) in \<open>auto simp: element_def\<close>)
  have "val (since (gh_limit h) h2) (lput (element n) q ys ! k) = Some (vs ! k)" if "k < Suc n" for k
  proof (cases "k = n")
    case True
    with n IH(3) h2(3) show ?thesis by (simp add: element_def)
  next
    case False
    with that IH(4) have "val (since (gh_limit h) h1) (ys ! k) = Some (vs ! k)" by simp
    from monotone_readingD [OF mono h2(4) this] False show ?thesis
      by (simp add: element_def)
  qed
  moreover have "run_state (for_err [0..<Suc n] body) h = (Inr (), h2)"
    using IH(1) body [OF n IH(2)] h2(1) by (simp add: run_for_err_append)
  ultimately show ?case
    using h2(2) IH(3) by (auto simp: element_def)
qed

text \<open>The block for a slice field.\<close>

lemma copies_clone_slice:
  assumes into: "copies K False val into" and mono: "monotone_reading val"
    and ty: "lawful_lens ty" "\<And>n. \<exists>zs. lget ty (zeros n) = Some zs \<and> length zs = n"
    and typed: "\<And>M ys vs n. those (map (val M) ys) = Some vs \<Longrightarrow> K M (lput ty ys (zeros n))"
  shows "copies K True (val_slice ty val) (clone_slice ty zeros into)"
proof (rule copiesI, goal_cases)
  case (1 h i j x y v)
  note A = 1(1) [unfolded apart_def]
  show ?case
  proof (cases x)
    case None
    with 1 A writes_nothing [of h j None] show ?thesis
      by (auto simp: clone_slice_def val_slice_def)
  next
    case (Some sl)
    let ?b = "gh_limit h" and ?n = "sl_len sl"
    let ?new = "\<lparr>sl_array = ?b, sl_start = 0, sl_len = ?n\<rparr>"
    define h2 where "h2 = poke j (Some ?new) (allocated h (zeros ?n))"
    note L = linked_new [OF 1(1-3) h2_def]
    from Some 1(5) obtain xs vs where s: "Option.bind (without j h (sl_array sl)) (lget ty) = Some xs"
      "sl_start sl + ?n \<le> length xs" "v = Some vs"
      "those (map (val (without j h)) (take ?n (drop (sl_start sl) xs))) = Some vs"
      by (auto simp: val_slice_def bind_eq_Some_conv split: if_splits)
    then obtain c where a: "sl_array sl \<noteq> pl_base j" "gh_cells h (sl_array sl) = Some c" "lget ty c = Some xs"
      by (auto simp: without_def bind_eq_Some_conv split: if_splits)
    from ty(2) obtain zs where zs: "lget ty (zeros ?n) = Some zs" "length zs = ?n" by blast
    let ?i = "to_cell ty (sl_array sl)" and ?j = "to_cell ty ?b"
    have A2: "apart h2 ?i ?j"
      using A a(2) ty(1) L(4) by (auto simp: apart_def to_cell_def dest: heap_ok_limit)
    have at2: "look h2 ?i = Some xs" "look h2 ?j = Some zs"
      using L(6,8) a zs by auto
    have old: "look h' i = Some (Some sl)" "look h' j = Some (Some ?new)"
      if "writes K h2 ?j ys h'" for h' ys
      using look_kept [OF that L(4) L(2)] look_kept [OF that L(4) L(3)] A 1(2,3) Some
      by (auto simp: to_cell_def dest: look_limit)
    have val2: "val (without ?j h2) (xs ! (sl_start sl + k)) = Some (vs ! k)" if "k < length zs" for k
    proof -
      have "val (without j h) (xs ! (sl_start sl + k)) = Some (vs ! k)"
        using s(2,4) that zs(2) by (auto simp: those_map_Some)
      from monotone_readingD [OF mono L(7) this] show ?thesis
        by (simp only: without_def to_cell_def place.simps)
    qed
    obtain h3 ys where h3: "run_state (for_err [0..<?n] (\<lambda>k.
        bindE (index ty (Some i) k) (\<lambda>p. bindE (index ty (Some j) k) (\<lambda>q. into p q)))) h2 = (Inr (), h3)"
      "writes K h2 ?j ys h3" "length ys = ?n"
      "\<forall>k < ?n. val (since (gh_limit h2) h3) (ys ! k) = Some (vs ! k)"
      using copies_elements [OF into mono A2 at2 _ _ val2, where n = ?n and body = "\<lambda>k.
        bindE (index ty (Some i) k) (\<lambda>p. bindE (index ty (Some j) k) (\<lambda>q. into p q))"] zs(2) s(2) old
      by (force simp: index_def)
    have le: "since (gh_limit h2) h3 \<subseteq>\<^sub>m since ?b h3"
      by (rule since_le) (simp add: L(5))
    have vs: "those (map (val (since ?b h3)) ys) = Some vs"
      using h3(3,4) s(2,4) monotone_readingD [OF mono le] by (auto simp: those_map_Some)
    note F = filled_new [OF h3(2) L(5,6) typed [OF vs]]
    have "writes K h j (Some ?new) h3"
      using F by (intro L(9)) auto
    moreover have "val_slice ty val (since ?b h3) (Some ?new) = Some (Some vs)"
      using F(5) vs h3(3) zs(1) ty(1) by (simp add: val_slice_def since_def lawful_lens.put_get)
    moreover have "run_state (clone_slice ty zeros into (Some i) (Some j)) h = (Inr (), h3)"
      using 1(2) Some L(1) h3(1) by (simp add: clone_slice_def)
    ultimately show ?thesis
      using s(3) by blast
  qed
qed

text \<open>
  \<open>DeepCopy\<close> of a pointer: old cells are untouched, and the copy has the value of the original
  and is read from new cells only.
\<close>

lemma deep_copy_copies:
  assumes into: "copies K False val into" and mono: "monotone_reading val"
    and ty: "lawful_lens ty" "lget ty zero \<noteq> None"
    and typed: "\<And>M y v. val M y = Some v \<Longrightarrow> K M (lput ty y zero)"
    and h: "heap_ok h" "val_ptr ty val (gh_cells h) (Some a) = Some (Some v)"
  obtains h' b where "run_state (deep_copy ty zero into (Some a)) h = (Inr (Some b), h')"
    "heap_ok h'" "gh_limit h \<le> b" "b < gh_limit h'"
    "\<forall>k < gh_limit h. gh_cells h' k = gh_cells h k"
    "\<forall>k c. gh_limit h \<le> k \<longrightarrow> gh_cells h' k = Some c \<longrightarrow> K (since (gh_limit h) h') c"
    "val_ptr ty val (since (gh_limit h) h') (Some b) = Some (Some v)"
proof -
  let ?b = "gh_limit h" and ?h1 = "allocated h zero"
  obtain s where s: "Option.bind (gh_cells h a) (lget ty) = Some s" "val (gh_cells h) s = Some v"
    using h(2) by (auto simp: val_ptr_def bind_eq_Some_conv)
  have a: "a < ?b"
    using s h(1) by (auto simp: bind_eq_Some_conv dest: heap_ok_limit)
  have ok: "heap_ok ?h1" "gh_limit ?h1 = Suc ?b" "gh_cells ?h1 ?b = Some zero"
    using h(1) by (auto simp: heap_ok_def allocated_def)
  have same: "(gh_cells ?h1)(?b := None) = gh_cells h"
    using h(1) by (auto simp: allocated_def heap_ok_def)
  obtain h' where h': "run_state (into (deref ty (Some a)) (deref ty (Some ?b))) ?h1 = (Inr (), h')"
    "heap_ok h'" "?b < gh_limit h'" "\<forall>k < ?b. gh_cells h' k = gh_cells ?h1 k"
    "\<forall>k c. ?b \<le> k \<longrightarrow> gh_cells h' k = Some c \<longrightarrow> K (since ?b h') c"
    "val_ptr ty val (since ?b h') (Some ?b) = Some (Some v)"
  proof (rule copies_into_new [OF into mono ty typed ok a])
    show "look ?h1 (to_cell ty a) = Some s"
      using s a by (simp add: allocated_def)
    show "val ((gh_cells ?h1)(?b := None)) s = Some v"
      using s same by simp
  qed blast+
  have "run_state (deep_copy ty zero into (Some a)) h = (Inr (Some ?b), h')"
    using h'(1) by (simp add: deep_copy_def)
  then show thesis
    by (rule that) (use h' in \<open>auto simp: allocated_def\<close>)
qed

end

end
