(* ===== verification/Deep_Copy.thy ===== *)
theory Deep_Copy
  imports Go_Heap
begin

text \<open>
  The generated deep copies (api/v1alpha1/zz_generated.deepcopy.go) on the heap of
  \<open>Go_Heap\<close>. A struct in memory has pointers where its value (a record of \<open>Api_Types\<close>) has
  options; \<open>val_volume\<close> and its parts read the value back. The deep copies of \<open>ObjectMeta\<close> and
  \<open>ListMeta\<close> are code of apimachinery: parameters \<open>mc\<close> and \<open>lc\<close>, of which the theorems assume
  that they are deep copies too (\<open>copies\<close>).

  The client-go cache hands out copies made by these functions, and the controllers change what
  they get in place. That a copy shares no cell with its original is why the other theories may
  treat objects as values.
\<close>

section \<open>Structs in memory\<close>

record SSHSource_mem =
  mssh_Host :: string
  mssh_Port :: int
  mssh_User :: string
  mssh_Password :: string
  mssh_PrivateKey :: string
  mssh_Path :: string
  mssh_PrivateKeyFromSecret :: ptr
  mssh_PasswordFromSecret :: ptr

record GitSource_mem =
  mgit_URL :: string
  mgit_User :: string
  mgit_Password :: string
  mgit_PrivateKey :: string
  mgit_Branch :: string
  mgit_PrivateKeyFromSecret :: ptr
  mgit_PasswordFromSecret :: ptr

record S3Source_mem =
  ms3_EndpointURL :: string
  ms3_BucketName :: string
  ms3_Path :: string
  ms3_AccessKey :: string
  ms3_SecretKey :: string
  ms3_Region :: string
  ms3_AccessKeyFromSecret :: ptr
  ms3_SecretKeyFromSecret :: ptr

record VolumeSource_mem =
  msrc_SSH :: ptr
  msrc_HTTP :: ptr
  msrc_Git :: ptr
  msrc_S3 :: ptr

record VolumeSpecBase_mem =
  mb_NfsServer :: ptr
  mb_MountPath :: string
  mb_SyncInterval :: string
  mb_SyncTimeout :: string
  mb_Storage :: ptr
  mb_Source :: ptr
  mb_StorageClassName :: string
  mb_ResourceNamespace :: string
  mb_ReferenceValue :: string

record VolumeSpec_mem =
  ms_VolumeSpecBase :: VolumeSpecBase_mem

record TypeMeta =
  tm_Kind :: string
  tm_APIVersion :: string

text \<open>
  \<open>ObjectMeta\<close> and \<open>ListMeta\<close> are structs of apimachinery. What an \<open>ObjectMeta\<close> holds by
  reference (the maps and slices and the deletion time) is one cell here.
\<close>

record MetaRefs =
  mr_Labels :: labels
  mr_Annotations :: labels
  mr_Finalizers :: "string list"
  mr_DeletionTimestamp :: "int option"
  mr_OwnerReferences :: "OwnerReference list"

record ObjectMeta_mem =
  mo_Name :: string
  mo_Namespace :: string
  mo_UID :: string
  mo_ResourceVersion :: string
  mo_Refs :: ptr

record ListMeta_mem =
  ml_ResourceVersion :: string
  ml_Continue :: string
  ml_RemainingItemCount :: ptr

record Volume_mem =
  mv_TypeMeta :: TypeMeta
  mv_ObjectMeta :: ObjectMeta_mem
  mv_Spec :: VolumeSpec_mem
  mv_Status :: VolumeStatus

record VolumeList_mem =
  mvl_TypeMeta :: TypeMeta
  mvl_ListMeta :: ListMeta_mem
  mvl_Items :: "slice option"

text \<open>The value of a list object.\<close>

record VolumeList =
  vl_TypeMeta :: TypeMeta
  vl_ResourceVersion :: string
  vl_Continue :: string
  vl_RemainingItemCount :: "int option"
  vl_Items :: "VolumeObject list option"

datatype cell =
  CSelector SecretKeySelector
| CSSH SSHSource_mem
| CHTTP HTTPSourceSpec
| CGit GitSource_mem
| CS3 S3Source_mem
| CNfsServer NfsServerSpec
| CStorage StorageSpec
| CSource VolumeSource_mem
| CSpecBase VolumeSpecBase_mem
| CSpec volume_type VolumeSpec_mem
| CStatus volume_type VolumeStatus
| CVolume volume_type Volume_mem
| CVolumes volume_type "Volume_mem list"
| CVolumeList volume_type VolumeList_mem
| CMetaRefs MetaRefs
| CCount int

definition selector_cell where "selector_cell = whole CSelector (\<lambda>c. case c of CSelector x \<Rightarrow> Some x | _ \<Rightarrow> None)"
definition ssh_cell where "ssh_cell = whole CSSH (\<lambda>c. case c of CSSH x \<Rightarrow> Some x | _ \<Rightarrow> None)"
definition http_cell where "http_cell = whole CHTTP (\<lambda>c. case c of CHTTP x \<Rightarrow> Some x | _ \<Rightarrow> None)"
definition git_cell where "git_cell = whole CGit (\<lambda>c. case c of CGit x \<Rightarrow> Some x | _ \<Rightarrow> None)"
definition s3_cell where "s3_cell = whole CS3 (\<lambda>c. case c of CS3 x \<Rightarrow> Some x | _ \<Rightarrow> None)"
definition nfs_cell where "nfs_cell = whole CNfsServer (\<lambda>c. case c of CNfsServer x \<Rightarrow> Some x | _ \<Rightarrow> None)"
definition storage_cell where "storage_cell = whole CStorage (\<lambda>c. case c of CStorage x \<Rightarrow> Some x | _ \<Rightarrow> None)"
definition source_cell where "source_cell = whole CSource (\<lambda>c. case c of CSource x \<Rightarrow> Some x | _ \<Rightarrow> None)"
definition base_cell where "base_cell = whole CSpecBase (\<lambda>c. case c of CSpecBase x \<Rightarrow> Some x | _ \<Rightarrow> None)"
definition spec_cell where "spec_cell t = whole (CSpec t) (\<lambda>c. case c of CSpec t' x \<Rightarrow> if t' = t then Some x else None | _ \<Rightarrow> None)"
definition status_cell where "status_cell t = whole (CStatus t) (\<lambda>c. case c of CStatus t' x \<Rightarrow> if t' = t then Some x else None | _ \<Rightarrow> None)"
definition volume_cell where "volume_cell t = whole (CVolume t) (\<lambda>c. case c of CVolume t' x \<Rightarrow> if t' = t then Some x else None | _ \<Rightarrow> None)"
definition volumes_cell where "volumes_cell t = whole (CVolumes t) (\<lambda>c. case c of CVolumes t' x \<Rightarrow> if t' = t then Some x else None | _ \<Rightarrow> None)"
definition list_cell where "list_cell t = whole (CVolumeList t) (\<lambda>c. case c of CVolumeList t' x \<Rightarrow> if t' = t then Some x else None | _ \<Rightarrow> None)"
definition refs_cell where "refs_cell = whole CMetaRefs (\<lambda>c. case c of CMetaRefs x \<Rightarrow> Some x | _ \<Rightarrow> None)"
definition count_cell where "count_cell = whole CCount (\<lambda>c. case c of CCount x \<Rightarrow> Some x | _ \<Rightarrow> None)"

lemmas cell_defs = selector_cell_def ssh_cell_def http_cell_def git_cell_def s3_cell_def nfs_cell_def
  storage_cell_def source_cell_def base_cell_def spec_cell_def status_cell_def volume_cell_def
  volumes_cell_def list_cell_def refs_cell_def count_cell_def

text \<open>Zero values.\<close>

definition zero_selector :: SecretKeySelector where
  "zero_selector = \<lparr>sel_Name = [], sel_Namespace = [], sel_Key = []\<rparr>"

definition zero_ssh :: SSHSource_mem where
  "zero_ssh = \<lparr>mssh_Host = [], mssh_Port = 0, mssh_User = [], mssh_Password = [], mssh_PrivateKey = [],
     mssh_Path = [], mssh_PrivateKeyFromSecret = None, mssh_PasswordFromSecret = None\<rparr>"

definition zero_http :: HTTPSourceSpec where
  "zero_http = \<lparr>http_URL = []\<rparr>"

definition zero_git :: GitSource_mem where
  "zero_git = \<lparr>mgit_URL = [], mgit_User = [], mgit_Password = [], mgit_PrivateKey = [], mgit_Branch = [],
     mgit_PrivateKeyFromSecret = None, mgit_PasswordFromSecret = None\<rparr>"

definition zero_s3 :: S3Source_mem where
  "zero_s3 = \<lparr>ms3_EndpointURL = [], ms3_BucketName = [], ms3_Path = [], ms3_AccessKey = [], ms3_SecretKey = [],
     ms3_Region = [], ms3_AccessKeyFromSecret = None, ms3_SecretKeyFromSecret = None\<rparr>"

definition zero_nfs :: NfsServerSpec where
  "zero_nfs = \<lparr>nfs_Name = [], nfs_Namespace = [], nfs_URL = [], nfs_Image = [], nfs_Path = []\<rparr>"

definition zero_storage :: StorageSpec where
  "zero_storage = \<lparr>st_Capacity = [], st_AccessMode = []\<rparr>"

definition zero_source :: VolumeSource_mem where
  "zero_source = \<lparr>msrc_SSH = None, msrc_HTTP = None, msrc_Git = None, msrc_S3 = None\<rparr>"

definition zero_base :: VolumeSpecBase_mem where
  "zero_base = \<lparr>mb_NfsServer = None, mb_MountPath = [], mb_SyncInterval = [], mb_SyncTimeout = [],
     mb_Storage = None, mb_Source = None, mb_StorageClassName = [], mb_ResourceNamespace = [],
     mb_ReferenceValue = []\<rparr>"

definition zero_spec :: VolumeSpec_mem where
  "zero_spec = \<lparr>ms_VolumeSpecBase = zero_base\<rparr>"

definition zero_status :: VolumeStatus where
  "zero_status = \<lparr>Phase = [], Message = [], NfsServerAddress = [], PersistentVolumeClaimName = [],
     PersistentVolumeName = [], ServiceName = []\<rparr>"

definition zero_volume :: Volume_mem where
  "zero_volume = \<lparr>mv_TypeMeta = \<lparr>tm_Kind = [], tm_APIVersion = []\<rparr>,
     mv_ObjectMeta = \<lparr>mo_Name = [], mo_Namespace = [], mo_UID = [], mo_ResourceVersion = [], mo_Refs = None\<rparr>,
     mv_Spec = zero_spec, mv_Status = zero_status\<rparr>"

definition zero_list :: VolumeList_mem where
  "zero_list = \<lparr>mvl_TypeMeta = \<lparr>tm_Kind = [], tm_APIVersion = []\<rparr>,
     mvl_ListMeta = \<lparr>ml_ResourceVersion = [], ml_Continue = [], ml_RemainingItemCount = None\<rparr>,
     mvl_Items = None\<rparr>"

section \<open>The generated functions\<close>

type_synonym 'a copier = "(cell, 'a) pointer \<Rightarrow> (cell, 'a) pointer \<Rightarrow> (cell, unit) prog"

text \<open>\<open>in.F.DeepCopyInto(&out.F)\<close>, \<open>out.F = in.F\<close>, and statements in sequence.\<close>

definition at_field :: "('a, 'b) lens \<Rightarrow> 'b copier \<Rightarrow> 'a copier" where
  "at_field m f pin pout = f (amp m pin) (amp m pout)"

fun in_turn :: "'a copier list \<Rightarrow> 'a copier" where
  "in_turn [] pin pout = ret (Inr ())"
| "in_turn (f # fs) pin pout = bindE (f pin pout) (\<lambda>_. in_turn fs pin pout)"

definition SecretKeySelector_DeepCopyInto :: "SecretKeySelector copier" where
  "SecretKeySelector_DeepCopyInto = assign"

definition SSHSourceSpec_DeepCopyInto :: "SSHSource_mem copier" where
  "SSHSourceSpec_DeepCopyInto = in_turn
    [assign,
     at_field (field mssh_PrivateKeyFromSecret mssh_PrivateKeyFromSecret_update)
       (clone_field selector_cell (CSelector zero_selector) assign),
     at_field (field mssh_PasswordFromSecret mssh_PasswordFromSecret_update)
       (clone_field selector_cell (CSelector zero_selector) assign)]"

definition HTTPSourceSpec_DeepCopyInto :: "HTTPSourceSpec copier" where
  "HTTPSourceSpec_DeepCopyInto = assign"

definition GitSourceSpec_DeepCopyInto :: "GitSource_mem copier" where
  "GitSourceSpec_DeepCopyInto = in_turn
    [assign,
     at_field (field mgit_PrivateKeyFromSecret mgit_PrivateKeyFromSecret_update)
       (clone_field selector_cell (CSelector zero_selector) assign),
     at_field (field mgit_PasswordFromSecret mgit_PasswordFromSecret_update)
       (clone_field selector_cell (CSelector zero_selector) assign)]"

definition S3SourceSpec_DeepCopyInto :: "S3Source_mem copier" where
  "S3SourceSpec_DeepCopyInto = in_turn
    [assign,
     at_field (field ms3_AccessKeyFromSecret ms3_AccessKeyFromSecret_update)
       (clone_field selector_cell (CSelector zero_selector) assign),
     at_field (field ms3_SecretKeyFromSecret ms3_SecretKeyFromSecret_update)
       (clone_field selector_cell (CSelector zero_selector) assign)]"

definition NfsServerSpec_DeepCopyInto :: "NfsServerSpec copier" where
  "NfsServerSpec_DeepCopyInto = assign"

definition StorageSpec_DeepCopyInto :: "StorageSpec copier" where
  "StorageSpec_DeepCopyInto = assign"

definition VolumeSourceSpec_DeepCopyInto :: "VolumeSource_mem copier" where
  "VolumeSourceSpec_DeepCopyInto = in_turn
    [assign,
     at_field (field msrc_SSH msrc_SSH_update) (clone_field ssh_cell (CSSH zero_ssh) SSHSourceSpec_DeepCopyInto),
     at_field (field msrc_HTTP msrc_HTTP_update) (clone_field http_cell (CHTTP zero_http) assign),
     at_field (field msrc_Git msrc_Git_update) (clone_field git_cell (CGit zero_git) GitSourceSpec_DeepCopyInto),
     at_field (field msrc_S3 msrc_S3_update) (clone_field s3_cell (CS3 zero_s3) S3SourceSpec_DeepCopyInto)]"

definition VolumeSpecBase_DeepCopyInto :: "VolumeSpecBase_mem copier" where
  "VolumeSpecBase_DeepCopyInto = in_turn
    [assign,
     at_field (field mb_NfsServer mb_NfsServer_update) (clone_field nfs_cell (CNfsServer zero_nfs) assign),
     at_field (field mb_Storage mb_Storage_update) (clone_field storage_cell (CStorage zero_storage) assign),
     at_field (field mb_Source mb_Source_update)
       (clone_field source_cell (CSource zero_source) VolumeSourceSpec_DeepCopyInto)]"

definition SharedVolumeSpec_DeepCopyInto :: "VolumeSpec_mem copier" where
  "SharedVolumeSpec_DeepCopyInto = in_turn
    [assign, at_field (field ms_VolumeSpecBase ms_VolumeSpecBase_update) VolumeSpecBase_DeepCopyInto]"

definition ClusterSharedVolumeSpec_DeepCopyInto :: "VolumeSpec_mem copier" where
  "ClusterSharedVolumeSpec_DeepCopyInto = in_turn
    [assign, at_field (field ms_VolumeSpecBase ms_VolumeSpecBase_update) VolumeSpecBase_DeepCopyInto]"

definition SharedVolumeStatus_DeepCopyInto :: "VolumeStatus copier" where
  "SharedVolumeStatus_DeepCopyInto = assign"

definition ClusterSharedVolumeStatus_DeepCopyInto :: "VolumeStatus copier" where
  "ClusterSharedVolumeStatus_DeepCopyInto = assign"

definition SharedVolume_DeepCopyInto :: "ObjectMeta_mem copier \<Rightarrow> Volume_mem copier" where
  "SharedVolume_DeepCopyInto mc = in_turn
    [assign,
     at_field (field mv_TypeMeta mv_TypeMeta_update) assign,
     at_field (field mv_ObjectMeta mv_ObjectMeta_update) mc,
     at_field (field mv_Spec mv_Spec_update) SharedVolumeSpec_DeepCopyInto,
     at_field (field mv_Status mv_Status_update) assign]"

definition ClusterSharedVolume_DeepCopyInto :: "ObjectMeta_mem copier \<Rightarrow> Volume_mem copier" where
  "ClusterSharedVolume_DeepCopyInto mc = in_turn
    [assign,
     at_field (field mv_TypeMeta mv_TypeMeta_update) assign,
     at_field (field mv_ObjectMeta mv_ObjectMeta_update) mc,
     at_field (field mv_Spec mv_Spec_update) ClusterSharedVolumeSpec_DeepCopyInto,
     at_field (field mv_Status mv_Status_update) assign]"

definition SharedVolumeList_DeepCopyInto ::
  "ObjectMeta_mem copier \<Rightarrow> ListMeta_mem copier \<Rightarrow> VolumeList_mem copier" where
  "SharedVolumeList_DeepCopyInto mc lc = in_turn
    [assign,
     at_field (field mvl_TypeMeta mvl_TypeMeta_update) assign,
     at_field (field mvl_ListMeta mvl_ListMeta_update) lc,
     at_field (field mvl_Items mvl_Items_update)
       (clone_slice (volumes_cell SharedVolume) (\<lambda>n. CVolumes SharedVolume (replicate n zero_volume))
          (SharedVolume_DeepCopyInto mc))]"

definition ClusterSharedVolumeList_DeepCopyInto ::
  "ObjectMeta_mem copier \<Rightarrow> ListMeta_mem copier \<Rightarrow> VolumeList_mem copier" where
  "ClusterSharedVolumeList_DeepCopyInto mc lc = in_turn
    [assign,
     at_field (field mvl_TypeMeta mvl_TypeMeta_update) assign,
     at_field (field mvl_ListMeta mvl_ListMeta_update) lc,
     at_field (field mvl_Items mvl_Items_update)
       (clone_slice (volumes_cell ClusterSharedVolume)
          (\<lambda>n. CVolumes ClusterSharedVolume (replicate n zero_volume))
          (ClusterSharedVolume_DeepCopyInto mc))]"

text \<open>\<open>DeepCopy\<close> of every type.\<close>

definition SecretKeySelector_DeepCopy :: "ptr \<Rightarrow> (cell, ptr) prog" where
  "SecretKeySelector_DeepCopy = deep_copy selector_cell (CSelector zero_selector) SecretKeySelector_DeepCopyInto"

definition SSHSourceSpec_DeepCopy :: "ptr \<Rightarrow> (cell, ptr) prog" where
  "SSHSourceSpec_DeepCopy = deep_copy ssh_cell (CSSH zero_ssh) SSHSourceSpec_DeepCopyInto"

definition HTTPSourceSpec_DeepCopy :: "ptr \<Rightarrow> (cell, ptr) prog" where
  "HTTPSourceSpec_DeepCopy = deep_copy http_cell (CHTTP zero_http) HTTPSourceSpec_DeepCopyInto"

definition GitSourceSpec_DeepCopy :: "ptr \<Rightarrow> (cell, ptr) prog" where
  "GitSourceSpec_DeepCopy = deep_copy git_cell (CGit zero_git) GitSourceSpec_DeepCopyInto"

definition S3SourceSpec_DeepCopy :: "ptr \<Rightarrow> (cell, ptr) prog" where
  "S3SourceSpec_DeepCopy = deep_copy s3_cell (CS3 zero_s3) S3SourceSpec_DeepCopyInto"

definition NfsServerSpec_DeepCopy :: "ptr \<Rightarrow> (cell, ptr) prog" where
  "NfsServerSpec_DeepCopy = deep_copy nfs_cell (CNfsServer zero_nfs) NfsServerSpec_DeepCopyInto"

definition StorageSpec_DeepCopy :: "ptr \<Rightarrow> (cell, ptr) prog" where
  "StorageSpec_DeepCopy = deep_copy storage_cell (CStorage zero_storage) StorageSpec_DeepCopyInto"

definition VolumeSourceSpec_DeepCopy :: "ptr \<Rightarrow> (cell, ptr) prog" where
  "VolumeSourceSpec_DeepCopy = deep_copy source_cell (CSource zero_source) VolumeSourceSpec_DeepCopyInto"

definition VolumeSpecBase_DeepCopy :: "ptr \<Rightarrow> (cell, ptr) prog" where
  "VolumeSpecBase_DeepCopy = deep_copy base_cell (CSpecBase zero_base) VolumeSpecBase_DeepCopyInto"

definition SharedVolumeSpec_DeepCopy :: "ptr \<Rightarrow> (cell, ptr) prog" where
  "SharedVolumeSpec_DeepCopy =
     deep_copy (spec_cell SharedVolume) (CSpec SharedVolume zero_spec) SharedVolumeSpec_DeepCopyInto"

definition ClusterSharedVolumeSpec_DeepCopy :: "ptr \<Rightarrow> (cell, ptr) prog" where
  "ClusterSharedVolumeSpec_DeepCopy =
     deep_copy (spec_cell ClusterSharedVolume) (CSpec ClusterSharedVolume zero_spec)
       ClusterSharedVolumeSpec_DeepCopyInto"

definition SharedVolumeStatus_DeepCopy :: "ptr \<Rightarrow> (cell, ptr) prog" where
  "SharedVolumeStatus_DeepCopy =
     deep_copy (status_cell SharedVolume) (CStatus SharedVolume zero_status) SharedVolumeStatus_DeepCopyInto"

definition ClusterSharedVolumeStatus_DeepCopy :: "ptr \<Rightarrow> (cell, ptr) prog" where
  "ClusterSharedVolumeStatus_DeepCopy =
     deep_copy (status_cell ClusterSharedVolume) (CStatus ClusterSharedVolume zero_status)
       ClusterSharedVolumeStatus_DeepCopyInto"

definition SharedVolume_DeepCopy :: "ObjectMeta_mem copier \<Rightarrow> ptr \<Rightarrow> (cell, ptr) prog" where
  "SharedVolume_DeepCopy mc =
     deep_copy (volume_cell SharedVolume) (CVolume SharedVolume zero_volume) (SharedVolume_DeepCopyInto mc)"

definition ClusterSharedVolume_DeepCopy :: "ObjectMeta_mem copier \<Rightarrow> ptr \<Rightarrow> (cell, ptr) prog" where
  "ClusterSharedVolume_DeepCopy mc =
     deep_copy (volume_cell ClusterSharedVolume) (CVolume ClusterSharedVolume zero_volume)
       (ClusterSharedVolume_DeepCopyInto mc)"

definition SharedVolumeList_DeepCopy ::
  "ObjectMeta_mem copier \<Rightarrow> ListMeta_mem copier \<Rightarrow> ptr \<Rightarrow> (cell, ptr) prog" where
  "SharedVolumeList_DeepCopy mc lc =
     deep_copy (list_cell SharedVolume) (CVolumeList SharedVolume zero_list) (SharedVolumeList_DeepCopyInto mc lc)"

definition ClusterSharedVolumeList_DeepCopy ::
  "ObjectMeta_mem copier \<Rightarrow> ListMeta_mem copier \<Rightarrow> ptr \<Rightarrow> (cell, ptr) prog" where
  "ClusterSharedVolumeList_DeepCopy mc lc =
     deep_copy (list_cell ClusterSharedVolume) (CVolumeList ClusterSharedVolume zero_list)
       (ClusterSharedVolumeList_DeepCopyInto mc lc)"

text \<open>
  \<open>DeepCopyObject\<close> returns a value of the interface type \<open>runtime.Object\<close>: nil, or a pointer
  together with its type. A nil pointer with a type is an interface value that is not nil.
\<close>

datatype runtime_Object = VolumeObj volume_type ptr | VolumeListObj volume_type ptr

definition SharedVolume_DeepCopyObject ::
  "ObjectMeta_mem copier \<Rightarrow> ptr \<Rightarrow> (cell, runtime_Object option) prog" where
  "SharedVolume_DeepCopyObject mc pin =
     bindE (SharedVolume_DeepCopy mc pin) (\<lambda>c.
       if c \<noteq> None then ret (Inr (Some (VolumeObj SharedVolume c))) else ret (Inr None))"

definition ClusterSharedVolume_DeepCopyObject ::
  "ObjectMeta_mem copier \<Rightarrow> ptr \<Rightarrow> (cell, runtime_Object option) prog" where
  "ClusterSharedVolume_DeepCopyObject mc pin =
     bindE (ClusterSharedVolume_DeepCopy mc pin) (\<lambda>c.
       if c \<noteq> None then ret (Inr (Some (VolumeObj ClusterSharedVolume c))) else ret (Inr None))"

definition SharedVolumeList_DeepCopyObject ::
  "ObjectMeta_mem copier \<Rightarrow> ListMeta_mem copier \<Rightarrow> ptr \<Rightarrow> (cell, runtime_Object option) prog" where
  "SharedVolumeList_DeepCopyObject mc lc pin =
     bindE (SharedVolumeList_DeepCopy mc lc pin) (\<lambda>c.
       if c \<noteq> None then ret (Inr (Some (VolumeListObj SharedVolume c))) else ret (Inr None))"

definition ClusterSharedVolumeList_DeepCopyObject ::
  "ObjectMeta_mem copier \<Rightarrow> ListMeta_mem copier \<Rightarrow> ptr \<Rightarrow> (cell, runtime_Object option) prog" where
  "ClusterSharedVolumeList_DeepCopyObject mc lc pin =
     bindE (ClusterSharedVolumeList_DeepCopy mc lc pin) (\<lambda>c.
       if c \<noteq> None then ret (Inr (Some (VolumeListObj ClusterSharedVolume c))) else ret (Inr None))"

section \<open>The values of structs in memory\<close>

definition val_selector :: "(nat \<rightharpoonup> cell) \<Rightarrow> ptr \<Rightarrow> SecretKeySelector option option" where
  "val_selector = val_ptr selector_cell (\<lambda>_. Some)"

definition val_ssh :: "(nat \<rightharpoonup> cell) \<Rightarrow> SSHSource_mem \<Rightarrow> SSHSourceSpec option" where
  "val_ssh M x =
     Option.bind (val_selector M (mssh_PrivateKeyFromSecret x)) (\<lambda>k.
     Option.bind (val_selector M (mssh_PasswordFromSecret x)) (\<lambda>p. Some
       \<lparr>ssh_Host = mssh_Host x, ssh_Port = mssh_Port x, ssh_User = mssh_User x,
        ssh_Password = mssh_Password x, ssh_PrivateKey = mssh_PrivateKey x, ssh_Path = mssh_Path x,
        ssh_PrivateKeyFromSecret = k, ssh_PasswordFromSecret = p\<rparr>))"

definition val_git :: "(nat \<rightharpoonup> cell) \<Rightarrow> GitSource_mem \<Rightarrow> GitSourceSpec option" where
  "val_git M x =
     Option.bind (val_selector M (mgit_PrivateKeyFromSecret x)) (\<lambda>k.
     Option.bind (val_selector M (mgit_PasswordFromSecret x)) (\<lambda>p. Some
       \<lparr>git_URL = mgit_URL x, git_User = mgit_User x, git_Password = mgit_Password x,
        git_PrivateKey = mgit_PrivateKey x, git_Branch = mgit_Branch x,
        git_PrivateKeyFromSecret = k, git_PasswordFromSecret = p\<rparr>))"

definition val_s3 :: "(nat \<rightharpoonup> cell) \<Rightarrow> S3Source_mem \<Rightarrow> S3SourceSpec option" where
  "val_s3 M x =
     Option.bind (val_selector M (ms3_AccessKeyFromSecret x)) (\<lambda>k.
     Option.bind (val_selector M (ms3_SecretKeyFromSecret x)) (\<lambda>p. Some
       \<lparr>s3_EndpointURL = ms3_EndpointURL x, s3_BucketName = ms3_BucketName x, s3_Path = ms3_Path x,
        s3_AccessKey = ms3_AccessKey x, s3_SecretKey = ms3_SecretKey x, s3_Region = ms3_Region x,
        s3_AccessKeyFromSecret = k, s3_SecretKeyFromSecret = p\<rparr>))"

definition val_source :: "(nat \<rightharpoonup> cell) \<Rightarrow> VolumeSource_mem \<Rightarrow> VolumeSourceSpec option" where
  "val_source M x =
     Option.bind (val_ptr ssh_cell val_ssh M (msrc_SSH x)) (\<lambda>ssh.
     Option.bind (val_ptr http_cell (\<lambda>_. Some) M (msrc_HTTP x)) (\<lambda>http.
     Option.bind (val_ptr git_cell val_git M (msrc_Git x)) (\<lambda>git.
     Option.bind (val_ptr s3_cell val_s3 M (msrc_S3 x)) (\<lambda>s3. Some
       \<lparr>src_SSH = ssh, src_HTTP = http, src_Git = git, src_S3 = s3\<rparr>))))"

definition val_base :: "(nat \<rightharpoonup> cell) \<Rightarrow> VolumeSpecBase_mem \<Rightarrow> VolumeSpecBase option" where
  "val_base M x =
     Option.bind (val_ptr nfs_cell (\<lambda>_. Some) M (mb_NfsServer x)) (\<lambda>nfs.
     Option.bind (val_ptr storage_cell (\<lambda>_. Some) M (mb_Storage x)) (\<lambda>sto.
     Option.bind (val_ptr source_cell val_source M (mb_Source x)) (\<lambda>src. Some
       \<lparr>NfsServer = nfs, MountPath = mb_MountPath x, SyncInterval = mb_SyncInterval x,
        SyncTimeout = mb_SyncTimeout x, Storage = sto, Source = src,
        StorageClassName = mb_StorageClassName x, ResourceNamespace = mb_ResourceNamespace x,
        ReferenceValue = mb_ReferenceValue x\<rparr>)))"

definition val_spec :: "(nat \<rightharpoonup> cell) \<Rightarrow> VolumeSpec_mem \<Rightarrow> VolumeSpecBase option" where
  "val_spec M x = val_base M (ms_VolumeSpecBase x)"

definition val_meta :: "(nat \<rightharpoonup> cell) \<Rightarrow> ObjectMeta_mem \<Rightarrow> ObjectMeta option" where
  "val_meta M x = map_option (\<lambda>refs.
     let r = (case refs of None \<Rightarrow> \<lparr>mr_Labels = [], mr_Annotations = [], mr_Finalizers = [],
                mr_DeletionTimestamp = None, mr_OwnerReferences = []\<rparr> | Some r \<Rightarrow> r)
     in \<lparr>om_Name = mo_Name x, om_Namespace = mo_Namespace x, om_UID = mo_UID x,
         om_ResourceVersion = mo_ResourceVersion x, om_Labels = mr_Labels r,
         om_Annotations = mr_Annotations r, om_Finalizers = mr_Finalizers r,
         om_DeletionTimestamp = mr_DeletionTimestamp r, om_OwnerReferences = mr_OwnerReferences r\<rparr>)
     (val_ptr refs_cell (\<lambda>_. Some) M (mo_Refs x))"

definition val_list_meta ::
  "(nat \<rightharpoonup> cell) \<Rightarrow> ListMeta_mem \<Rightarrow> (string \<times> string \<times> int option) option" where
  "val_list_meta M x = map_option (\<lambda>n. (ml_ResourceVersion x, ml_Continue x, n))
     (val_ptr count_cell (\<lambda>_. Some) M (ml_RemainingItemCount x))"

definition val_volume :: "volume_type \<Rightarrow> (nat \<rightharpoonup> cell) \<Rightarrow> Volume_mem \<Rightarrow> VolumeObject option" where
  "val_volume t M x =
     Option.bind (val_meta M (mv_ObjectMeta x)) (\<lambda>m.
     Option.bind (val_spec M (mv_Spec x)) (\<lambda>sp. Some
       \<lparr>vo_type = t, vo_APIVersion = tm_APIVersion (mv_TypeMeta x), vo_Kind = tm_Kind (mv_TypeMeta x),
        vo_Meta = m, vo_Spec = sp, vo_Status = mv_Status x\<rparr>))"

definition val_list :: "volume_type \<Rightarrow> (nat \<rightharpoonup> cell) \<Rightarrow> VolumeList_mem \<Rightarrow> VolumeList option" where
  "val_list t M x =
     Option.bind (val_list_meta M (mvl_ListMeta x)) (\<lambda>(rv, cont, n).
     Option.bind (val_slice (volumes_cell t) (val_volume t) M (mvl_Items x)) (\<lambda>vs. Some
       \<lparr>vl_TypeMeta = mvl_TypeMeta x, vl_ResourceVersion = rv, vl_Continue = cont,
        vl_RemainingItemCount = n, vl_Items = vs\<rparr>))"

text \<open>
  A cell conforms if everything it reaches is there and of the type its fields declare, which is
  what Go's type system guarantees of memory; a heap is well typed if all its cells conform.
\<close>

fun conforms :: "(nat \<rightharpoonup> cell) \<Rightarrow> cell \<Rightarrow> bool" where
  "conforms M (CSSH x) = (val_ssh M x \<noteq> None)"
| "conforms M (CGit x) = (val_git M x \<noteq> None)"
| "conforms M (CS3 x) = (val_s3 M x \<noteq> None)"
| "conforms M (CSource x) = (val_source M x \<noteq> None)"
| "conforms M (CSpecBase x) = (val_base M x \<noteq> None)"
| "conforms M (CSpec t x) = (val_spec M x \<noteq> None)"
| "conforms M (CVolume t x) = (val_volume t M x \<noteq> None)"
| "conforms M (CVolumes t xs) = (\<forall>x \<in> set xs. val_volume t M x \<noteq> None)"
| "conforms M (CVolumeList t x) = (val_list t M x \<noteq> None)"
| "conforms M _ = True"

definition well_typed :: "cell heap \<Rightarrow> bool" where
  "well_typed h \<longleftrightarrow> heap_ok h \<and> (\<forall>a c. gh_cells h a = Some c \<longrightarrow> conforms (gh_cells h) c)"

text \<open>What a pointer to a volume or to a list points to.\<close>

abbreviation volume_at :: "volume_type \<Rightarrow> (nat \<rightharpoonup> cell) \<Rightarrow> ptr \<Rightarrow> VolumeObject option option" where
  "volume_at t \<equiv> val_ptr (volume_cell t) (val_volume t)"

abbreviation list_at :: "volume_type \<Rightarrow> (nat \<rightharpoonup> cell) \<Rightarrow> ptr \<Rightarrow> VolumeList option option" where
  "list_at t \<equiv> val_ptr (list_cell t) (val_list t)"

subsection \<open>Readings only get more defined\<close>

named_theorems readings \<open>monotone readings\<close>

lemma monotone_bind [readings]:
  assumes "monotone_reading P" and "\<And>a. monotone_reading (Q a)"
  shows "monotone_reading (\<lambda>M x. Option.bind (P M (g x)) (\<lambda>a. Q a M x))"
  using assms unfolding monotone_reading_def bind_eq_Some_conv by blast

lemma monotone_map [readings]:
  assumes "monotone_reading P"
  shows "monotone_reading (\<lambda>M x. map_option (F x) (P M (g x)))"
  using assms unfolding monotone_reading_def map_option_eq_Some by blast

lemma monotone_const [readings]: "monotone_reading (\<lambda>M x. Some (F x))"
  by (simp add: monotone_reading_def)

lemmas [readings] = monotone_Some monotone_val_ptr monotone_val_slice

lemma monotone_selector [readings]: "monotone_reading val_selector"
  unfolding val_selector_def by (intro readings)

lemma monotone_ssh [readings]: "monotone_reading val_ssh"
  unfolding val_ssh_def by (intro readings)

lemma monotone_git [readings]: "monotone_reading val_git"
  unfolding val_git_def by (intro readings)

lemma monotone_s3 [readings]: "monotone_reading val_s3"
  unfolding val_s3_def by (intro readings)

lemma monotone_source [readings]: "monotone_reading val_source"
  unfolding val_source_def by (intro readings)

lemma monotone_base [readings]: "monotone_reading val_base"
  unfolding val_base_def by (intro readings)

lemma monotone_spec [readings]: "monotone_reading val_spec"
  unfolding val_spec_def using monotone_base by (simp add: monotone_reading_def)

lemma monotone_meta [readings]: "monotone_reading val_meta"
  unfolding val_meta_def by (intro readings)

lemma monotone_list_meta [readings]: "monotone_reading val_list_meta"
  unfolding val_list_meta_def by (intro readings)

lemma monotone_volume [readings]: "monotone_reading (val_volume t)"
  unfolding val_volume_def by (intro readings)

lemma monotone_list [readings]: "monotone_reading (val_list t)"
  unfolding val_list_def case_prod_beta by (intro readings)

lemmas struct_grows = monotone_ssh [THEN monotone_readingD] monotone_git [THEN monotone_readingD]
  monotone_s3 [THEN monotone_readingD] monotone_source [THEN monotone_readingD]
  monotone_base [THEN monotone_readingD] monotone_spec [THEN monotone_readingD]
  monotone_volume [THEN monotone_readingD] monotone_list [THEN monotone_readingD]

lemma conforms_grows: "M \<subseteq>\<^sub>m N \<Longrightarrow> conforms M c \<Longrightarrow> conforms N c"
  by (cases c) (simp_all, (blast dest: struct_grows)+)

interpretation mem: cell_typing conforms
  by unfold_locales (rule conforms_grows)

subsection \<open>Cell types and fields are lawful\<close>

named_theorems lawful \<open>lawful lenses\<close>

lemma lawful_cells [lawful]:
  "lawful_lens selector_cell" "lawful_lens ssh_cell" "lawful_lens http_cell" "lawful_lens git_cell"
  "lawful_lens s3_cell" "lawful_lens nfs_cell" "lawful_lens storage_cell" "lawful_lens source_cell"
  "lawful_lens base_cell" "lawful_lens (spec_cell t)" "lawful_lens (status_cell t)"
  "lawful_lens (volume_cell t)" "lawful_lens (volumes_cell t)" "lawful_lens (list_cell t)"
  "lawful_lens refs_cell" "lawful_lens count_cell"
  unfolding cell_defs by (rule lawful_whole; auto split: cell.splits if_splits)+

lemma cell_simps [simp]:
  "lget selector_cell (CSelector a) = Some a" "lget ssh_cell (CSSH b) = Some b"
  "lget http_cell (CHTTP c) = Some c" "lget git_cell (CGit d) = Some d" "lget s3_cell (CS3 e) = Some e"
  "lget nfs_cell (CNfsServer f) = Some f" "lget storage_cell (CStorage g) = Some g"
  "lget source_cell (CSource i) = Some i" "lget base_cell (CSpecBase j) = Some j"
  "lget (spec_cell t) (CSpec t k) = Some k" "lget (status_cell t) (CStatus t l) = Some l"
  "lget (volume_cell t) (CVolume t m) = Some m" "lget (volumes_cell t) (CVolumes t n) = Some n"
  "lget (list_cell t) (CVolumeList t q) = Some q" "lget refs_cell (CMetaRefs r) = Some r"
  "lget count_cell (CCount w) = Some w"
  "lput selector_cell a z = CSelector a" "lput ssh_cell b z = CSSH b"
  "lput http_cell c z = CHTTP c" "lput git_cell d z = CGit d" "lput s3_cell e z = CS3 e"
  "lput nfs_cell f z = CNfsServer f" "lput storage_cell g z = CStorage g"
  "lput source_cell i z = CSource i" "lput base_cell j z = CSpecBase j"
  "lput (spec_cell t) k z = CSpec t k" "lput (status_cell t) l z = CStatus t l"
  "lput (volume_cell t) m z = CVolume t m" "lput (volumes_cell t) n z = CVolumes t n"
  "lput (list_cell t) q z = CVolumeList t q" "lput refs_cell r z = CMetaRefs r"
  "lput count_cell w z = CCount w"
  by (simp_all add: cell_defs whole_def)

lemma lawful_fields [lawful]:
  "lawful_lens (field mssh_PrivateKeyFromSecret mssh_PrivateKeyFromSecret_update)" "lawful_lens (field mssh_PasswordFromSecret mssh_PasswordFromSecret_update)"
  "lawful_lens (field mgit_PrivateKeyFromSecret mgit_PrivateKeyFromSecret_update)" "lawful_lens (field mgit_PasswordFromSecret mgit_PasswordFromSecret_update)"
  "lawful_lens (field ms3_AccessKeyFromSecret ms3_AccessKeyFromSecret_update)" "lawful_lens (field ms3_SecretKeyFromSecret ms3_SecretKeyFromSecret_update)"
  "lawful_lens (field msrc_SSH msrc_SSH_update)" "lawful_lens (field msrc_HTTP msrc_HTTP_update)" "lawful_lens (field msrc_Git msrc_Git_update)" "lawful_lens (field msrc_S3 msrc_S3_update)"
  "lawful_lens (field mb_NfsServer mb_NfsServer_update)" "lawful_lens (field mb_Storage mb_Storage_update)" "lawful_lens (field mb_Source mb_Source_update)" "lawful_lens (field ms_VolumeSpecBase ms_VolumeSpecBase_update)"
  "lawful_lens (field mv_TypeMeta mv_TypeMeta_update)" "lawful_lens (field mv_ObjectMeta mv_ObjectMeta_update)" "lawful_lens (field mv_Spec mv_Spec_update)" "lawful_lens (field mv_Status mv_Status_update)"
  "lawful_lens (field mvl_TypeMeta mvl_TypeMeta_update)" "lawful_lens (field mvl_ListMeta mvl_ListMeta_update)" "lawful_lens (field mvl_Items mvl_Items_update)"
  "lawful_lens (field mo_Refs mo_Refs_update)" "lawful_lens (field ml_RemainingItemCount ml_RemainingItemCount_update)"
  by (rule lawful_field; simp)+

section \<open>The generated functions make deep copies\<close>

text \<open>
  A copy under way: \<open>out\<close> has been brought to \<open>y\<close>, starting from the heap \<open>h\<close> and the struct \<open>x\<close>
  at \<open>in\<close>.
\<close>

definition stage ::
  "cell heap \<Rightarrow> (cell, 'a) place \<Rightarrow> (cell, 'a) place \<Rightarrow> 'a \<Rightarrow> 'a \<Rightarrow> cell heap \<Rightarrow> bool" where
  "stage h i j x y h1 \<longleftrightarrow>
     apart h i j \<and> look h i = Some x \<and> look h j \<noteq> None \<and> writes conforms h j y h1"

text \<open>
  \<open>fills h i j x y P fs Q\<close>: with \<open>P\<close> known of the new cells, the remaining statements \<open>fs\<close> bring
  \<open>out\<close> from \<open>y\<close> to a struct that satisfies \<open>Q\<close>. Every field copied adds what can be read
  through it to what is known.
\<close>

definition grows :: "((nat \<rightharpoonup> cell) \<Rightarrow> bool) \<Rightarrow> bool" where
  "grows P \<longleftrightarrow> (\<forall>M N. M \<subseteq>\<^sub>m N \<longrightarrow> P M \<longrightarrow> P N)"

definition fills ::
  "cell heap \<Rightarrow> (cell, 'a) place \<Rightarrow> (cell, 'a) place \<Rightarrow> 'a \<Rightarrow> 'a \<Rightarrow> ((nat \<rightharpoonup> cell) \<Rightarrow> bool)
     \<Rightarrow> 'a copier list \<Rightarrow> ((nat \<rightharpoonup> cell) \<Rightarrow> 'a \<Rightarrow> bool) \<Rightarrow> bool" where
  "fills h i j x y P fs Q \<longleftrightarrow>
     (grows P \<longrightarrow> (\<forall>h1. stage h i j x y h1 \<longrightarrow> P (since (gh_limit h) h1) \<longrightarrow>
        (\<exists>h2 z. run_state (in_turn fs (Some i) (Some j)) h1 = (Inr (), h2)
           \<and> stage h i j x z h2 \<and> Q (since (gh_limit h) h2) z)))"

lemma fills_done: "(\<And>N. P N \<Longrightarrow> Q N y) \<Longrightarrow> fills h i j x y P [] Q"
  by (auto simp: fills_def)

lemma fills_field:
  assumes c: "copies conforms sh val f" "monotone_reading val" "lawful_lens (field g u)"
    and y: "sh \<longrightarrow> g y = g x" and v: "val (without j h) (g x) = Some v"
    and rest: "\<And>q. fills h i j x (u (\<lambda>_. q) y) (\<lambda>N. P N \<and> val N q = Some v) fs Q"
  shows "fills h i j x y P (at_field (field g u) f # fs) Q"
  unfolding fills_def
proof (intro allI impI)
  fix h1
  assume P: "grows P" "P (since (gh_limit h) h1)" and S: "stage h i j x y h1"
  obtain h2 q where h2:
    "run_state (f (Some (part (field g u) i)) (Some (part (field g u) j))) h1 = (Inr (), h2)"
    "writes conforms h j (lput (field g u) q y) h2" "val (since (gh_limit h) h2) q = Some v"
    "since (gh_limit h) h1 \<subseteq>\<^sub>m since (gh_limit h) h2"
    by (rule mem.copy_field [OF c(1,2) _ _ _ _ c(3) c(3), of h i j x y h1 "g x" "g y" v])
       (use S y v in \<open>auto simp: stage_def\<close>)
  have "grows (\<lambda>N. P N \<and> val N q = Some v)"
    using P(1) c(2) by (auto simp: grows_def monotone_reading_def)
  moreover have "stage h i j x (u (\<lambda>_. q) y) h2"
    using S h2(2) by (simp add: stage_def)
  moreover have "P (since (gh_limit h) h2)"
    using P h2(4) by (auto simp: grows_def)
  ultimately obtain h3 z where "run_state (in_turn fs (Some i) (Some j)) h2 = (Inr (), h3)"
    "stage h i j x z h3" "Q (since (gh_limit h) h3) z"
    using rest [of q] h2(3) by (auto simp: fills_def)
  with h2(1) show "\<exists>h2 z. run_state (in_turn (at_field (field g u) f # fs) (Some i) (Some j)) h1
      = (Inr (), h2) \<and> stage h i j x z h2 \<and> Q (since (gh_limit h) h2) z"
    by (auto simp: at_field_def)
qed

lemma copies_struct:
  assumes "\<And>h i j x v. val (without j h) x = Some v
    \<Longrightarrow> fills h i j x x (\<lambda>_. True) fs (\<lambda>N z. val N z = Some v)"
  shows "copies conforms False val (in_turn (assign # fs))"
proof (rule copiesI, goal_cases)
  case (1 h i j x y v)
  then obtain h1 where h1: "run_state (assign (Some i) (Some j)) h = (Inr (), h1)" "stage h i j x x h1"
    by (auto simp: assign_def stage_def apart_def intro!: mem.poke_writes)
  with assms [OF 1(5), of i] show ?case
    by (auto simp: fills_def grows_def stage_def)
qed

lemmas copies_plain = mem.copies_assign

lemma copies_selector:
  "copies conforms True val_selector (clone_field selector_cell (CSelector zero_selector) assign)"
  unfolding val_selector_def
  by (rule mem.copies_clone_field [OF copies_plain]) (simp_all add: readings lawful)

lemma copies_ssh: "copies conforms False val_ssh SSHSourceSpec_DeepCopyInto"
  unfolding SSHSourceSpec_DeepCopyInto_def
proof (rule copies_struct, goal_cases)
  case (1 h i j x v)
  then obtain a b where v: "val_selector (without j h) (mssh_PrivateKeyFromSecret x) = Some a"
      "val_selector (without j h) (mssh_PasswordFromSecret x) = Some b"
    by (auto simp: val_ssh_def bind_eq_Some_conv)
  show ?case
    by (rule fills_field [OF copies_selector monotone_selector], rule lawful, simp, rule v(1),
        rule fills_field [OF copies_selector monotone_selector], rule lawful, simp, rule v(2),
        rule fills_done) (use 1 v in \<open>simp add: val_ssh_def\<close>)
qed

lemma copies_git: "copies conforms False val_git GitSourceSpec_DeepCopyInto"
  unfolding GitSourceSpec_DeepCopyInto_def
proof (rule copies_struct, goal_cases)
  case (1 h i j x v)
  then obtain a b where v: "val_selector (without j h) (mgit_PrivateKeyFromSecret x) = Some a"
      "val_selector (without j h) (mgit_PasswordFromSecret x) = Some b"
    by (auto simp: val_git_def bind_eq_Some_conv)
  show ?case
    by (rule fills_field [OF copies_selector monotone_selector], rule lawful, simp, rule v(1),
        rule fills_field [OF copies_selector monotone_selector], rule lawful, simp, rule v(2),
        rule fills_done) (use 1 v in \<open>simp add: val_git_def\<close>)
qed

lemma copies_s3: "copies conforms False val_s3 S3SourceSpec_DeepCopyInto"
  unfolding S3SourceSpec_DeepCopyInto_def
proof (rule copies_struct, goal_cases)
  case (1 h i j x v)
  then obtain a b where v: "val_selector (without j h) (ms3_AccessKeyFromSecret x) = Some a"
      "val_selector (without j h) (ms3_SecretKeyFromSecret x) = Some b"
    by (auto simp: val_s3_def bind_eq_Some_conv)
  show ?case
    by (rule fills_field [OF copies_selector monotone_selector], rule lawful, simp, rule v(1),
        rule fills_field [OF copies_selector monotone_selector], rule lawful, simp, rule v(2),
        rule fills_done) (use 1 v in \<open>simp add: val_s3_def\<close>)
qed

lemma copies_ssh_field:
  "copies conforms True (val_ptr ssh_cell val_ssh) (clone_field ssh_cell (CSSH zero_ssh) SSHSourceSpec_DeepCopyInto)"
  by (rule mem.copies_clone_field [OF copies_ssh]) (simp_all add: readings lawful)

lemma copies_http_field:
  "copies conforms True (val_ptr http_cell (\<lambda>_. Some)) (clone_field http_cell (CHTTP zero_http) assign)"
  by (rule mem.copies_clone_field [OF copies_plain]) (simp_all add: readings lawful)

lemma copies_git_field:
  "copies conforms True (val_ptr git_cell val_git) (clone_field git_cell (CGit zero_git) GitSourceSpec_DeepCopyInto)"
  by (rule mem.copies_clone_field [OF copies_git]) (simp_all add: readings lawful)

lemma copies_s3_field:
  "copies conforms True (val_ptr s3_cell val_s3) (clone_field s3_cell (CS3 zero_s3) S3SourceSpec_DeepCopyInto)"
  by (rule mem.copies_clone_field [OF copies_s3]) (simp_all add: readings lawful)

lemma copies_nfs_field:
  "copies conforms True (val_ptr nfs_cell (\<lambda>_. Some)) (clone_field nfs_cell (CNfsServer zero_nfs) assign)"
  by (rule mem.copies_clone_field [OF copies_plain]) (simp_all add: readings lawful)

lemma copies_storage_field:
  "copies conforms True (val_ptr storage_cell (\<lambda>_. Some)) (clone_field storage_cell (CStorage zero_storage) assign)"
  by (rule mem.copies_clone_field [OF copies_plain]) (simp_all add: readings lawful)

lemma copies_source: "copies conforms False val_source VolumeSourceSpec_DeepCopyInto"
  unfolding VolumeSourceSpec_DeepCopyInto_def
proof (rule copies_struct, goal_cases)
  case (1 h i j x v)
  then obtain a b c d where v: "val_ptr ssh_cell val_ssh (without j h) (msrc_SSH x) = Some a"
      "val_ptr http_cell (\<lambda>_. Some) (without j h) (msrc_HTTP x) = Some b"
      "val_ptr git_cell val_git (without j h) (msrc_Git x) = Some c"
      "val_ptr s3_cell val_s3 (without j h) (msrc_S3 x) = Some d"
    by (auto simp: val_source_def bind_eq_Some_conv)
  show ?case
    by (rule fills_field [OF copies_ssh_field monotone_val_ptr [OF monotone_ssh]], rule lawful, simp, rule v(1),
        rule fills_field [OF copies_http_field monotone_val_ptr [OF monotone_Some]], rule lawful, simp, rule v(2),
        rule fills_field [OF copies_git_field monotone_val_ptr [OF monotone_git]], rule lawful, simp, rule v(3),
        rule fills_field [OF copies_s3_field monotone_val_ptr [OF monotone_s3]], rule lawful, simp, rule v(4),
        rule fills_done) (use 1 v in \<open>simp add: val_source_def\<close>)
qed

lemma copies_source_field:
  "copies conforms True (val_ptr source_cell val_source) (clone_field source_cell (CSource zero_source) VolumeSourceSpec_DeepCopyInto)"
  by (rule mem.copies_clone_field [OF copies_source]) (simp_all add: readings lawful)

lemma copies_base: "copies conforms False val_base VolumeSpecBase_DeepCopyInto"
  unfolding VolumeSpecBase_DeepCopyInto_def
proof (rule copies_struct, goal_cases)
  case (1 h i j x v)
  then obtain a b c where v: "val_ptr nfs_cell (\<lambda>_. Some) (without j h) (mb_NfsServer x) = Some a"
      "val_ptr storage_cell (\<lambda>_. Some) (without j h) (mb_Storage x) = Some b"
      "val_ptr source_cell val_source (without j h) (mb_Source x) = Some c"
    by (auto simp: val_base_def bind_eq_Some_conv)
  show ?case
    by (rule fills_field [OF copies_nfs_field monotone_val_ptr [OF monotone_Some]], rule lawful, simp, rule v(1),
        rule fills_field [OF copies_storage_field monotone_val_ptr [OF monotone_Some]], rule lawful, simp, rule v(2),
        rule fills_field [OF copies_source_field monotone_val_ptr [OF monotone_source]], rule lawful, simp, rule v(3),
        rule fills_done) (use 1 v in \<open>simp add: val_base_def\<close>)
qed

lemma copies_spec: "copies conforms False val_spec SharedVolumeSpec_DeepCopyInto"
  unfolding SharedVolumeSpec_DeepCopyInto_def
proof (rule copies_struct, goal_cases)
  case (1 h i j x v)
  then have v: "val_base (without j h) (ms_VolumeSpecBase x) = Some v"
    by (simp add: val_spec_def)
  show ?case
    by (rule fills_field [OF copies_base monotone_base], rule lawful, simp, rule v, rule fills_done)
       (simp add: val_spec_def)
qed

text \<open>The functions of the two kinds of volume have the same text.\<close>

lemma same_text:
  "ClusterSharedVolumeSpec_DeepCopyInto = SharedVolumeSpec_DeepCopyInto"
  "ClusterSharedVolumeStatus_DeepCopyInto = SharedVolumeStatus_DeepCopyInto"
  "ClusterSharedVolume_DeepCopyInto mc = SharedVolume_DeepCopyInto mc"
  by (simp_all add: ClusterSharedVolumeSpec_DeepCopyInto_def SharedVolumeSpec_DeepCopyInto_def
      ClusterSharedVolumeStatus_DeepCopyInto_def SharedVolumeStatus_DeepCopyInto_def
      ClusterSharedVolume_DeepCopyInto_def SharedVolume_DeepCopyInto_def)

lemma copies_volume:
  assumes mc: "copies conforms False val_meta mc"
  shows "copies conforms False (val_volume t) (SharedVolume_DeepCopyInto mc)"
  unfolding SharedVolume_DeepCopyInto_def
proof (rule copies_struct, goal_cases)
  case (1 h i j x v)
  then obtain m sp where v: "val_meta (without j h) (mv_ObjectMeta x) = Some m"
      "val_spec (without j h) (mv_Spec x) = Some sp"
    by (auto simp: val_volume_def bind_eq_Some_conv)
  show ?case
    by (rule fills_field [OF copies_plain monotone_Some], rule lawful, simp, rule refl,
        rule fills_field [OF mc monotone_meta], rule lawful, simp, rule v(1),
        rule fills_field [OF copies_spec monotone_spec], rule lawful, simp, rule v(2),
        rule fills_field [OF copies_plain monotone_Some], rule lawful, simp, rule refl,
        rule fills_done) (use 1 v in \<open>simp add: val_volume_def\<close>)
qed

lemma copies_items:
  assumes mc: "copies conforms False val_meta mc"
  shows "copies conforms True (val_slice (volumes_cell t) (val_volume t))
    (clone_slice (volumes_cell t) (\<lambda>n. CVolumes t (replicate n zero_volume)) (SharedVolume_DeepCopyInto mc))"
  by (rule mem.copies_clone_slice [OF copies_volume [OF mc] monotone_volume])
     (auto simp: lawful those_map_Some in_set_conv_nth)

lemma copies_list:
  assumes mc: "copies conforms False val_meta mc" and lc: "copies conforms False val_list_meta lc"
  shows "copies conforms False (val_list SharedVolume) (SharedVolumeList_DeepCopyInto mc lc)"
    and "copies conforms False (val_list ClusterSharedVolume) (ClusterSharedVolumeList_DeepCopyInto mc lc)"
  unfolding SharedVolumeList_DeepCopyInto_def ClusterSharedVolumeList_DeepCopyInto_def same_text
proof (rule_tac [!] copies_struct, goal_cases)
  case (1 h i j x v)
  then obtain m vs where v: "val_list_meta (without j h) (mvl_ListMeta x) = Some m"
      "val_slice (volumes_cell SharedVolume) (val_volume SharedVolume) (without j h) (mvl_Items x) = Some vs"
    by (auto simp: val_list_def bind_eq_Some_conv)
  show ?case
    by (rule fills_field [OF copies_plain monotone_Some], rule lawful, simp, rule refl,
        rule fills_field [OF lc monotone_list_meta], rule lawful, simp, rule v(1),
        rule fills_field [OF copies_items [OF mc] monotone_val_slice [OF monotone_volume]], rule lawful, simp, rule v(2),
        rule fills_done) (use 1 v in \<open>auto simp: val_list_def\<close>)
next
  case (2 h i j x v)
  then obtain m vs where v: "val_list_meta (without j h) (mvl_ListMeta x) = Some m"
      "val_slice (volumes_cell ClusterSharedVolume) (val_volume ClusterSharedVolume) (without j h) (mvl_Items x)
        = Some vs"
    by (auto simp: val_list_def bind_eq_Some_conv)
  show ?case
    by (rule fills_field [OF copies_plain monotone_Some], rule lawful, simp, rule refl,
        rule fills_field [OF lc monotone_list_meta], rule lawful, simp, rule v(1),
        rule fills_field [OF copies_items [OF mc] monotone_val_slice [OF monotone_volume]], rule lawful, simp, rule v(2),
        rule fills_done) (use 2 v in \<open>auto simp: val_list_def\<close>)
qed

section \<open>Copies of whole objects\<close>

text \<open>
  The call of \<open>DeepCopyObject\<close> through the interface \<open>runtime.Object\<close>, and the value behind an
  interface value: none if the pointer in it is nil.
\<close>

fun DeepCopyObject ::
  "ObjectMeta_mem copier \<Rightarrow> ListMeta_mem copier \<Rightarrow> runtime_Object \<Rightarrow> (cell, runtime_Object option) prog" where
  "DeepCopyObject mc lc (VolumeObj SharedVolume p) = SharedVolume_DeepCopyObject mc p"
| "DeepCopyObject mc lc (VolumeObj ClusterSharedVolume p) = ClusterSharedVolume_DeepCopyObject mc p"
| "DeepCopyObject mc lc (VolumeListObj SharedVolume p) = SharedVolumeList_DeepCopyObject mc lc p"
| "DeepCopyObject mc lc (VolumeListObj ClusterSharedVolume p) = ClusterSharedVolumeList_DeepCopyObject mc lc p"

datatype object_value = VolumeVal VolumeObject | ListVal volume_type VolumeList

fun object_at :: "(nat \<rightharpoonup> cell) \<Rightarrow> runtime_Object \<Rightarrow> object_value option option" where
  "object_at M (VolumeObj t p) = map_option (map_option VolumeVal) (volume_at t M p)"
| "object_at M (VolumeListObj t p) = map_option (map_option (ListVal t)) (list_at t M p)"

fun pointer_of :: "runtime_Object \<Rightarrow> ptr" where
  "pointer_of (VolumeObj t p) = p"
| "pointer_of (VolumeListObj t p) = p"

lemma monotone_object: "M \<subseteq>\<^sub>m N \<Longrightarrow> object_at M ob = Some v \<Longrightarrow> object_at N ob = Some v"
  by (cases ob)
     (auto dest: monotone_readingD [OF monotone_val_ptr [OF monotone_volume]]
                 monotone_readingD [OF monotone_val_ptr [OF monotone_list]])

lemmas DeepCopyObject_defs =
  SharedVolume_DeepCopyObject_def ClusterSharedVolume_DeepCopyObject_def
  SharedVolumeList_DeepCopyObject_def ClusterSharedVolumeList_DeepCopyObject_def
  SharedVolume_DeepCopy_def ClusterSharedVolume_DeepCopy_def
  SharedVolumeList_DeepCopy_def ClusterSharedVolumeList_DeepCopy_def

text \<open>A nil pointer gives the nil interface, not an interface value that holds a nil pointer.\<close>

lemma DeepCopyObject_nil:
  "pointer_of ob = None \<Longrightarrow> run_state (DeepCopyObject mc lc ob) h = (Inr None, h)"
  by (cases "(mc, lc, ob)" rule: DeepCopyObject.cases) (auto simp: DeepCopyObject_defs deep_copy_def)

text \<open>\<open>DeepCopyInto\<close> of a nil pointer does not return.\<close>

lemma DeepCopyInto_nil:
  "run_state (SharedVolume_DeepCopyInto mc None pout) h = (Inl nil_dereference, h)"
  "run_state (ClusterSharedVolume_DeepCopyInto mc None pout) h = (Inl nil_dereference, h)"
  by (simp_all add: SharedVolume_DeepCopyInto_def ClusterSharedVolume_DeepCopyInto_def assign_def)

lemma deep_copy_object:
  assumes mc: "copies conforms False val_meta mc" and lc: "copies conforms False val_list_meta lc"
    and h: "heap_ok h" "object_at (gh_cells h) ob = Some (Some v)"
  obtains c h' where "run_state (DeepCopyObject mc lc ob) h = (Inr (Some c), h')"
    "heap_ok h'" "gh_limit h \<le> gh_limit h'" "\<forall>a < gh_limit h. gh_cells h' a = gh_cells h a"
    "\<forall>k c. gh_limit h \<le> k \<longrightarrow> gh_cells h' k = Some c \<longrightarrow> conforms (since (gh_limit h) h') c"
    "object_at (since (gh_limit h) h') c = Some (Some v)" "pointer_of c \<noteq> None"
proof -
  note result = that
  have V: thesis if ob: "ob = VolumeObj t (Some a)" "v = VolumeVal w" "volume_at t (gh_cells h) (Some a) = Some (Some w)"
    for t a w
  proof -
    obtain h' b where "run_state (deep_copy (volume_cell t) (CVolume t zero_volume)
        (SharedVolume_DeepCopyInto mc) (Some a)) h = (Inr (Some b), h')"
      "heap_ok h'" "gh_limit h \<le> b" "b < gh_limit h'" "\<forall>k < gh_limit h. gh_cells h' k = gh_cells h k"
      "\<forall>k c. gh_limit h \<le> k \<longrightarrow> gh_cells h' k = Some c \<longrightarrow> conforms (since (gh_limit h) h') c"
      "volume_at t (since (gh_limit h) h') (Some b) = Some (Some w)"
      by (rule mem.deep_copy_copies [OF copies_volume [OF mc] monotone_volume _ _ _ h(1) ob(3)])
         (auto simp: lawful)
    with ob show thesis
      by (intro result [of "VolumeObj t (Some b)" h'])
         (cases t, auto simp: DeepCopyObject_defs same_text)
  qed
  have L: thesis if ob: "ob = VolumeListObj t (Some a)" "v = ListVal t w" "list_at t (gh_cells h) (Some a) = Some (Some w)"
    and f: "copies conforms False (val_list t) f"
      "f = (case t of SharedVolume \<Rightarrow> SharedVolumeList_DeepCopyInto mc lc
            | ClusterSharedVolume \<Rightarrow> ClusterSharedVolumeList_DeepCopyInto mc lc)" for t a w f
  proof -
    obtain h' b where "run_state (deep_copy (list_cell t) (CVolumeList t zero_list) f (Some a)) h
        = (Inr (Some b), h')"
      "heap_ok h'" "gh_limit h \<le> b" "b < gh_limit h'" "\<forall>k < gh_limit h. gh_cells h' k = gh_cells h k"
      "\<forall>k c. gh_limit h \<le> k \<longrightarrow> gh_cells h' k = Some c \<longrightarrow> conforms (since (gh_limit h) h') c"
      "list_at t (since (gh_limit h) h') (Some b) = Some (Some w)"
      by (rule mem.deep_copy_copies [OF f(1) monotone_list _ _ _ h(1) ob(3)]) (auto simp: lawful)
    with ob f(2) show thesis
      by (intro result [of "VolumeListObj t (Some b)" h'])
         (cases t, auto simp: DeepCopyObject_defs)
  qed
  show thesis
  proof (cases ob)
    case (VolumeObj t p)
    with h(2) obtain a w where "p = Some a" "v = VolumeVal w" "volume_at t (gh_cells h) (Some a) = Some (Some w)"
      by (cases p) (auto simp: val_ptr_def)
    with V VolumeObj show thesis by blast
  next
    case (VolumeListObj t p)
    with h(2) obtain a w where w: "p = Some a" "v = ListVal t w" "list_at t (gh_cells h) (Some a) = Some (Some w)"
      by (cases p) (auto simp: val_ptr_def)
    show thesis
      by (rule L [OF _ w(2,3) _ refl]) (use VolumeListObj w(1) copies_list [OF mc lc] in \<open>auto split: volume_type.split\<close>)
  qed
qed

section \<open>Type safety and isolation\<close>

text \<open>What the Go type of an interface value says of the pointer in it.\<close>

fun points_to :: "cell heap \<Rightarrow> runtime_Object \<Rightarrow> bool" where
  "points_to h (VolumeObj t p) \<longleftrightarrow> (case p of None \<Rightarrow> True
     | Some a \<Rightarrow> \<exists>x. gh_cells h a = Some (CVolume t x))"
| "points_to h (VolumeListObj t p) \<longleftrightarrow> (case p of None \<Rightarrow> True
     | Some a \<Rightarrow> \<exists>x. gh_cells h a = Some (CVolumeList t x))"

lemma well_typed_object:
  assumes "well_typed h" "points_to h ob" "pointer_of ob \<noteq> None"
  shows "\<exists>v. object_at (gh_cells h) ob = Some (Some v)"
proof -
  have conforming: "conforms (gh_cells h) c" if "gh_cells h a = Some c" for a c
    using assms(1) that by (simp add: well_typed_def)
  then have "\<exists>v. val_volume t (gh_cells h) x = Some v" if "gh_cells h a = Some (CVolume t x)" for a t x
    using that by fastforce
  moreover have "\<exists>v. val_list t (gh_cells h) x = Some v" if "gh_cells h a = Some (CVolumeList t x)" for a t x
    using conforming that by fastforce
  ultimately show ?thesis
    using assms(2,3) by (cases ob) (fastforce simp: val_ptr_def)+
qed

lemma object_cells:
  "lget (volume_cell t) c = Some x \<longleftrightarrow> c = CVolume t x" "lget (list_cell t) c = Some y \<longleftrightarrow> c = CVolumeList t y"
  by (cases c; auto simp: cell_defs whole_def)+

lemma object_at_points_to:
  assumes "object_at M ob = Some v" "M \<subseteq>\<^sub>m gh_cells h"
  shows "points_to h ob"
proof -
  have cells: "gh_cells h a = Some c" if "M a = Some c" for a c
    using assms(2) that by (metis domI map_le_def)
  show ?thesis
    using assms(1)
    by (cases ob)
       (auto simp: val_ptr_def bind_eq_Some_conv object_cells dest: cells split: option.splits)
qed

text \<open>
  C14. Every deep copy of an API object is type safe: in a well-typed heap it returns (it does not
  panic on a nil or dangling pointer), leaves a well-typed heap in which the old cells are
  unchanged, and returns the nil interface exactly for a nil pointer, and otherwise a pointer of
  the right type to a variable that did not exist before.
\<close>

theorem deep_copy_type_safe:
  assumes mc: "copies conforms False val_meta mc" and lc: "copies conforms False val_list_meta lc"
    and h: "well_typed h" "points_to h ob"
  shows "\<exists>r h'. run_state (DeepCopyObject mc lc ob) h = (Inr r, h')
    \<and> well_typed h' \<and> (\<forall>a < gh_limit h. gh_cells h' a = gh_cells h a)
    \<and> (case r of None \<Rightarrow> pointer_of ob = None
       | Some c \<Rightarrow> pointer_of ob \<noteq> None \<and> points_to h' c \<and> (\<exists>b \<ge> gh_limit h. pointer_of c = Some b))"
proof (cases "pointer_of ob")
  case None
  with h(1) show ?thesis
    using DeepCopyObject_nil [OF None, of mc lc h] by auto
next
  case (Some a)
  with well_typed_object [OF h] obtain v where v: "object_at (gh_cells h) ob = Some (Some v)"
    by auto
  have ok: "heap_ok h" using h(1) by (simp add: well_typed_def)
  obtain c h' where c: "run_state (DeepCopyObject mc lc ob) h = (Inr (Some c), h')"
    "heap_ok h'" "gh_limit h \<le> gh_limit h'" "\<forall>a < gh_limit h. gh_cells h' a = gh_cells h a"
    "\<forall>k c. gh_limit h \<le> k \<longrightarrow> gh_cells h' k = Some c \<longrightarrow> conforms (since (gh_limit h) h') c"
    "object_at (since (gh_limit h) h') c = Some (Some v)" "pointer_of c \<noteq> None"
    by (rule deep_copy_object [OF mc lc ok v])
  have new: "since (gh_limit h) h' \<subseteq>\<^sub>m gh_cells h'"
    by (auto simp: since_def map_le_def restrict_map_def)
  have old: "gh_cells h \<subseteq>\<^sub>m gh_cells h'"
    using c(4) ok by (auto simp: map_le_def dest: heap_ok_limit)
  have "conforms (gh_cells h') x" if "gh_cells h' k = Some x" for k x
  proof (cases "k < gh_limit h")
    case True
    with that c(4) h(1) have "conforms (gh_cells h) x" by (simp add: well_typed_def)
    then show ?thesis by (rule conforms_grows [OF old])
  next
    case False
    with that c(5) show ?thesis
      by (intro conforms_grows [OF new]) (simp add: not_less)
  qed
  moreover have "\<exists>b \<ge> gh_limit h. pointer_of c = Some b"
    using c(6,7) by (cases c) (auto simp: val_ptr_def since_def restrict_map_def bind_eq_Some_conv
        split: if_splits)
  ultimately show ?thesis
    using c Some object_at_points_to [OF c(6) new] by (auto simp: well_typed_def)
qed

text \<open>
  C13. A deep copy is equal to its original and shares nothing with it: the copy has the value of
  the original, and keeps it whatever is later written to the cells that existed before the copy;
  and the original keeps its value whatever is written to the cells of the copy.
\<close>

theorem deep_copy_isolated:
  assumes mc: "copies conforms False val_meta mc" and lc: "copies conforms False val_list_meta lc"
    and h: "heap_ok h" "object_at (gh_cells h) ob = Some (Some v)"
  shows "\<exists>c h'. run_state (DeepCopyObject mc lc ob) h = (Inr (Some c), h')
    \<and> (\<forall>M. (\<forall>a \<ge> gh_limit h. M a = gh_cells h' a) \<longrightarrow> object_at M c = Some (Some v))
    \<and> (\<forall>M. (\<forall>a < gh_limit h. M a = gh_cells h' a) \<longrightarrow> object_at M ob = Some (Some v))"
proof -
  obtain c h' where c: "run_state (DeepCopyObject mc lc ob) h = (Inr (Some c), h')"
    "heap_ok h'" "gh_limit h \<le> gh_limit h'" "\<forall>a < gh_limit h. gh_cells h' a = gh_cells h a"
    "\<forall>k c. gh_limit h \<le> k \<longrightarrow> gh_cells h' k = Some c \<longrightarrow> conforms (since (gh_limit h) h') c"
    "object_at (since (gh_limit h) h') c = Some (Some v)" "pointer_of c \<noteq> None"
    by (rule deep_copy_object [OF mc lc h])
  have "object_at M c = Some (Some v)" if "\<forall>a \<ge> gh_limit h. M a = gh_cells h' a" for M
  proof (rule monotone_object [OF _ c(6)])
    show "since (gh_limit h) h' \<subseteq>\<^sub>m M"
      using that by (auto simp: since_def map_le_def restrict_map_def)
  qed
  moreover have "object_at M ob = Some (Some v)" if "\<forall>a < gh_limit h. M a = gh_cells h' a" for M
  proof (rule monotone_object [OF _ h(2)])
    show "gh_cells h \<subseteq>\<^sub>m M"
      using that c(4) h(1) by (auto simp: map_le_def dest: heap_ok_limit)
  qed
  ultimately show ?thesis
    using c(1) by blast
qed

subsection \<open>Witnesses\<close>

text \<open>
  Deep copies of the metadata that satisfy the hypotheses, and a heap with a volume that reaches a
  cell of every kind of pointer on the way to a secret.
\<close>

definition sample_mc :: "ObjectMeta_mem copier" where
  "sample_mc = in_turn [assign, at_field (field mo_Refs mo_Refs_update)
     (clone_field refs_cell (CMetaRefs \<lparr>mr_Labels = [], mr_Annotations = [], mr_Finalizers = [],
        mr_DeletionTimestamp = None, mr_OwnerReferences = []\<rparr>) assign)]"

definition sample_lc :: "ListMeta_mem copier" where
  "sample_lc = in_turn [assign, at_field (field ml_RemainingItemCount ml_RemainingItemCount_update)
     (clone_field count_cell (CCount 0) assign)]"

lemma copies_sample_mc: "copies conforms False val_meta sample_mc"
  unfolding sample_mc_def
proof (rule copies_struct, goal_cases)
  case (1 h i j x v)
  then obtain r where r: "val_ptr refs_cell (\<lambda>_. Some) (without j h) (mo_Refs x) = Some r"
    by (auto simp: val_meta_def)
  show ?case
    by (rule fills_field [OF mem.copies_clone_field [OF copies_plain monotone_Some]
            monotone_val_ptr [OF monotone_Some]], (simp_all add: lawful)[4], simp, rule r, rule fills_done)
       (use 1 r in \<open>simp add: val_meta_def\<close>)
qed

lemma copies_sample_lc: "copies conforms False val_list_meta sample_lc"
  unfolding sample_lc_def
proof (rule copies_struct, goal_cases)
  case (1 h i j x v)
  then obtain n where n: "val_ptr count_cell (\<lambda>_. Some) (without j h) (ml_RemainingItemCount x) = Some n"
    by (auto simp: val_list_meta_def)
  show ?case
    by (rule fills_field [OF mem.copies_clone_field [OF copies_plain monotone_Some]
            monotone_val_ptr [OF monotone_Some]], (simp_all add: lawful)[4], simp, rule n, rule fills_done)
       (use 1 n in \<open>simp add: val_list_meta_def\<close>)
qed

definition sample_heap :: "cell heap" where
  "sample_heap = \<lparr>gh_cells = [
     0 \<mapsto> CVolume SharedVolume (zero_volume
            \<lparr>mv_ObjectMeta := \<lparr>mo_Name = ''data'', mo_Namespace = ''prod'', mo_UID = ''u1'',
                mo_ResourceVersion = ''7'', mo_Refs = Some 1\<rparr>,
             mv_Spec := \<lparr>ms_VolumeSpecBase = zero_base\<lparr>mb_MountPath := ''/data'', mb_Source := Some 2\<rparr>\<rparr>\<rparr>),
     1 \<mapsto> CMetaRefs \<lparr>mr_Labels = [(''app'', ''x'')], mr_Annotations = [], mr_Finalizers = [''f''],
            mr_DeletionTimestamp = None, mr_OwnerReferences = []\<rparr>,
     2 \<mapsto> CSource (zero_source\<lparr>msrc_SSH := Some 3\<rparr>),
     3 \<mapsto> CSSH (zero_ssh\<lparr>mssh_Host := ''h'', mssh_PasswordFromSecret := Some 4\<rparr>),
     4 \<mapsto> CSelector \<lparr>sel_Name = ''s'', sel_Namespace = ''prod'', sel_Key = ''k''\<rparr>,
     5 \<mapsto> CVolumes SharedVolume [zero_volume, zero_volume],
     6 \<mapsto> CVolumeList SharedVolume (zero_list
            \<lparr>mvl_Items := Some \<lparr>sl_array = 5, sl_start = 1, sl_len = 1\<rparr>\<rparr>)], gh_limit = 7\<rparr>"

lemmas sample_vals = val_volume_def val_list_def val_meta_def val_list_meta_def val_spec_def val_base_def
  val_source_def val_ssh_def val_selector_def val_ptr_def val_slice_def zero_volume_def zero_spec_def
  zero_base_def zero_source_def zero_ssh_def zero_list_def

lemma sample_heap_ok: "well_typed sample_heap"
  by (auto simp: well_typed_def heap_ok_def sample_heap_def sample_vals split: if_splits)

lemma deep_copy_type_safe_witness:
  "(\<exists>r h'. run_state (DeepCopyObject sample_mc sample_lc (VolumeObj SharedVolume (Some 0))) sample_heap
      = (Inr r, h')
    \<and> well_typed h' \<and> (\<forall>a < gh_limit sample_heap. gh_cells h' a = gh_cells sample_heap a)
    \<and> (case r of None \<Rightarrow> False | Some c \<Rightarrow> points_to h' c \<and> (\<exists>b \<ge> 7. pointer_of c = Some b)))
   \<and> (\<exists>r h'. run_state (DeepCopyObject sample_mc sample_lc (VolumeListObj SharedVolume (Some 6))) sample_heap
      = (Inr r, h') \<and> r \<noteq> None \<and> well_typed h')"
proof (intro conjI)
  have lim: "gh_limit sample_heap = 7" by (simp add: sample_heap_def)
  have "points_to sample_heap (VolumeObj SharedVolume (Some 0))"
    "points_to sample_heap (VolumeListObj SharedVolume (Some 6))"
    by (simp_all add: sample_heap_def)
  note T = this [THEN deep_copy_type_safe [OF copies_sample_mc copies_sample_lc sample_heap_ok]]
  show "\<exists>r h'. run_state (DeepCopyObject sample_mc sample_lc (VolumeObj SharedVolume (Some 0))) sample_heap
      = (Inr r, h')
    \<and> well_typed h' \<and> (\<forall>a < gh_limit sample_heap. gh_cells h' a = gh_cells sample_heap a)
    \<and> (case r of None \<Rightarrow> False | Some c \<Rightarrow> points_to h' c \<and> (\<exists>b \<ge> 7. pointer_of c = Some b))"
    using T(1) unfolding lim pointer_of.simps by (fastforce split: option.splits)
  show "\<exists>r h'. run_state (DeepCopyObject sample_mc sample_lc (VolumeListObj SharedVolume (Some 6))) sample_heap
      = (Inr r, h') \<and> r \<noteq> None \<and> well_typed h'"
    using T(2) unfolding pointer_of.simps by (fastforce split: option.splits)
qed

lemma deep_copy_isolated_witness:
  "\<exists>v c h'. object_at (gh_cells sample_heap) (VolumeObj SharedVolume (Some 0)) = Some (Some v)
    \<and> run_state (DeepCopyObject sample_mc sample_lc (VolumeObj SharedVolume (Some 0))) sample_heap
      = (Inr (Some c), h')
    \<and> object_at (gh_cells h' |` {7..}) c = Some (Some v)
    \<and> object_at (gh_cells h' |` {..<7}) (VolumeObj SharedVolume (Some 0)) = Some (Some v)"
proof -
  have lim: "gh_limit sample_heap = 7" by (simp add: sample_heap_def)
  have ok: "heap_ok sample_heap" using sample_heap_ok by (simp add: well_typed_def)
  obtain v where v: "object_at (gh_cells sample_heap) (VolumeObj SharedVolume (Some 0)) = Some (Some v)"
    by (simp add: sample_heap_def sample_vals)
  from deep_copy_isolated [OF copies_sample_mc copies_sample_lc ok v] obtain c h' where c:
    "run_state (DeepCopyObject sample_mc sample_lc (VolumeObj SharedVolume (Some 0))) sample_heap
      = (Inr (Some c), h')"
    "\<forall>M. (\<forall>a \<ge> 7. M a = gh_cells h' a) \<longrightarrow> object_at M c = Some (Some v)"
    "\<forall>M. (\<forall>a < 7. M a = gh_cells h' a) \<longrightarrow> object_at M (VolumeObj SharedVolume (Some 0)) = Some (Some v)"
    unfolding lim by blast
  from c(2) [rule_format, of "gh_cells h' |` {7..}"] c(3) [rule_format, of "gh_cells h' |` {..<7}"]
  show ?thesis using c(1) v by auto
qed

end
