(* ===== verification/Volume_Object.thy ===== *)
theory Volume_Object
  imports Api_Types
begin

text \<open>
  The Go interface \<open>VolumeObject\<close> of the controllers as a locale: a specification and six named
  strings of the status, with the laws its two implementations obey. The methods of \<open>SharedVolume\<close>
  (Api_Types) and of \<open>ClusterSharedVolume\<close> (here, api/v1alpha1/clustersharedvolume_types.go) are
  both shown to implement it; as they agree, the other theories use the first for both kinds.
\<close>

section \<open>The methods of ClusterSharedVolume\<close>

definition ClusterSharedVolume_GetVolumeSpec :: "VolumeObject \<Rightarrow> VolumeSpecBase" where
  "ClusterSharedVolume_GetVolumeSpec csv = vo_Spec csv"

definition ClusterSharedVolume_GetPhase :: "VolumeObject \<Rightarrow> string" where
  "ClusterSharedVolume_GetPhase csv = Phase (vo_Status csv)"

definition ClusterSharedVolume_SetPhase :: "string \<Rightarrow> VolumeObject \<Rightarrow> VolumeObject" where
  "ClusterSharedVolume_SetPhase p csv = csv\<lparr>vo_Status := (vo_Status csv)\<lparr>Phase := p\<rparr>\<rparr>"

definition ClusterSharedVolume_GetMessage :: "VolumeObject \<Rightarrow> string" where
  "ClusterSharedVolume_GetMessage csv = Message (vo_Status csv)"

definition ClusterSharedVolume_SetMessage :: "string \<Rightarrow> VolumeObject \<Rightarrow> VolumeObject" where
  "ClusterSharedVolume_SetMessage m csv = csv\<lparr>vo_Status := (vo_Status csv)\<lparr>Message := m\<rparr>\<rparr>"

definition ClusterSharedVolume_GetNfsServerAddress :: "VolumeObject \<Rightarrow> string" where
  "ClusterSharedVolume_GetNfsServerAddress csv = NfsServerAddress (vo_Status csv)"

definition ClusterSharedVolume_SetNfsServerAddress :: "string \<Rightarrow> VolumeObject \<Rightarrow> VolumeObject" where
  "ClusterSharedVolume_SetNfsServerAddress a csv = csv\<lparr>vo_Status := (vo_Status csv)\<lparr>NfsServerAddress := a\<rparr>\<rparr>"

definition ClusterSharedVolume_GetPersistentVolumeClaimName :: "VolumeObject \<Rightarrow> string" where
  "ClusterSharedVolume_GetPersistentVolumeClaimName csv = PersistentVolumeClaimName (vo_Status csv)"

definition ClusterSharedVolume_SetPersistentVolumeClaimName :: "string \<Rightarrow> VolumeObject \<Rightarrow> VolumeObject" where
  "ClusterSharedVolume_SetPersistentVolumeClaimName n csv = csv\<lparr>vo_Status := (vo_Status csv)\<lparr>PersistentVolumeClaimName := n\<rparr>\<rparr>"

definition ClusterSharedVolume_GetPersistentVolumeName :: "VolumeObject \<Rightarrow> string" where
  "ClusterSharedVolume_GetPersistentVolumeName csv = PersistentVolumeName (vo_Status csv)"

definition ClusterSharedVolume_SetPersistentVolumeName :: "string \<Rightarrow> VolumeObject \<Rightarrow> VolumeObject" where
  "ClusterSharedVolume_SetPersistentVolumeName n csv = csv\<lparr>vo_Status := (vo_Status csv)\<lparr>PersistentVolumeName := n\<rparr>\<rparr>"

definition ClusterSharedVolume_GetServiceName :: "VolumeObject \<Rightarrow> string" where
  "ClusterSharedVolume_GetServiceName csv = ServiceName (vo_Status csv)"

definition ClusterSharedVolume_SetServiceName :: "string \<Rightarrow> VolumeObject \<Rightarrow> VolumeObject" where
  "ClusterSharedVolume_SetServiceName n csv = csv\<lparr>vo_Status := (vo_Status csv)\<lparr>ServiceName := n\<rparr>\<rparr>"

section \<open>The interface\<close>

datatype status_field =
  FPhase | FMessage | FNfsServerAddress | FPersistentVolumeClaimName | FPersistentVolumeName | FServiceName

locale volume_object =
  fixes spec :: "'v \<Rightarrow> VolumeSpecBase"
    and getter :: "status_field \<Rightarrow> 'v \<Rightarrow> string"
    and setter :: "status_field \<Rightarrow> string \<Rightarrow> 'v \<Rightarrow> 'v"
  assumes get_set: "getter f (setter f x v) = x"
    and get_set_other: "f \<noteq> g \<Longrightarrow> getter g (setter f x v) = getter g v"
    and spec_set: "spec (setter f x v) = spec v"
begin

text \<open>A method that sets some fields, one after the other, leaves the others and the specification.\<close>

definition set_all :: "(status_field \<times> string) list \<Rightarrow> 'v \<Rightarrow> 'v" where
  "set_all fxs = fold (\<lambda>(f, x). setter f x) fxs"

lemma spec_set_all: "spec (set_all fxs v) = spec v"
  by (induction fxs arbitrary: v) (auto simp: set_all_def spec_set)

lemma get_set_all: "getter f (set_all fxs v) = (case map_of (rev fxs) f of None \<Rightarrow> getter f v | Some x \<Rightarrow> x)"
proof (induction fxs rule: rev_induct)
  case (snoc gx fxs)
  then show ?case
    by (cases gx; cases "fst gx = f") (auto simp: set_all_def get_set get_set_other split: option.splits)
qed (simp add: set_all_def)

end

text \<open>The method sets of both types.\<close>

fun sv_getter :: "status_field \<Rightarrow> VolumeObject \<Rightarrow> string" where
  "sv_getter FPhase = GetPhase"
| "sv_getter FMessage = GetMessage"
| "sv_getter FNfsServerAddress = GetNfsServerAddress"
| "sv_getter FPersistentVolumeClaimName = GetPersistentVolumeClaimName"
| "sv_getter FPersistentVolumeName = GetPersistentVolumeName"
| "sv_getter FServiceName = GetServiceName"

fun sv_setter :: "status_field \<Rightarrow> string \<Rightarrow> VolumeObject \<Rightarrow> VolumeObject" where
  "sv_setter FPhase = SetPhase"
| "sv_setter FMessage = SetMessage"
| "sv_setter FNfsServerAddress = SetNfsServerAddress"
| "sv_setter FPersistentVolumeClaimName = SetPersistentVolumeClaimName"
| "sv_setter FPersistentVolumeName = SetPersistentVolumeName"
| "sv_setter FServiceName = SetServiceName"

fun csv_getter :: "status_field \<Rightarrow> VolumeObject \<Rightarrow> string" where
  "csv_getter FPhase = ClusterSharedVolume_GetPhase"
| "csv_getter FMessage = ClusterSharedVolume_GetMessage"
| "csv_getter FNfsServerAddress = ClusterSharedVolume_GetNfsServerAddress"
| "csv_getter FPersistentVolumeClaimName = ClusterSharedVolume_GetPersistentVolumeClaimName"
| "csv_getter FPersistentVolumeName = ClusterSharedVolume_GetPersistentVolumeName"
| "csv_getter FServiceName = ClusterSharedVolume_GetServiceName"

fun csv_setter :: "status_field \<Rightarrow> string \<Rightarrow> VolumeObject \<Rightarrow> VolumeObject" where
  "csv_setter FPhase = ClusterSharedVolume_SetPhase"
| "csv_setter FMessage = ClusterSharedVolume_SetMessage"
| "csv_setter FNfsServerAddress = ClusterSharedVolume_SetNfsServerAddress"
| "csv_setter FPersistentVolumeClaimName = ClusterSharedVolume_SetPersistentVolumeClaimName"
| "csv_setter FPersistentVolumeName = ClusterSharedVolume_SetPersistentVolumeName"
| "csv_setter FServiceName = ClusterSharedVolume_SetServiceName"

lemmas cluster_accessors =
  ClusterSharedVolume_GetVolumeSpec_def
  ClusterSharedVolume_GetPhase_def ClusterSharedVolume_SetPhase_def
  ClusterSharedVolume_GetMessage_def ClusterSharedVolume_SetMessage_def
  ClusterSharedVolume_GetNfsServerAddress_def ClusterSharedVolume_SetNfsServerAddress_def
  ClusterSharedVolume_GetPersistentVolumeClaimName_def ClusterSharedVolume_SetPersistentVolumeClaimName_def
  ClusterSharedVolume_GetPersistentVolumeName_def ClusterSharedVolume_SetPersistentVolumeName_def
  ClusterSharedVolume_GetServiceName_def ClusterSharedVolume_SetServiceName_def

interpretation sv: volume_object GetVolumeSpec sv_getter sv_setter
proof
  fix f g x v
  show "sv_getter f (sv_setter f x v) = x" and "GetVolumeSpec (sv_setter f x v) = GetVolumeSpec v"
    by (cases f; simp add: volume_accessors)+
  show "f \<noteq> g \<Longrightarrow> sv_getter g (sv_setter f x v) = sv_getter g v"
    by (cases f; cases g; simp add: volume_accessors)
qed

lemma same_methods:
  "ClusterSharedVolume_GetVolumeSpec = GetVolumeSpec" "csv_getter = sv_getter" "csv_setter = sv_setter"
proof -
  show "ClusterSharedVolume_GetVolumeSpec = GetVolumeSpec"
    by (simp add: fun_eq_iff cluster_accessors volume_accessors)
  have "csv_getter f v = sv_getter f v" and "csv_setter f x v = sv_setter f x v" for f x v
    by (cases f; simp add: cluster_accessors volume_accessors)+
  then show "csv_getter = sv_getter" "csv_setter = sv_setter"
    by (simp_all add: fun_eq_iff)
qed

interpretation csv: volume_object ClusterSharedVolume_GetVolumeSpec csv_getter csv_setter
  unfolding same_methods by (rule sv.volume_object_axioms)

end
