(* ===== verification/Validators.thy ===== *)
theory Validators
  imports Progress
begin

text \<open>
  The interface \<open>webhook.CustomValidator\<close> and its two implementations (webhook/v1alpha1). Validation has
  the entry points for both kinds of volume by the Go type; here are those of \<open>ClusterSharedVolume\<close> as they are
  written, and what both promise to the API server.
\<close>

section \<open>The validator of cluster volumes\<close>

definition ClusterSharedVolume_ValidateCreate :: "kobj \<Rightarrow> admission_error + unit" where
  "ClusterSharedVolume_ValidateCreate obj =
     (case typed_volume ClusterSharedVolume obj of
        None \<Rightarrow> Inl (UnexpectedType ''expected a ClusterSharedVolume object'')
      | Some v \<Rightarrow> as_admission (ValidateVolumeObject (vo_Spec v) ''ClusterSharedVolume''))"

definition ClusterSharedVolume_ValidateUpdate :: "kobj \<Rightarrow> kobj \<Rightarrow> admission_error + unit" where
  "ClusterSharedVolume_ValidateUpdate oldObj newObj =
     (case typed_volume ClusterSharedVolume oldObj of
        None \<Rightarrow> Inl (UnexpectedType ''expected a ClusterSharedVolume object for the oldObj'')
      | Some old \<Rightarrow>
          (case typed_volume ClusterSharedVolume newObj of
             None \<Rightarrow> Inl (UnexpectedType ''expected a ClusterSharedVolume object for the newObj'')
           | Some new \<Rightarrow> as_admission (ValidateVolumeObjectUpdate (vo_Spec old) (vo_Spec new) ''ClusterSharedVolume'')))"

definition ClusterSharedVolume_ValidateDelete :: "kobj \<Rightarrow> admission_error + unit" where
  "ClusterSharedVolume_ValidateDelete obj =
     (case typed_volume ClusterSharedVolume obj of
        None \<Rightarrow> Inl (UnexpectedType ''expected a ClusterSharedVolume object'')
      | Some v \<Rightarrow> Inr ())"

lemma cluster_validator:
  "ClusterSharedVolume_ValidateCreate = ValidateCreate ClusterSharedVolume"
  "ClusterSharedVolume_ValidateUpdate = ValidateUpdate ClusterSharedVolume"
  "ClusterSharedVolume_ValidateDelete = ValidateDelete ClusterSharedVolume"
  by (auto simp: fun_eq_iff ClusterSharedVolume_ValidateCreate_def ValidateCreate_def
      ClusterSharedVolume_ValidateUpdate_def ValidateUpdate_def ClusterSharedVolume_ValidateDelete_def ValidateDelete_def
      split: option.split)

section \<open>The interface\<close>

text \<open>
  A validator is for one Go type, refuses objects of all others, lets an admitted object be written again with
  any other metadata and status, and does not stand in the way of a deletion.
\<close>

locale custom_validator =
  fixes t :: volume_type
    and validate_create :: "kobj \<Rightarrow> admission_error + unit"
    and validate_update :: "kobj \<Rightarrow> kobj \<Rightarrow> admission_error + unit"
    and validate_delete :: "kobj \<Rightarrow> admission_error + unit"
  assumes create_typed: "validate_create obj = Inr () \<Longrightarrow> \<exists>v. typed_volume t obj = Some v"
    and update_typed: "validate_update old new = Inr () \<Longrightarrow>
      (\<exists>v. typed_volume t old = Some v) \<and> (\<exists>v. typed_volume t new = Some v)"
    and update_same_spec: "validate_create (OVolume v) = Inr () \<Longrightarrow> vo_type u = vo_type v \<Longrightarrow> vo_Spec u = vo_Spec v
      \<Longrightarrow> validate_update (OVolume v) (OVolume u) = Inr ()"
    and delete_typed: "validate_delete obj = Inr () \<longleftrightarrow> (\<exists>v. typed_volume t obj = Some v)"
begin

lemma admitted_can_go: "validate_create obj = Inr () \<Longrightarrow> validate_delete obj = Inr ()"
  using create_typed delete_typed by blast

lemma updated_can_go: "validate_update old new = Inr () \<Longrightarrow> validate_delete new = Inr ()"
  using update_typed delete_typed by blast

text \<open>The finalizer of the controller and a status never make an update fail.\<close>

lemma metadata_update:
  "validate_create (OVolume v) = Inr () \<Longrightarrow> validate_update (OVolume v) (OVolume (v\<lparr>vo_Meta := m, vo_Status := s\<rparr>)) = Inr ()"
  by (rule update_same_spec) simp_all

end

lemma validator_laws:
  "ValidateCreate t obj = Inr () \<Longrightarrow> \<exists>v. typed_volume t obj = Some v"
  "ValidateUpdate t old new = Inr () \<Longrightarrow> (\<exists>v. typed_volume t old = Some v) \<and> (\<exists>v. typed_volume t new = Some v)"
  "ValidateCreate t (OVolume v) = Inr () \<Longrightarrow> vo_type u = vo_type v \<Longrightarrow> vo_Spec u = vo_Spec v
     \<Longrightarrow> ValidateUpdate t (OVolume v) (OVolume u) = Inr ()"
  "ValidateDelete t obj = Inr () \<longleftrightarrow> (\<exists>v. typed_volume t obj = Some v)"
proof -
  show typed: "ValidateCreate t obj = Inr () \<Longrightarrow> \<exists>v. typed_volume t obj = Some v" for obj
    by (auto simp: ValidateCreate_def split: option.splits)
  show "ValidateUpdate t old new = Inr () \<Longrightarrow> (\<exists>v. typed_volume t old = Some v) \<and> (\<exists>v. typed_volume t new = Some v)"
    by (auto simp: ValidateUpdate_def split: option.splits)
  show "ValidateDelete t obj = Inr () \<longleftrightarrow> (\<exists>v. typed_volume t obj = Some v)"
    by (auto simp: ValidateDelete_def split: option.splits)
  assume v: "ValidateCreate t (OVolume v) = Inr ()" "vo_type u = vo_type v" "vo_Spec u = vo_Spec v"
  then have "vo_type v = t"
    using typed [OF v(1)] by (auto simp: typed_volume_def split: if_splits)
  with same_spec_admitted [of v u] v show "ValidateUpdate t (OVolume v) (OVolume u) = Inr ()"
    by simp
qed

interpretation sv_validator:
  custom_validator SharedVolume "ValidateCreate SharedVolume" "ValidateUpdate SharedVolume" "ValidateDelete SharedVolume"
  by unfold_locales (fact validator_laws)+

interpretation csv_validator:
  custom_validator ClusterSharedVolume ClusterSharedVolume_ValidateCreate ClusterSharedVolume_ValidateUpdate
    ClusterSharedVolume_ValidateDelete
  unfolding cluster_validator by unfold_locales (fact validator_laws)+

end
