(* ===== verification/Setup.thy ===== *)
theory Setup
  imports Reconcile_Safety
begin

text \<open>
  The process setup (cmd/main.go), with what it calls: \<open>SetupGenericController\<close> and the hook for the
  sync controller (volume_controller_base.go), \<open>NewSyncController\<close>, the \<open>SetupWithManager\<close> methods and
  the registration of the webhooks. The manager, the certificate watchers and their servers are
  controller-runtime; what the code hands to them is the state of the model, and whether they
  refuse it is the parameter \<open>refuses\<close>. \<open>os.Exit(1)\<close> is the result \<open>Inl\<close>.

  Go slices of TLS options share arrays. \<open>append\<close> writes into the array of its argument when there is
  room, and otherwise makes an array whose capacity the runtime chooses: the parameter \<open>spare\<close>
  gives the capacity left over when an array for \<open>n\<close> elements is made.
\<close>

section \<open>Flags\<close>

record flags =
  metricsAddr :: string
  probeAddr :: string
  enableLeaderElection :: bool
  secureMetrics :: bool
  webhookCertPath :: string
  webhookCertName :: string
  webhookCertKey :: string
  metricsCertPath :: string
  metricsCertName :: string
  metricsCertKey :: string
  enableHTTP2 :: bool
  flagNamespace :: string

definition default_flags :: flags where
  "default_flags = \<lparr>metricsAddr = ''0'', probeAddr = '':8081'', enableLeaderElection = False,
     secureMetrics = True, webhookCertPath = [], webhookCertName = ''tls.crt'', webhookCertKey = ''tls.key'',
     metricsCertPath = [], metricsCertName = ''tls.crt'', metricsCertKey = ''tls.key'',
     enableHTTP2 = False, flagNamespace = ''shared-volume-controller''\<rparr>"

section \<open>What the manager is given\<close>

text \<open>A certificate watcher, by the directory and the names of its two files.\<close>

datatype watcher = WebhookCert string string string | MetricsCert string string string

datatype tls_opt = DisableHTTP2 | GetCertificateOf watcher

record tls_slice =
  ts_array :: nat
  ts_len :: nat

text \<open>
  The base controller as a variable (the reconcilers hold pointers to it, the recovery functions
  read it when they run); sync controllers are numbered in the order of their creation.
\<close>

record base_var =
  base_Client :: bool
  base_Namespace :: string
  base_SyncController :: "nat option"

datatype recovery = RecoverController nat | RecoverOfBase nat

datatype runnable =
  RecoveryRunnable string recovery OneTimeRecoveryRunnable
| CertWatcherRunnable watcher

datatype watched = WSharedVolume | WClusterSharedVolume | WPod

text \<open>A controller: its name, the kind it is for, the kinds it watches by owner, its base.\<close>

record registration =
  reg_Name :: string
  reg_For :: watched
  reg_Owned :: "string list"
  reg_Base :: "nat option"

record metrics_options =
  mo_BindAddress :: string
  mo_SecureServing :: bool
  mo_Authentication :: bool
  mo_TLSOpts :: "tls_slice option"

record manager_options =
  mgr_Metrics :: metrics_options
  mgr_WebhookTLSOpts :: "tls_slice option"
  mgr_ProbeAddr :: string
  mgr_LeaderElection :: bool
  mgr_LeaderElectionID :: string

record process =
  su_arrays :: "tls_opt option list list"
  su_bases :: "base_var list"
  su_syncs :: nat
  su_manager :: "manager_options option"
  su_runnables :: "runnable list"
  su_controllers :: "registration list"
  su_webhooks :: "string list"
  su_checks :: "string list"
  su_started :: bool

definition empty_process :: process where
  "empty_process = \<lparr>su_arrays = [], su_bases = [], su_syncs = 0, su_manager = None, su_runnables = [],
     su_controllers = [], su_webhooks = [], su_checks = [], su_started = False\<rparr>"

text \<open>The calls that controller-runtime can refuse.\<close>

datatype setup_call =
  NewWatcher watcher
| NewManager
| AddRunnable runnable
| CompleteController registration
| CompleteWebhook string
| AddCheck string
| StartManager

type_synonym refusal = "setup_call \<Rightarrow> process \<Rightarrow> error option"
type_synonym 'a setup_prog = "(process, 'a) state"

definition call :: "refusal \<Rightarrow> setup_call \<Rightarrow> (process \<Rightarrow> process) \<Rightarrow> (error + unit) setup_prog" where
  "call refuses c f = State (\<lambda>s. case refuses c s of None \<Rightarrow> (Inr (), f s) | Some err \<Rightarrow> (Inl err, s))"

definition mgr_Add :: "refusal \<Rightarrow> runnable \<Rightarrow> (error + unit) setup_prog" where
  "mgr_Add refuses r = call refuses (AddRunnable r) (su_runnables_update (\<lambda>rs. rs @ [r]))"

definition Complete :: "refusal \<Rightarrow> registration \<Rightarrow> (error + unit) setup_prog" where
  "Complete refuses c = call refuses (CompleteController c) (su_controllers_update (\<lambda>cs. cs @ [c]))"

section \<open>Slices of TLS options\<close>

definition append_tls :: "(nat \<Rightarrow> nat) \<Rightarrow> tls_slice option \<Rightarrow> tls_opt \<Rightarrow> tls_slice option setup_prog" where
  "append_tls spare sl x = State (\<lambda>s.
     (let new = (\<lambda>xs. (Some \<lparr>ts_array = length (su_arrays s), ts_len = length xs\<rparr>,
                  s\<lparr>su_arrays := su_arrays s @ [map Some xs @ replicate (spare (length xs)) None]\<rparr>))
      in case sl of
           None \<Rightarrow> new [x]
         | Some t \<Rightarrow>
             let a = su_arrays s ! ts_array t in
             if ts_len t < length a
             then (Some (t\<lparr>ts_len := Suc (ts_len t)\<rparr>),
                   s\<lparr>su_arrays := (su_arrays s)[ts_array t := a[ts_len t := Some x]]\<rparr>)
             else new (map the (take (ts_len t) a) @ [x])))"

text \<open>The options a server finds in its slice when the manager starts it.\<close>

definition tls_options :: "tls_opt option list list \<Rightarrow> tls_slice option \<Rightarrow> tls_opt option list" where
  "tls_options arrays sl = (case sl of None \<Rightarrow> [] | Some t \<Rightarrow> take (ts_len t) (arrays ! ts_array t))"

section \<open>Setting up the controllers\<close>

definition NewSyncController :: "nat setup_prog" where
  "NewSyncController = State (\<lambda>s. (su_syncs s, s\<lparr>su_syncs := Suc (su_syncs s)\<rparr>))"

definition NewVolumeControllerBase :: "string \<Rightarrow> nat option \<Rightarrow> base_var" where
  "NewVolumeControllerBase controllerNamespace syncController =
     \<lparr>base_Client = True, base_Namespace = controllerNamespace, base_SyncController = syncController\<rparr>"

text \<open>What the reconciler sees of it.\<close>

definition model_base :: "base_var \<Rightarrow> VolumeControllerBase" where
  "model_base b = \<lparr>ControllerNamespace = base_Namespace b, has_SyncController = (base_SyncController b \<noteq> None)\<rparr>"

definition new_base :: "base_var \<Rightarrow> nat setup_prog" where
  "new_base b = State (\<lambda>s. (length (su_bases s), s\<lparr>su_bases := su_bases s @ [b]\<rparr>))"

definition read_base :: "nat \<Rightarrow> base_var setup_prog" where
  "read_base r = gets (\<lambda>s. su_bases s ! r)"

definition write_base :: "nat \<Rightarrow> base_var \<Rightarrow> unit setup_prog" where
  "write_base r b = update_state (su_bases_update (\<lambda>bs. bs[r := b]))"

record ControllerSetupConfig =
  cfg_VolumeType :: watched
  cfg_ControllerName :: string
  cfg_ControllerNamespace :: string
  cfg_PreSetupHook :: "(nat \<Rightarrow> (error + unit) setup_prog) option"
  cfg_Runnables :: "runnable list"

definition SetupGenericController :: "refusal \<Rightarrow> nat \<Rightarrow> ControllerSetupConfig \<Rightarrow> (error + unit) setup_prog" where
  "SetupGenericController refuses r config = do {
     let controllerNamespace =
       (if cfg_ControllerNamespace config = [] then ''shared-volume-controller'' else cfg_ControllerNamespace config);
     b \<leftarrow> read_base r;
     _ \<leftarrow> (if \<not> base_Client b then write_base r (NewVolumeControllerBase controllerNamespace None) else ret ());
     _ \<leftarrow> (case cfg_PreSetupHook config of
            None \<Rightarrow> ret ()
          | Some hook \<Rightarrow> do { _ \<leftarrow> hook r; ret () });
     bindE (for_err (cfg_Runnables config) (\<lambda>runnable. do {
        e \<leftarrow> mgr_Add refuses runnable;
        ret (case e of Inl err \<Rightarrow> Inl (Errorf_w ''failed to add runnable to manager'' err) | Inr _ \<Rightarrow> Inr ()) })) (\<lambda>_.
     Complete refuses \<lparr>reg_Name = cfg_ControllerName config, reg_For = cfg_VolumeType config,
        reg_Owned = [''ReplicaSet'', ''PersistentVolumeClaim'', ''Service'', ''NfsServer''], reg_Base = Some r\<rparr>)
   }"

definition CreateSyncControllerSetupHook ::
  "refusal \<Rightarrow> nat setup_prog \<Rightarrow> recovery option \<Rightarrow> nat \<Rightarrow> (error + unit) setup_prog" where
  "CreateSyncControllerSetupHook refuses createSyncController recoveryFunc r = do {
     syncController \<leftarrow> createSyncController;
     b \<leftarrow> read_base r;
     _ \<leftarrow> write_base r (b\<lparr>base_SyncController := Some syncController\<rparr>);
     case recoveryFunc of
       None \<Rightarrow> ret (Inr ())
     | Some f \<Rightarrow> mgr_Add refuses (RecoveryRunnable ''sync-recovery'' f (NewOneTimeRecoveryRunnable True))
   }"

definition SetupWithManager_SharedVolume :: "refusal \<Rightarrow> nat \<Rightarrow> string \<Rightarrow> (error + unit) setup_prog" where
  "SetupWithManager_SharedVolume refuses r controllerNamespace = do {
     b \<leftarrow> read_base r;
     let preSetupHook =
       (if base_SyncController b = None
        then Some (CreateSyncControllerSetupHook refuses NewSyncController (Some (RecoverOfBase r))) else None);
     SetupGenericController refuses r \<lparr>cfg_VolumeType = WSharedVolume, cfg_ControllerName = ''sharedvolume'',
       cfg_ControllerNamespace = controllerNamespace, cfg_PreSetupHook = preSetupHook, cfg_Runnables = []\<rparr>
   }"

definition SetupWithManager_ClusterSharedVolume :: "refusal \<Rightarrow> nat \<Rightarrow> string \<Rightarrow> (error + unit) setup_prog" where
  "SetupWithManager_ClusterSharedVolume refuses r controllerNamespace = do {
     b \<leftarrow> read_base r;
     let preSetupHook =
       (if base_SyncController b = None
        then Some (CreateSyncControllerSetupHook refuses NewSyncController (Some (RecoverOfBase r))) else None);
     SetupGenericController refuses r \<lparr>cfg_VolumeType = WClusterSharedVolume,
       cfg_ControllerName = ''clustersharedvolume'', cfg_ControllerNamespace = controllerNamespace,
       cfg_PreSetupHook = preSetupHook, cfg_Runnables = []\<rparr>
   }"

definition SetupWithManager_PodCleanup :: "refusal \<Rightarrow> (error + unit) setup_prog" where
  "SetupWithManager_PodCleanup refuses =
     Complete refuses \<lparr>reg_Name = ''pod-cleanup'', reg_For = WPod, reg_Owned = [], reg_Base = None\<rparr>"

text \<open>The pod webhook is registered by its path, the two validators by their kind.\<close>

definition SetupPodWebhookWithManager :: "(error + unit) setup_prog" where
  "SetupPodWebhookWithManager = do {
     _ \<leftarrow> update_state (su_webhooks_update (\<lambda>ws. ws @ [''/mutate-v1-pod'']));
     ret (Inr ())
   }"

definition SetupCronJobWebhookWithManager :: "(error + unit) setup_prog" where
  "SetupCronJobWebhookWithManager = SetupPodWebhookWithManager"

definition SetupSharedVolumeWebhookWithManager :: "refusal \<Rightarrow> (error + unit) setup_prog" where
  "SetupSharedVolumeWebhookWithManager refuses =
     call refuses (CompleteWebhook ''SharedVolume'') (su_webhooks_update (\<lambda>ws. ws @ [''SharedVolume'']))"

definition SetupClusterSharedVolumeWebhookWithManager :: "refusal \<Rightarrow> (error + unit) setup_prog" where
  "SetupClusterSharedVolumeWebhookWithManager refuses =
     call refuses (CompleteWebhook ''ClusterSharedVolume'') (su_webhooks_update (\<lambda>ws. ws @ [''ClusterSharedVolume'']))"

section \<open>main\<close>

text \<open>\<open>if err != nil { setupLog.Error(err, m); os.Exit(1) }\<close>, with the message as the result.\<close>

definition or_exit :: "string \<Rightarrow> (error + 'a) setup_prog \<Rightarrow> (string + 'a) setup_prog" where
  "or_exit m p = do { r \<leftarrow> p; ret (case r of Inl err \<Rightarrow> Inl m | Inr x \<Rightarrow> Inr x) }"

text \<open>
  The TLS options of both servers and the options of the manager (up to \<open>ctrl.NewManager\<close>). Both
  servers start from the same slice \<open>tlsOpts\<close>.
\<close>

definition webhook_watcher :: "flags \<Rightarrow> watcher option" where
  "webhook_watcher fl = (if webhookCertPath fl \<noteq> []
     then Some (WebhookCert (webhookCertPath fl) (webhookCertName fl) (webhookCertKey fl)) else None)"

definition metrics_watcher :: "flags \<Rightarrow> watcher option" where
  "metrics_watcher fl = (if metricsCertPath fl \<noteq> []
     then Some (MetricsCert (metricsCertPath fl) (metricsCertName fl) (metricsCertKey fl)) else None)"

definition with_certificate ::
  "refusal \<Rightarrow> (nat \<Rightarrow> nat) \<Rightarrow> string \<Rightarrow> watcher option \<Rightarrow> tls_slice option \<Rightarrow> (string + tls_slice option) setup_prog" where
  "with_certificate refuses spare m w opts = (case w of
     None \<Rightarrow> ret (Inr opts)
   | Some w \<Rightarrow> bindE (or_exit m (call refuses (NewWatcher w) id)) (\<lambda>_. do {
       opts \<leftarrow> append_tls spare opts (GetCertificateOf w);
       ret (Inr opts) }))"

definition server_options :: "refusal \<Rightarrow> (nat \<Rightarrow> nat) \<Rightarrow> flags \<Rightarrow> (string + unit) setup_prog" where
  "server_options refuses spare fl = do {
     tlsOpts \<leftarrow> (if \<not> enableHTTP2 fl then append_tls spare None DisableHTTP2 else ret None);
     bindE (with_certificate refuses spare ''Failed to initialize webhook certificate watcher''
        (webhook_watcher fl) tlsOpts) (\<lambda>webhookTLSOpts.
     bindE (with_certificate refuses spare ''to initialize metrics certificate watcher''
        (metrics_watcher fl) tlsOpts) (\<lambda>metricsTLSOpts.
     or_exit ''unable to start manager'' (call refuses NewManager (su_manager_update (\<lambda>_. Some
       \<lparr>mgr_Metrics = \<lparr>mo_BindAddress = metricsAddr fl, mo_SecureServing = secureMetrics fl,
          mo_Authentication = secureMetrics fl, mo_TLSOpts = metricsTLSOpts\<rparr>,
        mgr_WebhookTLSOpts = webhookTLSOpts, mgr_ProbeAddr = probeAddr fl,
        mgr_LeaderElection = enableLeaderElection fl,
        mgr_LeaderElectionID = ''2ba324d3.sharedvolume.io''\<rparr>)))))
   }"

text \<open>The sync controller, its recovery and the three controllers.\<close>

definition setup_controllers :: "refusal \<Rightarrow> string \<Rightarrow> (string + unit) setup_prog" where
  "setup_controllers refuses controllerNamespace = do {
     sharedSyncController \<leftarrow> NewSyncController;
     bindE (or_exit ''unable to add sync recovery runnable'' (mgr_Add refuses
        (RecoveryRunnable ''sync-recovery'' (RecoverController sharedSyncController)
           (NewOneTimeRecoveryRunnable True)))) (\<lambda>_. do {
     r \<leftarrow> new_base (NewVolumeControllerBase controllerNamespace (Some sharedSyncController));
     bindE (or_exit ''unable to create controller SharedVolume''
        (SetupWithManager_SharedVolume refuses r controllerNamespace)) (\<lambda>_. do {
     r \<leftarrow> new_base (NewVolumeControllerBase controllerNamespace (Some sharedSyncController));
     bindE (or_exit ''unable to create controller ClusterSharedVolume''
        (SetupWithManager_ClusterSharedVolume refuses r controllerNamespace)) (\<lambda>_.
     or_exit ''unable to create controller PodCleanup'' (SetupWithManager_PodCleanup refuses)) }) })
   }"

definition setup_webhooks :: "refusal \<Rightarrow> (string + unit) setup_prog" where
  "setup_webhooks refuses =
     bindE (or_exit ''unable to create webhook Pod'' SetupPodWebhookWithManager) (\<lambda>_.
     bindE (or_exit ''unable to create webhook ClusterSharedVolume''
        (SetupClusterSharedVolumeWebhookWithManager refuses)) (\<lambda>_.
     or_exit ''unable to create webhook SharedVolume'' (SetupSharedVolumeWebhookWithManager refuses)))"

definition add_watcher :: "refusal \<Rightarrow> string \<Rightarrow> watcher option \<Rightarrow> (string + unit) setup_prog" where
  "add_watcher refuses m w = (case w of
     None \<Rightarrow> ret (Inr ())
   | Some w \<Rightarrow> or_exit m (mgr_Add refuses (CertWatcherRunnable w)))"

definition main :: "refusal \<Rightarrow> (nat \<Rightarrow> nat) \<Rightarrow> (string \<Rightarrow> string) \<Rightarrow> flags \<Rightarrow> (string + unit) setup_prog" where
  "main refuses spare getenv fl =
     bindE (server_options refuses spare fl) (\<lambda>_.
     bindE (setup_controllers refuses (flagNamespace fl)) (\<lambda>_.
     bindE (if getenv ''ENABLE_WEBHOOKS'' \<noteq> ''false'' then setup_webhooks refuses else ret (Inr ())) (\<lambda>_.
     bindE (add_watcher refuses ''unable to add metrics certificate watcher to manager'' (metrics_watcher fl)) (\<lambda>_.
     bindE (add_watcher refuses ''unable to add webhook certificate watcher to manager'' (webhook_watcher fl)) (\<lambda>_.
     bindE (or_exit ''unable to set up health check''
        (call refuses (AddCheck ''healthz'') (su_checks_update (\<lambda>cs. cs @ [''healthz''])))) (\<lambda>_.
     bindE (or_exit ''unable to set up ready check''
        (call refuses (AddCheck ''readyz'') (su_checks_update (\<lambda>cs. cs @ [''readyz''])))) (\<lambda>_.
     or_exit ''problem running manager'' (call refuses StartManager (su_started_update (\<lambda>_. True))))))))))"

section \<open>What a completed setup leaves\<close>

lemma run_call [simp]:
  "run_state (call refuses c f) s = (case refuses c s of None \<Rightarrow> (Inr (), f s) | Some err \<Rightarrow> (Inl err, s))"
  by (simp add: call_def)

lemma run_or_exit [simp]:
  "run_state (or_exit m p) s = (case run_state p s of (Inl err, t) \<Rightarrow> (Inl m, t) | (Inr x, t) \<Rightarrow> (Inr x, t))"
  by (simp add: or_exit_def split: prod.split sum.split)

lemma or_exit_Inr:
  "run_state (or_exit m p) s = (Inr x, t) \<longleftrightarrow> run_state p s = (Inr x, t)"
  by (auto split: prod.splits sum.splits)

lemma run_call_Inr: "run_state (call refuses c f) s = (Inr (), t) \<longleftrightarrow> refuses c s = None \<and> t = f s"
  by (auto split: option.splits)

lemma run_setup_sync [simp]:
  "run_state NewSyncController s = (su_syncs s, s\<lparr>su_syncs := Suc (su_syncs s)\<rparr>)"
  "run_state (new_base b) s = (length (su_bases s), s\<lparr>su_bases := su_bases s @ [b]\<rparr>)"
  "run_state (read_base r) s = (su_bases s ! r, s)"
  by (simp_all add: NewSyncController_def new_base_def read_base_def)

text \<open>
  A reconciler whose base has a client and a sync controller is registered, and nothing else
  happens: no hook runs.
\<close>

definition volume_registration :: "watched \<Rightarrow> string \<Rightarrow> nat \<Rightarrow> registration" where
  "volume_registration t name r = \<lparr>reg_Name = name, reg_For = t,
     reg_Owned = [''ReplicaSet'', ''PersistentVolumeClaim'', ''Service'', ''NfsServer''], reg_Base = Some r\<rparr>"

lemma run_SetupWithManager:
  assumes "r < length (su_bases s)" and "base_Client (su_bases s ! r)" and "base_SyncController (su_bases s ! r) \<noteq> None"
  shows "run_state (SetupWithManager_SharedVolume refuses r ns) s
      = run_state (Complete refuses (volume_registration WSharedVolume ''sharedvolume'' r)) s"
    and "run_state (SetupWithManager_ClusterSharedVolume refuses r ns) s
      = run_state (Complete refuses (volume_registration WClusterSharedVolume ''clustersharedvolume'' r)) s"
  using assms
  by (auto simp: SetupWithManager_SharedVolume_def SetupWithManager_ClusterSharedVolume_def
      SetupGenericController_def volume_registration_def)

lemma setup_controllers_Inr:
  assumes "run_state (setup_controllers refuses ns) s = (Inr (), t)"
  defines "b \<equiv> NewVolumeControllerBase ns (Some (su_syncs s))"
  defines "n \<equiv> length (su_bases s)"
  shows "t = s\<lparr>su_syncs := Suc (su_syncs s), su_bases := su_bases s @ [b, b],
    su_runnables := su_runnables s @ [RecoveryRunnable ''sync-recovery'' (RecoverController (su_syncs s))
       (NewOneTimeRecoveryRunnable True)],
    su_controllers := su_controllers s @ [volume_registration WSharedVolume ''sharedvolume'' n,
       volume_registration WClusterSharedVolume ''clustersharedvolume'' (Suc n),
       \<lparr>reg_Name = ''pod-cleanup'', reg_For = WPod, reg_Owned = [], reg_Base = None\<rparr>]\<rparr>"
  using assms(1)
  by (auto simp: setup_controllers_def mgr_Add_def Complete_def run_SetupWithManager b_def n_def
      NewVolumeControllerBase_def nth_append SetupWithManager_PodCleanup_def
      split: prod.splits sum.splits option.splits)

text \<open>The options both servers are meant to have.\<close>

definition http2_opts :: "flags \<Rightarrow> tls_opt list" where
  "http2_opts fl = (if enableHTTP2 fl then [] else [DisableHTTP2])"

definition meant_opts :: "flags \<Rightarrow> watcher option \<Rightarrow> tls_opt option list" where
  "meant_opts fl w = map Some (http2_opts fl @ (case w of None \<Rightarrow> [] | Some w \<Rightarrow> [GetCertificateOf w]))"

definition tls_as_meant :: "flags \<Rightarrow> process \<Rightarrow> bool" where
  "tls_as_meant fl s = (case su_manager s of None \<Rightarrow> False | Some m \<Rightarrow>
     tls_options (su_arrays s) (mgr_WebhookTLSOpts m) = meant_opts fl (webhook_watcher fl)
     \<and> tls_options (su_arrays s) (mo_TLSOpts (mgr_Metrics m)) = meant_opts fl (metrics_watcher fl))"

lemma run_with_certificate:
  "run_state (with_certificate refuses spare m w opts) s = (Inr opts', t) \<longleftrightarrow> (case w of
     None \<Rightarrow> opts' = opts \<and> t = s
   | Some w \<Rightarrow> refuses (NewWatcher w) s = None
       \<and> run_state (append_tls spare opts (GetCertificateOf w)) s = (opts', t))"
  by (auto simp: with_certificate_def split: option.splits prod.splits)

lemma server_options_Inr:
  assumes "run_state (server_options refuses spare fl) empty_process = (Inr (), t)"
  shows "t\<lparr>su_arrays := [], su_manager := None\<rparr> = empty_process"
    and "tls_as_meant fl t \<longleftrightarrow>
      enableHTTP2 fl \<or> webhookCertPath fl = [] \<or> metricsCertPath fl = [] \<or> spare 1 = 0"
proof -
  obtain tls s0 wo s1 mo s2 where
    s0: "run_state (if \<not> enableHTTP2 fl then append_tls spare None DisableHTTP2 else ret None) empty_process = (tls, s0)"
    and s1: "run_state (with_certificate refuses spare ''Failed to initialize webhook certificate watcher''
        (webhook_watcher fl) tls) s0 = (Inr wo, s1)"
    and s2: "run_state (with_certificate refuses spare ''to initialize metrics certificate watcher''
        (metrics_watcher fl) tls) s1 = (Inr mo, s2)"
    and t: "t = s2\<lparr>su_manager := Some
       \<lparr>mgr_Metrics = \<lparr>mo_BindAddress = metricsAddr fl, mo_SecureServing = secureMetrics fl,
          mo_Authentication = secureMetrics fl, mo_TLSOpts = mo\<rparr>,
        mgr_WebhookTLSOpts = wo, mgr_ProbeAddr = probeAddr fl,
        mgr_LeaderElection = enableLeaderElection fl,
        mgr_LeaderElectionID = ''2ba324d3.sharedvolume.io''\<rparr>\<rparr>"
    using assms
    by (auto simp: server_options_def split: prod.splits sum.splits option.splits)
  show "t\<lparr>su_arrays := [], su_manager := None\<rparr> = empty_process"
    using s0 s1 s2 unfolding t run_with_certificate
    by (auto simp: append_tls_def empty_process_def Let_def split: option.splits if_splits)
  show "tls_as_meant fl t \<longleftrightarrow>
      enableHTTP2 fl \<or> webhookCertPath fl = [] \<or> metricsCertPath fl = [] \<or> spare 1 = 0"
    using s0 s1 s2 unfolding t run_with_certificate
    by (cases "spare (Suc 0)")
       (auto simp: append_tls_def empty_process_def tls_as_meant_def meant_opts_def http2_opts_def
         tls_options_def webhook_watcher_def metrics_watcher_def Let_def split: option.splits if_splits)
qed

lemma setup_webhooks_Inr:
  "run_state (setup_webhooks refuses) s = (Inr (), t)
     \<Longrightarrow> t = s\<lparr>su_webhooks := su_webhooks s @ [''/mutate-v1-pod'', ''ClusterSharedVolume'', ''SharedVolume'']\<rparr>"
  by (auto simp: setup_webhooks_def SetupPodWebhookWithManager_def SetupSharedVolumeWebhookWithManager_def
      SetupClusterSharedVolumeWebhookWithManager_def split: prod.splits sum.splits option.splits)

lemma add_watcher_Inr:
  "run_state (add_watcher refuses m w) s = (Inr (), t)
     \<Longrightarrow> t = s\<lparr>su_runnables := su_runnables s @ (case w of None \<Rightarrow> [] | Some w \<Rightarrow> [CertWatcherRunnable w])\<rparr>"
  by (auto simp: add_watcher_def mgr_Add_def split: option.splits prod.splits)

lemma main_Inr:
  assumes "run_state (main refuses spare getenv fl) empty_process = (Inr (), s)"
  obtains t where "run_state (server_options refuses spare fl) empty_process = (Inr (), t)"
    "s = t\<lparr>su_syncs := 1,
       su_bases := replicate 2 (NewVolumeControllerBase (flagNamespace fl) (Some 0)),
       su_runnables := RecoveryRunnable ''sync-recovery'' (RecoverController 0) (NewOneTimeRecoveryRunnable True)
         # (case metrics_watcher fl of None \<Rightarrow> [] | Some w \<Rightarrow> [CertWatcherRunnable w])
         @ (case webhook_watcher fl of None \<Rightarrow> [] | Some w \<Rightarrow> [CertWatcherRunnable w]),
       su_controllers := [volume_registration WSharedVolume ''sharedvolume'' 0,
         volume_registration WClusterSharedVolume ''clustersharedvolume'' 1,
         \<lparr>reg_Name = ''pod-cleanup'', reg_For = WPod, reg_Owned = [], reg_Base = None\<rparr>],
       su_webhooks := (if getenv ''ENABLE_WEBHOOKS'' \<noteq> ''false''
         then [''/mutate-v1-pod'', ''ClusterSharedVolume'', ''SharedVolume''] else []),
       su_checks := [''healthz'', ''readyz''], su_started := True\<rparr>"
proof -
  obtain t t1 t2 t3 t4 where
    t: "run_state (server_options refuses spare fl) empty_process = (Inr (), t)"
    and t1: "run_state (setup_controllers refuses (flagNamespace fl)) t = (Inr (), t1)"
    and t2: "run_state (if getenv ''ENABLE_WEBHOOKS'' \<noteq> ''false'' then setup_webhooks refuses else ret (Inr ())) t1
      = (Inr (), t2)"
    and t3: "run_state (add_watcher refuses ''unable to add metrics certificate watcher to manager''
      (metrics_watcher fl)) t2 = (Inr (), t3)"
    and t4: "run_state (add_watcher refuses ''unable to add webhook certificate watcher to manager''
      (webhook_watcher fl)) t3 = (Inr (), t4)"
    and s: "s = t4\<lparr>su_checks := su_checks t4 @ [''healthz'', ''readyz''], su_started := True\<rparr>"
    using assms
    by (auto simp: main_def simp del: split_paired_All split: prod.splits sum.splits option.splits
        cong: if_cong split del: if_split)
  have e: "su_syncs t = 0" "su_bases t = []" "su_runnables t = []" "su_controllers t = []"
      "su_webhooks t = []" "su_checks t = []" "su_started t = False"
    using server_options_Inr(1) [OF t] by (cases t; simp add: empty_process_def)+
  have t2': "t2 = t1\<lparr>su_webhooks := su_webhooks t1 @ (if getenv ''ENABLE_WEBHOOKS'' \<noteq> ''false''
      then [''/mutate-v1-pod'', ''ClusterSharedVolume'', ''SharedVolume''] else [])\<rparr>"
    using t2 by (auto dest: setup_webhooks_Inr split: if_splits)
  show thesis
    by (rule that [OF t])
       (simp add: s add_watcher_Inr [OF t4] add_watcher_Inr [OF t3] t2' setup_controllers_Inr [OF t1] e
         numeral_2_eq_2)
qed

text \<open>
  C18. When the setup completes and the manager starts, there is exactly one sync controller, and it is
  recovered exactly once: one recovery runnable has been added, under leader election, and the
  controllers of both kinds of volume share the sync controller it recovers, so that the two maps
  of timers exist once. The three controllers are registered with their owned kinds, the webhooks
  exactly when they are enabled, and both health checks.
\<close>

theorem main_shares_sync_controller:
  assumes "run_state (main refuses spare getenv fl) empty_process = (Inr (), s)"
  shows "su_started s \<and> su_syncs s = 1
    \<and> filter (\<lambda>r. case r of RecoveryRunnable _ _ _ \<Rightarrow> True | _ \<Rightarrow> False) (su_runnables s)
        = [RecoveryRunnable ''sync-recovery'' (RecoverController 0) (NewOneTimeRecoveryRunnable True)]
    \<and> NeedLeaderElection (NewOneTimeRecoveryRunnable True)
    \<and> map (\<lambda>c. (reg_Name c, map_option (\<lambda>r. su_bases s ! r) (reg_Base c))) (su_controllers s)
        = [(''sharedvolume'', Some (NewVolumeControllerBase (flagNamespace fl) (Some 0))),
           (''clustersharedvolume'', Some (NewVolumeControllerBase (flagNamespace fl) (Some 0))),
           (''pod-cleanup'', None)]
    \<and> su_webhooks s = (if getenv ''ENABLE_WEBHOOKS'' \<noteq> ''false''
        then [''/mutate-v1-pod'', ''ClusterSharedVolume'', ''SharedVolume''] else [])
    \<and> su_checks s = [''healthz'', ''readyz'']"
proof (rule main_Inr [OF assms], goal_cases)
  case (1 t)
  show ?case
    unfolding 1(2)
    by (simp add: volume_registration_def NeedLeaderElection_def NewOneTimeRecoveryRunnable_def
        numeral_2_eq_2 split: option.split)
qed

lemmas main_eval = main_def server_options_def with_certificate_def append_tls_def default_flags_def
  webhook_watcher_def metrics_watcher_def setup_controllers_def mgr_Add_def Complete_def
  run_SetupWithManager NewVolumeControllerBase_def empty_process_def SetupWithManager_PodCleanup_def
  setup_webhooks_def SetupPodWebhookWithManager_def SetupSharedVolumeWebhookWithManager_def
  SetupClusterSharedVolumeWebhookWithManager_def add_watcher_def

theorem main_shares_sync_controller_witness:
  "su_syncs (snd (run_state (main (\<lambda>_ _. None) (\<lambda>_. 0) (\<lambda>_. []) default_flags) empty_process)) = 1"
proof -
  have "fst (run_state (main (\<lambda>_ _. None) (\<lambda>_. 0) (\<lambda>_. []) default_flags) empty_process) = Inr ()"
    by (simp add: main_eval)
  then show ?thesis
    using main_shares_sync_controller [of "\<lambda>_ _. None" "\<lambda>_. 0" "\<lambda>_. []" default_flags]
    by (metis prod.collapse)
qed

text \<open>
  The TLS options. The options of the webhook server and of the metrics server are built by appending
  to the same slice. Both servers get the options meant for them, for all certificates, exactly if
  the first \<open>append\<close> leaves no spare capacity (or there is nothing to overwrite); otherwise the
  certificate of the metrics server takes the place of the certificate of the webhook server. The
  language does not promise this capacity; the runtime happens to give it.
\<close>

theorem tls_options_kept_iff:
  assumes "run_state (main refuses spare getenv fl) empty_process = (Inr (), s)"
  shows "tls_as_meant fl s \<longleftrightarrow>
    enableHTTP2 fl \<or> webhookCertPath fl = [] \<or> metricsCertPath fl = [] \<or> spare 1 = 0"
proof (rule main_Inr [OF assms], goal_cases)
  case (1 t)
  have "tls_as_meant fl s = tls_as_meant fl t"
    unfolding 1(2) by (simp add: tls_as_meant_def split: option.split)
  then show ?case
    using server_options_Inr(2) [OF 1(1)] by simp
qed

definition cert_flags :: flags where
  "cert_flags = default_flags\<lparr>webhookCertPath := ''/w'', metricsCertPath := ''/m''\<rparr>"

theorem tls_options_kept_iff_witness:
  "tls_as_meant cert_flags (snd (run_state (main (\<lambda>_ _. None) (\<lambda>_. 0) (\<lambda>_. []) cert_flags) empty_process))
   \<and> \<not> tls_as_meant cert_flags (snd (run_state (main (\<lambda>_ _. None) (\<lambda>_. 1) (\<lambda>_. []) cert_flags) empty_process))"
proof -
  have "fst (run_state (main (\<lambda>_ _. None) (\<lambda>_. 0) (\<lambda>_. []) cert_flags) empty_process) = Inr ()"
    and "fst (run_state (main (\<lambda>_ _. None) (\<lambda>_. 1) (\<lambda>_. []) cert_flags) empty_process) = Inr ()"
    by (simp_all add: main_eval cert_flags_def)
  then show ?thesis
    using tls_options_kept_iff [of "\<lambda>_ _. None" "\<lambda>_. 0" "\<lambda>_. []" cert_flags]
      tls_options_kept_iff [of "\<lambda>_ _. None" "\<lambda>_. 1" "\<lambda>_. []" cert_flags]
    by (auto simp: prod_eq_iff) (simp_all add: cert_flags_def default_flags_def)
qed

section \<open>The namespace of the controller\<close>

fun creates_namespace :: "string \<Rightarrow> event \<Rightarrow> bool" where
  "creates_namespace ns (EApi (CreateReq (ONamespace m)) _) = (om_Name m = ns)"
| "creates_namespace ns _ = False"

lemma creates_namespace_iff:
  "creates_namespace ns e \<longleftrightarrow> (\<exists>m rp. e = EApi (CreateReq (ONamespace m)) rp \<and> om_Name m = ns)"
  by (cases "(ns, e)" rule: creates_namespace.cases) auto

lemma reconcile_creates_namespace:
  assumes "ControllerNamespace b \<noteq> ns"
  shows "emits (\<lambda>e. \<not> creates_namespace ns e) (ReconcileGeneric env b req_ns n config)"
proof -
  let ?P = "\<lambda>e. \<not> creates_namespace ns e"
  have weaken: "\<not> is_create e \<Longrightarrow> ?P e" for e
    by (auto simp: creates_namespace_iff)
  have "allows env ns' ?P" for ns'
    by (auto simp: allows_def creates_namespace_iff)
  then have "emits ?P (reconcile_filled env b v (Namespace config) (Some (CreateSyncReadyCallback b)) (Some (CreateSyncNotReadyCallback b)))" for v
    by (rule allowed_reconcile_sync)
  moreover have "emits ?P (EnsureControllerNamespace env b)"
    unfolding EnsureControllerNamespace_def by (intro keeps_intro) (simp_all add: assms)
  moreover have "emits ?P (HandleFinalizerLogic env b v f)" for v f
    unfolding HandleFinalizerLogic_def ensureFinalizer_def
    by (intro keeps_intro emits_weaken [OF handleDeletion_creates_nothing weaken]) simp_all
  ultimately show ?thesis
    unfolding ReconcileGeneric_def ReconcileVolume_def by (intro keeps_intro) simp_all
qed

text \<open>
  C40. The flag \<open>--controller-namespace\<close>. The reconciler of cluster volumes creates the namespace the
  flag names, but it keeps the resources in the namespace shared-volume-controller, whatever
  the flag says: with any other value of the flag, no reconciliation of a cluster volume creates
  the namespace its services go to.
\<close>

theorem controller_namespace_flag_ignored:
  assumes "run_state (main refuses spare getenv fl) empty_process = (Inr (), s)"
    and "c \<in> set (su_controllers s)" and "reg_For c = WClusterSharedVolume"
    and "flagNamespace fl \<noteq> ''shared-volume-controller''"
  shows "\<exists>r. reg_Base c = Some r \<and> ControllerNamespace (model_base (su_bases s ! r)) = flagNamespace fl
    \<and> emits (creates_service_in ''shared-volume-controller'')
        (Reconcile_ClusterSharedVolume env (model_base (su_bases s ! r)) req_ns n)
    \<and> emits (\<lambda>e. \<not> creates_namespace ''shared-volume-controller'' e)
        (Reconcile_ClusterSharedVolume env (model_base (su_bases s ! r)) req_ns n)"
proof (rule main_Inr [OF assms(1)], goal_cases)
  case (1 t)
  have ns: "Namespace csv_config = ''shared-volume-controller''"
    by (simp add: csv_config_def)
  have c: "reg_Base c = Some (Suc 0)"
    using assms(2,3) by (auto simp: 1(2) volume_registration_def)
  have base: "ControllerNamespace (model_base (su_bases s ! Suc 0)) = flagNamespace fl"
    by (simp add: 1(2) model_base_def NewVolumeControllerBase_def numeral_2_eq_2)
  show ?case
    unfolding Reconcile_ClusterSharedVolume_def
    using reconcile_creates_service_in [of csv_config env "model_base (su_bases s ! Suc 0)" req_ns n]
      reconcile_creates_namespace [of "model_base (su_bases s ! Suc 0)" "''shared-volume-controller''"] assms(4)
    by (intro exI [of _ "Suc 0"]) (auto simp: c base ns)
qed

theorem controller_namespace_flag_ignored_witness:
  "emits (\<lambda>e. \<not> creates_namespace ''shared-volume-controller'' e)
     (Reconcile_ClusterSharedVolume store_env \<lparr>ControllerNamespace = ''storage'', has_SyncController = True\<rparr> [] ''vol'')"
proof -
  let ?fl = "default_flags\<lparr>flagNamespace := ''storage''\<rparr>"
  let ?r = "run_state (main (\<lambda>_ _. None) (\<lambda>_. 0) (\<lambda>_. []) ?fl) empty_process"
  have r: "?r = (Inr (), snd ?r)"
    by (simp add: main_eval prod_eq_iff)
  have "su_controllers (snd ?r) ! 1 \<in> set (su_controllers (snd ?r))"
    "reg_For (su_controllers (snd ?r) ! 1) = WClusterSharedVolume"
    "reg_Base (su_controllers (snd ?r) ! 1) = Some 1"
    "model_base (su_bases (snd ?r) ! 1) = \<lparr>ControllerNamespace = ''storage'', has_SyncController = True\<rparr>"
    by (simp_all add: main_eval volume_registration_def model_base_def)
  with controller_namespace_flag_ignored [OF r, of "su_controllers (snd ?r) ! 1" store_env "[]" "''vol''"]
  show ?thesis by simp
qed

end
