(* ===== verification/Spec2Isabelle.thy ===== *)
theory Spec2Isabelle
  imports Reconcile_Safety Progress Cleanup_Variants Pod_Cleanup Created_Objects Deep_Copy Volume_Object Validators Setup
begin

text \<open>
  A verification library for the shared-volume controller, a Kubernetes operator in Go.

  The program. A \<open>SharedVolume\<close> (of a namespace) or \<open>ClusterSharedVolume\<close> describes data that is
  fetched from a source (SSH, HTTP, Git, S3) into a folder on an NFS server and mounted into pods
  that name the volume in an annotation. Three parts work on it. The admission webhooks for volumes
  (src/internal/webhook/validation, src/internal/webhook/v1alpha1) refuse bad specifications and
  changes of identity. The controllers for both kinds (src/internal/controller) share the base
  controller, which fills in defaults, generates and watches the NFS server, creates a persistent
  volume, a claim, a ReplicaSet (the syncer) and a service, keeps the status, and cleans up behind
  its finalizer; the sync controller keeps one timer per volume and posts sync requests to the
  service. The pod webhook (src/internal/webhook/v1) makes a persistent volume and a claim in the
  namespace of a pod and mounts them, and the pod cleanup controller removes them when the last
  pod that names the volume has gone. The parts meet only in the API server and in the two maps of
  the sync controller.

  The model. A method with effects is a program of the state monad over \<open>'w world\<close>: the state of the
  API server and of everything else outside the repository, which may have any type \<open>'w\<close>, the
  history of all calls with their answers, and the maps and pending timers of the sync controller. What
  is outside is the record \<open>env\<close>, an argument of every operation: the API server as a function from
  a request and a state, the HTTP client, the clock, sleep, the random source,
  \<open>resource.ParseQuantity\<close> and the environment variables. Theorems hold for every \<open>env\<close> unless they
  name a law: \<open>honest\<close> (an answer is of the kind, namespace and name asked for), \<open>stores\<close>,
  \<open>stores_status\<close> and \<open>stores_admitted\<close> (get, create, delete, status update and admitted update of
  a volume act on a store of objects by key), \<open>lifecycle\<close> (deletion and finalizers),
  \<open>clock_ok\<close> (the clock goes on while the code sleeps), \<open>keeps_pointers\<close> and the like. Samples
  has a server that satisfies the laws on a list of objects, for the witnesses. Errors are values
  \<open>Inl e\<close>; a nil dereference and \<open>resource.MustParse\<close> on a bad string are the error \<open>Panic\<close>. A method
  that changes the object it is given returns the changed object. Logging is left out. Integers
  are \<open>int\<close>, but the arithmetic of \<open>time.ParseDuration\<close> is on 64-bit words.

  Theories, with the files under src/ they model, and what their lemmas show.

  Prelude: strings of the Go library, the monad with early return, and the judgements \<open>keeps\<close>
  (a run moves the state along a preorder; locale \<open>step_preorder\<close>), \<open>results\<close> and \<open>yields\<close>, with rules
  in the collections \<open>keeps_intro\<close> and \<open>yields_intro\<close>.

  Api_Types: the types of api/v1alpha1 and the fields of the Kubernetes objects the code touches.
  Cluster: world, environment and the typed client; \<open>emits\<close> (every call of a run satisfies a
  predicate), the keys a call writes, the ranks of writes, the laws of servers. Samples: concrete
  objects. Go_Time: \<open>time.ParseDuration\<close> with its overflow checks.

  Validation: webhook/validation/common.go and the admission entry points. Admission of a creation is
  equivalent to declarative rules; along admitted updates the identity of a volume never changes.
  The locales \<open>credential_check\<close> and \<open>required_credential_check\<close> hold what the six credential
  checks share. Validators: the interface of the validators as a locale, with both validators as its
  interpretations; what is admitted can be written again with other metadata and can be deleted.

  Volume_Status: defaults and validation of a specification, external and managed servers, phase
  and status decisions (volume_controller_base.go). Filling is idempotent and succeeds exactly on valid
  specifications; the filled specification is not always an admissible update.

  Retry: the loops around conflicting updates, as recursion with a termination proof; the locale
  \<open>retry_loop\<close> bounds their calls (maximum of 3 or 5 retries) and its interpretations cover finalizer removal,
  status update and the two loops that strip finalizers.

  Resources: what is created for a volume, in which order and scope, and that reconciling the resources a second
  time only reads (\<open>settles\<close>).

  Sync_Request: secrets, base64, the four request builders in both variants, URL and POST
  (sync_controller.go); a request tells the syncer what the specification and the secrets say (\<open>told\<close>), the
  text of a private key decoding to its bytes, and the sync of an admitted volume reads and posts only where it
  should.
  Sync_Timers: the timers, callbacks and recovery; \<open>timers_ok\<close> (one timer per volume, each of them
  registered) is kept by all methods run as single steps, and broken when a callback overlaps
  with a start (\<open>overlap_steps\<close>).

  Polling: the locale \<open>polling\<close> of the loops that look and sleep until a deadline, and laws of clocks.
  Cleanup: forced deletion and the passes of \<open>CleanupResources\<close>, their order, the keys they can touch, the
  timers they stop (those under the key of the stored volume), and the return of the wait for persistent volumes. Cleanup_Variants: the methods around the cleanup that have no caller,
  among them the wait for pods.

  Reconcile: readiness, server life cycle, finalizers and the entry points of both controllers, the
  recovery runnable. The finalizer is there before the first resource and goes after the last.
  Reconcile_Safety: reconciliations do not panic, and the timers stay in order through any sequence of
  reconciliations, recoveries and callbacks (\<open>system_steps\<close>). Convergence: with everything ready one
  reconciliation makes a volume ready, and a ready volume is left alone; the judgement \<open>finds\<close>
  describes the calls that only read. Progress: a new volume is ready after three reconciliations when the
  other controllers of the cluster (\<open>others_act\<close>) do their part after the first two; its updates pass
  the model of the admission webhook.

  Lifecycle and Deletion: servers on which deletion marks objects with finalizers and objects go with their
  last finalizer (\<open>lifecycle\<close>), a judgement \<open>wp\<close> on the stored objects with a rule per call, and what each
  forced deletion and each pass of the cleanup removes; one reconciliation of a volume under deletion takes
  away the volume and what was made for it, and leaves every other object as it was. Created_Objects: that is
  everything the reconciler and the pod webhook create for a volume with a reference value.

  Pod_Webhook and Pod_Admission: the pod webhook and what it guarantees: the patched pod, exactly
  (\<open>with_volumes\<close>), what is denied, that admitting again changes nothing, when claims are released, and whether
  the syncs write where pods read. Pod_Cleanup: the pod cleanup controller, its scope, its agreement with the
  webhook, and that it gives up the finalizers of a pod before its claims are cleaned up. The locale \<open>release_if_unused\<close> is the contract of
  the three functions that release the claims of a volume nobody uses.

  Go_Heap and Deep_Copy: the generated deep copies (api/v1alpha1/zz_generated.deepcopy.go) on a heap of cells with
  pointers, as a calculus of places (lenses into cells) and the judgement \<open>copies\<close> in the locale
  \<open>cell_typing\<close>. A deep copy is well typed, has the value of its original, and shares no cell with it.
  Everywhere else volumes are immutable values, which these theorems justify where the code copies.

  Volume_Object: the Go interface VolumeObject as a locale, and the methods of both types of volume as its
  interpretations. Api_Types has one record for both, with the Go type as the field \<open>vo_type\<close>; the
  methods of \<open>ClusterSharedVolume\<close> are proved equal to those used there.

  Setup: cmd/main.go and the registration functions it calls, over a record of everything the manager is given.
  When the setup completes, both controllers share the one sync controller that is recovered.

  Bounds. The only loops of the code without a bound of their own are the wait for persistent volumes (at most two
  minutes, a look every five seconds) and the wait for pods (at most fifteen seconds, a look every second); they take
  their fuel from \<open>e_fuel\<close>, and 25 and 16 rounds are shown to be enough with a clock that moves on. All other
  recursions are structural or have a measure.

  Parameters. Besides \<open>env\<close>: the deep copies of ObjectMeta and ListMeta (apimachinery) in Deep_Copy, with the
  law that they copy; in Setup, whether controller-runtime refuses a call (\<open>refuses\<close>) and the spare capacity of
  the arrays behind slices (\<open>spare\<close>).

  Not modelled. JSON encoding, HTTP transport, TLS handshakes, leader election, the parsing of flags and
  the event sources of the manager are library code. The registration of the types in the scheme
  (groupversion_info.go) has no state of its own. The shell helpers of the end-to-end tests (test/utils) are
  no part of the program. The mutex of the sync controller makes each access to its maps
  atomic, which is what the steps of Sync_Timers assume; no weaker memory behaviour is considered.
  Other clients of the API server can act only between calls, through the state \<open>'w\<close>; the laws of
  stores leave them out.

  Plan. What can be added: the progress of volumes with a server of their own, failing calls
  between the reconciliations of Progress, and deletion with other clients at work.
\<close>

end
